(* ===== verification/Prelude.thy ===== *)
theory Prelude
  imports Main "HOL-Library.Word"
begin

unbundle bit_operations_syntax

text \<open>
  Shared vocabulary of the development: the JavaScript values the modelled TypeScript
  code computes with, the results of code that throws, and the generic lemmas that the
  component theories use.

  \<^item> A \<open>Uint8Array\<close> is a \<open>byte list\<close>. The bitwise operators of the language convert
    their operands with \<open>ToInt32\<close>, so every value they produce is an \<open>i32\<close>; \<open><<\<close> and
    \<open>>>\<close> are \<open>js_shl\<close> and \<open>js_sar\<close> and take their shift count modulo 32.
  \<^item> A string is a \<open>string\<close> whose characters are the UTF-16 code units below 256 (every
    string the code builds itself is ASCII). \<open>utf8\<close> is \<open>TextEncoder.encode\<close> on them.
  \<^item> A function that can throw, or a promise that can reject, returns \<open>js_error + 'a\<close>;
    \<open>rbind\<close> continues after success and \<open>rmap\<close> is a loop that stops at the first throw.
\<close>

section \<open>Values and results\<close>

type_synonym byte = "8 word"
type_synonym i32 = "32 word"

datatype js_error =
    Error string        \<comment> \<open>\<open>new Error(message)\<close>\<close>
  | TypeError           \<comment> \<open>property of undefined, call of a non-function\<close>
  | RangeError
  | SyntaxError

type_synonym 'a result = "js_error + 'a"

fun rbind :: "'e + 'a \<Rightarrow> ('a \<Rightarrow> 'e + 'b) \<Rightarrow> 'e + 'b" where
  "rbind (Inl e) f = Inl e"
| "rbind (Inr x) f = f x"

fun rmap :: "('a \<Rightarrow> 'e + 'b) \<Rightarrow> 'a list \<Rightarrow> 'e + 'b list" where
  "rmap f [] = Inr []"
| "rmap f (x # xs) = rbind (f x) (\<lambda>y. rbind (rmap f xs) (\<lambda>ys. Inr (y # ys)))"

lemma rbind_eq_Inr [simp]: "rbind r f = Inr y \<longleftrightarrow> (\<exists>x. r = Inr x \<and> f x = Inr y)"
  by (cases r) auto

lemma rbind_assoc: "rbind (rbind r f) g = rbind r (\<lambda>x. rbind (f x) g)"
  by (cases r) auto

lemma rmap_total: "(\<And>x. x \<in> set xs \<Longrightarrow> f x = Inr (g x)) \<Longrightarrow> rmap f xs = Inr (map g xs)"
  by (induction xs) auto

lemma rmap_length: "rmap f xs = Inr ys \<Longrightarrow> length ys = length xs"
  by (induction xs arbitrary: ys) auto

lemma rmap_nth: "rmap f xs = Inr ys \<Longrightarrow> i < length xs \<Longrightarrow> f (xs ! i) = Inr (ys ! i)"
  by (induction xs arbitrary: ys i) (auto simp: nth_Cons split: nat.splits)

lemma rmap_Inl: "rmap f xs = Inl e \<Longrightarrow> \<exists>x \<in> set xs. f x = Inl e"
proof (induction xs)
  case (Cons x xs)
  then show ?case by (cases "f x"; cases "rmap f xs") auto
qed simp

lemma rmap_cong: "(\<And>x. x \<in> set xs \<Longrightarrow> f x = g x) \<Longrightarrow> rmap f xs = rmap g xs"
  by (induction xs) simp_all

lemma rmap_Cons_Inr:
  "rmap f (x # xs) = Inr zs \<longleftrightarrow> (\<exists>y ys. f x = Inr y \<and> rmap f xs = Inr ys \<and> zs = y # ys)"
  by auto

section \<open>The bitwise operators of the language\<close>

definition toInt32 :: "int \<Rightarrow> i32" where
  "toInt32 n = word_of_int n"

definition toUint8 :: "i32 \<Rightarrow> byte" where
  "toUint8 w = ucast w"

definition js_shl :: "i32 \<Rightarrow> nat \<Rightarrow> i32" where
  "js_shl a n = push_bit (n mod 32) a"

definition js_sar :: "i32 \<Rightarrow> nat \<Rightarrow> i32" where
  "js_sar a n = signed_drop_bit (n mod 32) a"

lemma bit_js_shl: "n < 32 \<Longrightarrow> bit (js_shl a n) k \<longleftrightarrow> n \<le> k \<and> k < 32 \<and> bit a (k - n)"
  by (auto simp: js_shl_def bit_push_bit_iff dest: bit_imp_le_length)

lemma bit_js_sar: "n + k < 32 \<Longrightarrow> bit (js_sar a n) k \<longleftrightarrow> bit a (n + k)"
  by (auto simp: js_sar_def bit_signed_drop_bit_iff)

lemma bit_toUint8: "bit (toUint8 w) k \<longleftrightarrow> k < 8 \<and> bit w k"
  by (auto simp: toUint8_def bit_simps)

lemma js_shift_0 [simp]: "js_sar w 0 = w" "js_shl w 0 = w"
  by (simp_all add: js_sar_def js_shl_def)

lemma masks_i32:
  "(1 :: i32) = mask 1" "(0x1f :: i32) = mask 5" "(0xff :: i32) = mask 8" "(0x1ffffff :: i32) = mask 25"
  by (simp_all add: mask_eq_exp_minus_1)

lemma js_sar_nonneg: "unat a < 2 ^ 31 \<Longrightarrow> js_sar a n = drop_bit (n mod 32) a"
proof (rule bit_word_eqI)
  fix k assume a: "unat a < 2 ^ 31" and k: "k < LENGTH(32)"
  have top: "\<not> bit a 31"
  proof
    assume "bit a 31"
    then have "bit (unat a) 31" by (simp add: bit_unsigned_iff)
    then have "2 ^ 31 \<le> unat a" by (auto simp: bit_iff_odd) (metis a div_less even_zero not_less)
    with a show False by simp
  qed
  then have "\<not> bit a j" if "31 \<le> j" for j
    using that bit_imp_le_length [of a j] by (cases "j = 31") auto
  then show "bit (js_sar a n) k = bit (drop_bit (n mod 32) a) k"
    using k top by (auto simp: js_sar_def bit_signed_drop_bit_iff bit_drop_bit_eq)
qed

lemma not_bit_high:
  fixes v :: "'a::len word"
  assumes "unat v < 2 ^ n" "n \<le> k"
  shows "\<not> bit v k"
proof -
  have "bit (unat v) k = bit (take_bit n (unat v)) k" using assms(1) by (simp add: take_bit_nat_eq_self)
  then have "\<not> bit (unat v) k" using assms(2) by (simp add: bit_take_bit_iff)
  then show ?thesis using bit_imp_le_length [of v k] by (auto simp: bit_unsigned_iff)
qed

lemma unat_bound_bits: "(\<And>k. n \<le> k \<Longrightarrow> \<not> bit w k) \<Longrightarrow> unat (w :: 'a::len word) < 2 ^ n"
proof -
  assume "\<And>k. n \<le> k \<Longrightarrow> \<not> bit w k"
  then have "w = take_bit n w" by (intro bit_word_eqI) (metis bit_take_bit_iff not_le)
  then show ?thesis by (metis take_bit_nat_less_exp unsigned_take_bit_eq)
qed

lemma unat_xor_bound:
  assumes "unat (v :: 'a::len word) < 2 ^ n" "unat w < 2 ^ n"
  shows "unat (v XOR w) < 2 ^ n"
  using not_bit_high [OF assms(1)] not_bit_high [OF assms(2)] by (intro unat_bound_bits) (simp add: bit_xor_iff)

lemma xor_cancel_left: "(a XOR b = a XOR c) \<longleftrightarrow> b = (c :: 'a::len word)"
  by (metis xor.assoc xor.left_neutral xor_self_eq)

lemma xor_cancel_right: "(b XOR a = c XOR a) \<longleftrightarrow> b = (c :: 'a::len word)"
  by (metis xor.commute xor_cancel_left)

lemma xor_eq_0: "a XOR b = 0 \<longleftrightarrow> a = (b :: 'a::len word)"
  by (metis xor_cancel_left xor_self_eq)

section \<open>Bit strings\<close>

text \<open>\<open>bits_of n w\<close> is the list of the \<open>n\<close> low bits of \<open>w\<close>, most significant first: what
  a loop \<open>for (let i = n - 1; i >= 0; i--) bits.push((w >> i) & 1)\<close> pushes.\<close>

definition bits_of :: "nat \<Rightarrow> 'a::len word \<Rightarrow> bool list" where
  "bits_of n w = map (bit w) (rev [0..<n])"

fun bits_value :: "bool list \<Rightarrow> nat" where
  "bits_value [] = 0"
| "bits_value (b # bs) = of_bool b * 2 ^ length bs + bits_value bs"

lemma length_bits_of [simp]: "length (bits_of n w) = n"
  by (simp add: bits_of_def)

lemma bits_of_0 [simp]: "bits_of 0 w = []"
  by (simp add: bits_of_def)

lemma bits_of_Suc: "bits_of (Suc n) w = bit w n # bits_of n w"
  by (simp add: bits_of_def)

lemma nth_bits_of: "i < n \<Longrightarrow> bits_of n w ! i = bit w (n - Suc i)"
  by (simp add: bits_of_def rev_nth)

lemma bits_of_add: "bits_of (m + n) w = map (bit w) (rev [n..<n + m]) @ bits_of n w"
  using upt_add_eq_append [of 0 n m] by (simp add: bits_of_def add.commute)

lemma bits_of_cong: "(\<And>k. k < n \<Longrightarrow> bit v k = bit w k) \<Longrightarrow> bits_of n v = bits_of n w"
  by (simp add: bits_of_def)

lemma bits_of_inject:
  fixes v w :: "'a::len word"
  assumes "bits_of n v = bits_of n w" and "LENGTH('a) \<le> n"
  shows "v = w"
proof (rule bit_word_eqI)
  fix k assume "k < LENGTH('a)"
  then have "bits_of n v ! (n - Suc k) = bits_of n w ! (n - Suc k)" and "n - Suc k < n"
    using assms by auto
  then show "bit v k = bit w k"
    using \<open>k < LENGTH('a)\<close> assms(2) by (simp add: nth_bits_of)
qed

section \<open>Lists\<close>

lemma concat_map_append_eq:
  assumes "concat (map f xs) @ r = concat (map f ys) @ s"
    and "length xs = length ys" and "\<And>x y. length (f x) = length (f y)"
  shows "map f xs = map f ys \<and> r = s"
  using assms(1,2)
proof (induction xs arbitrary: ys)
  case Nil
  then show ?case by simp
next
  case (Cons x xs)
  then obtain y ys' where ys: "ys = y # ys'" by (cases ys) auto
  with Cons.prems assms(3) [of x y]
  have "f x = f y" and "concat (map f xs) @ r = concat (map f ys') @ s"
    by (simp_all add: append_eq_append_conv)
  with Cons.IH [of ys'] Cons.prems(2) ys show ?case by simp
qed

text \<open>\<open>chunks n xs\<close> cuts \<open>xs\<close> into consecutive pieces of \<open>n\<close> elements.\<close>

function chunks :: "nat \<Rightarrow> 'a list \<Rightarrow> 'a list list" where
  "chunks n xs = (if n = 0 \<or> length xs < n then [] else take n xs # chunks n (drop n xs))"
  by pat_completeness auto
termination
  by (relation "measure (\<lambda>(n, xs). length xs)") auto

declare chunks.simps [simp del]

lemma chunks_concat:
  assumes "0 < n" and "\<And>x. x \<in> set xss \<Longrightarrow> length x = n" and "length r < n"
  shows "chunks n (concat xss @ r) = xss"
  using assms(2)
proof (induction xss)
  case Nil
  then show ?case using assms by (simp add: chunks.simps)
next
  case (Cons x xss)
  then have "length x = n" by simp
  with Cons assms(1) show ?case by (subst chunks.simps) simp
qed

section \<open>Maps kept as association lists\<close>

text \<open>A JavaScript \<open>Map\<close> or object keeps the order of insertion; \<open>set\<close> on a present key
  keeps its position, \<open>delete\<close> drops it.\<close>

fun mput :: "'k \<Rightarrow> 'v \<Rightarrow> ('k \<times> 'v) list \<Rightarrow> ('k \<times> 'v) list" where
  "mput k v [] = [(k, v)]"
| "mput k v ((k', v') # m) = (if k = k' then (k, v) # m else (k', v') # mput k v m)"

definition mdelete :: "'k \<Rightarrow> ('k \<times> 'v) list \<Rightarrow> ('k \<times> 'v) list" where
  "mdelete k m = filter (\<lambda>(k', _). k' \<noteq> k) m"

lemma map_of_mput [simp]: "map_of (mput k v m) = (map_of m)(k \<mapsto> v)"
  by (induction m) auto

lemma map_of_mdelete [simp]: "map_of (mdelete k m) = (map_of m)(k := None)"
  by (induction m) (auto simp: mdelete_def)

lemma keys_mput: "fst ` set (mput k v m) = insert k (fst ` set m)"
  by (induction m) (auto split: if_splits, force+)

lemma keys_mdelete: "fst ` set (mdelete k m) = fst ` set m - {k}"
  by (auto simp: mdelete_def)

lemma distinct_mput: "distinct (map fst m) \<Longrightarrow> distinct (map fst (mput k v m))"
proof (induction m)
  case (Cons p m)
  then show ?case using keys_mput [of k v m] by (cases p) auto
qed simp

lemma distinct_mdelete: "distinct (map fst m) \<Longrightarrow> distinct (map fst (mdelete k m))"
  unfolding mdelete_def by (induction m) auto

lemma set_mput: "set (mput k v m) \<subseteq> insert (k, v) (set m)"
  by (induction m) (auto split: if_splits)

lemma set_mdelete: "set (mdelete k m) = {p \<in> set m. fst p \<noteq> k}"
  by (auto simp: mdelete_def)

lemma mput_fresh: "k \<notin> fst ` set m \<Longrightarrow> mput k v m = m @ [(k, v)]"
  by (induction m) auto

lemma length_takeWhile_nth:
  "distinct s \<Longrightarrow> d < length s \<Longrightarrow> length (takeWhile (\<lambda>x. x \<noteq> s ! d) s) = d"
  by (induction s arbitrary: d) (auto simp: nth_Cons split: nat.splits)

end
