(* ===== verification/Bytes.thy ===== *)
theory Bytes
  imports Prelude
begin

text \<open>
  The byte layer of the wallets (\<open>toHex\<close>, \<open>fromHex\<close>, \<open>writeLE32\<close>, \<open>writeLE64\<close>,
  \<open>writeVarInt\<close>, \<open>cat\<close> of \<^verbatim>\<open>src/mobile/utils/wallet-crypto.ts\<close>), with the string
  functions of the language they use, and the contract \<open>codec\<close> of a self-delimiting
  encoding, interpreted on each writer against a reference reader.
\<close>

section \<open>Strings\<close>

definition padStart :: "nat \<Rightarrow> char \<Rightarrow> string \<Rightarrow> string" where
  "padStart n c s = replicate (n - length s) c @ s"

definition hexDigit :: "nat \<Rightarrow> char" where
  "hexDigit n = ''0123456789abcdef'' ! n"

text \<open>\<open>Number.prototype.toString(16)\<close> and \<open>toString()\<close> on a non-negative integer.\<close>

fun toString16 :: "nat \<Rightarrow> string" where
  "toString16 n = (if n < 16 then [hexDigit n] else toString16 (n div 16) @ [hexDigit (n mod 16)])"

fun toString10 :: "nat \<Rightarrow> string" where
  "toString10 n = (if n < 10 then [hexDigit n] else toString10 (n div 10) @ [hexDigit (n mod 10)])"

declare toString16.simps [simp del] toString10.simps [simp del]

fun join :: "string \<Rightarrow> string list \<Rightarrow> string" where
  "join sep [] = []"
| "join sep [w] = w"
| "join sep (w # ws) = w @ sep @ join sep ws"

lemma join_Cons: "ws \<noteq> [] \<Longrightarrow> join sep (w # ws) = w @ sep @ join sep ws"
  by (cases ws) simp_all

text \<open>White space of the language among the code units below 256.\<close>

definition js_space :: "char \<Rightarrow> bool" where
  "js_space c \<longleftrightarrow> (let n = of_char c :: nat in (9 \<le> n \<and> n \<le> 13) \<or> n = 32 \<or> n = 160)"

definition hexValue :: "char \<Rightarrow> nat option" where
  "hexValue c = (let n = of_char c :: nat in
     if 48 \<le> n \<and> n \<le> 57 then Some (n - 48)
     else if 97 \<le> n \<and> n \<le> 102 then Some (n - 87)
     else if 65 \<le> n \<and> n \<le> 70 then Some (n - 55)
     else None)"

fun hexPrefix :: "int \<Rightarrow> string \<Rightarrow> int" where
  "hexPrefix acc [] = acc"
| "hexPrefix acc (c # s) =
     (case hexValue c of None \<Rightarrow> acc | Some d \<Rightarrow> hexPrefix (16 * acc + int d) s)"

text \<open>\<open>parseInt(s, 16)\<close>: leading white space, a sign, an optional \<open>0x\<close>, then the longest
  run of hexadecimal digits; \<open>None\<close> is \<open>NaN\<close>.\<close>

definition parseInt16 :: "string \<Rightarrow> int option" where
  "parseInt16 s =
    (let t = dropWhile js_space s;
         neg = (t \<noteq> [] \<and> hd t = CHR ''-'');
         t1 = (if t \<noteq> [] \<and> (hd t = CHR ''-'' \<or> hd t = CHR ''+'') then tl t else t);
         t2 = (if length t1 \<ge> 2 \<and> t1 ! 0 = CHR ''0'' \<and> (t1 ! 1 = CHR ''x'' \<or> t1 ! 1 = CHR ''X'')
               then drop 2 t1 else t1)
     in if t2 = [] \<or> hexValue (hd t2) = None then None
        else Some ((if neg then - 1 else 1) * hexPrefix 0 t2))"

text \<open>A number stored into a \<open>Uint8Array\<close>: \<open>NaN\<close> becomes 0, an integer wraps.\<close>

definition storeByte :: "int option \<Rightarrow> byte" where
  "storeByte v = (case v of None \<Rightarrow> 0 | Some n \<Rightarrow> word_of_int n)"

text \<open>\<open>TextEncoder.encode\<close> on code units below 256.\<close>

definition utf8_char :: "char \<Rightarrow> byte list" where
  "utf8_char c = (let n = of_char c :: nat in
     if n < 128 then [of_nat n] else [of_nat (192 + n div 64), of_nat (128 + n mod 64)])"

definition utf8 :: "string \<Rightarrow> byte list" where
  "utf8 s = concat (map utf8_char s)"

section \<open>Hexadecimal\<close>

definition byteHex :: "byte \<Rightarrow> string" where
  "byteHex b = padStart 2 (CHR ''0'') (toString16 (unat b))"

definition toHex :: "byte list \<Rightarrow> string" where
  "toHex bytes = concat (map byteHex bytes)"

text \<open>The loop of \<open>fromHex\<close> reads two characters at a time; the store at \<open>i / 2\<close> for a last
  odd character is outside the array and ignored.\<close>

fun fromHex :: "string \<Rightarrow> byte list" where
  "fromHex (a # b # hex) = storeByte (parseInt16 [a, b]) # fromHex hex"
| "fromHex _ = []"

section \<open>Integers\<close>

definition writeLE32 :: "int \<Rightarrow> byte list" where
  "writeLE32 n = (let w = toInt32 n in
     [toUint8 (w AND 0xff), toUint8 (js_sar w 8 AND 0xff),
      toUint8 (js_sar w 16 AND 0xff), toUint8 (js_sar w 24 AND 0xff)])"

fun writeLE_loop :: "nat \<Rightarrow> int \<Rightarrow> byte list" where
  "writeLE_loop 0 v = []"
| "writeLE_loop (Suc k) v = word_of_int (v AND 0xff) # writeLE_loop k (drop_bit 8 v)"

definition writeLE64 :: "int \<Rightarrow> byte list" where
  "writeLE64 n = writeLE_loop 8 n"

definition writeVarInt :: "nat \<Rightarrow> byte list" where
  "writeVarInt n =
    (let w = toInt32 (int n) in
     if n < 0xfd then [of_nat n]
     else if n \<le> 0xffff then [0xfd, toUint8 (w AND 0xff), toUint8 (js_sar w 8 AND 0xff)]
     else [0xfe, toUint8 (w AND 0xff), toUint8 (js_sar w 8 AND 0xff),
           toUint8 (js_sar w 16 AND 0xff), toUint8 (js_sar w 24 AND 0xff)])"

definition cat :: "byte list list \<Rightarrow> byte list" where
  "cat arrs = concat arrs"

section \<open>Self-delimiting encodings\<close>

text \<open>The contract of a writer \<open>enc\<close> and a reader \<open>dec\<close> for the values that satisfy \<open>ok\<close>:
  the reader consumes exactly what the writer produced and hands back the rest.\<close>

locale codec =
  fixes enc :: "'a \<Rightarrow> byte list"
    and dec :: "byte list \<Rightarrow> ('a \<times> byte list) option"
    and ok :: "'a \<Rightarrow> bool"
  assumes dec_enc: "ok x \<Longrightarrow> dec (enc x @ r) = Some (x, r)"
begin

lemma enc_prefix_free: "ok x \<Longrightarrow> ok y \<Longrightarrow> enc x @ r = enc y @ s \<Longrightarrow> x = y \<and> r = s"
  by (metis dec_enc option.inject prod.inject)

lemma enc_inject: "ok x \<Longrightarrow> ok y \<Longrightarrow> enc x = enc y \<Longrightarrow> x = y"
  using enc_prefix_free [of x y "[]" "[]"] by simp

end

text \<open>Reading \<open>n\<close> values one after the other.\<close>

fun readMany :: "(byte list \<Rightarrow> ('a \<times> byte list) option) \<Rightarrow> nat \<Rightarrow> byte list \<Rightarrow> ('a list \<times> byte list) option" where
  "readMany dec 0 bs = Some ([], bs)"
| "readMany dec (Suc n) bs =
     (case dec bs of None \<Rightarrow> None
      | Some (x, r) \<Rightarrow> (case readMany dec n r of None \<Rightarrow> None | Some (xs, s) \<Rightarrow> Some (x # xs, s)))"

context codec
begin

lemma readMany_enc:
  "(\<And>x. x \<in> set xs \<Longrightarrow> ok x) \<Longrightarrow>
   readMany dec (length xs) (concat (map enc xs) @ r) = Some (xs, r)"
  by (induction xs) (simp_all add: dec_enc)

end

section \<open>Reference readers\<close>

text \<open>The little-endian value of a byte string, and the readers of the wire format.\<close>

fun le_val :: "byte list \<Rightarrow> int" where
  "le_val [] = 0"
| "le_val (b # bs) = uint b + 256 * le_val bs"

definition readLE :: "nat \<Rightarrow> byte list \<Rightarrow> (int \<times> byte list) option" where
  "readLE n bs = (if length bs < n then None else Some (le_val (take n bs), drop n bs))"

fun readVarInt :: "byte list \<Rightarrow> (nat \<times> byte list) option" where
  "readVarInt [] = None"
| "readVarInt (b # bs) =
    (if b < 0xfd then Some (unat b, bs)
     else map_option (\<lambda>(v, r). (nat v, r)) (readLE (if b = 0xfd then 2 else if b = 0xfe then 4 else 8) bs))"

lemma length_writeLE_loop [simp]: "length (writeLE_loop k v) = k"
  by (induction k arbitrary: v) auto

lemma length_writeLE [simp]: "length (writeLE32 n) = 4" "length (writeLE64 n) = 8"
  by (simp_all add: writeLE32_def writeLE64_def Let_def)

lemma le_val_writeLE_loop: "le_val (writeLE_loop k v) = v mod 256 ^ k"
proof (induction k arbitrary: v)
  case (Suc k)
  have "v AND 0xff = v mod 256"
    using take_bit_eq_mask [of 8 v] by (simp add: take_bit_eq_mod mask_eq_exp_minus_1)
  moreover have "v mod 256 + 256 * (v div 256 mod 256 ^ k) = v mod (256 * 256 ^ k)"
    by (metis add.commute mod_mult2_eq mult.commute of_nat_numeral zmod_zmult2_eq zero_le_numeral zero_le_power)
  ultimately show ?case
    using Suc [of "v div 256"] by (simp add: drop_bit_eq_div unsigned_of_int take_bit_eq_mod)
qed simp

lemma le_val_writeLE64: "le_val (writeLE64 n) = n mod 2 ^ 64"
  by (simp add: writeLE64_def le_val_writeLE_loop)

text \<open>The four bytes of an \<open>i32\<close> are the \<open>BigInt\<close> loop on its signed or unsigned reading.\<close>

lemma byte_of_i32:
  assumes "k + 8 \<le> 32"
  shows "toUint8 (js_sar (toInt32 n) k AND 0xff) = word_of_int (drop_bit k n)"
proof (rule bit_word_eqI)
  fix j assume j: "j < LENGTH(8)"
  have "bit (0xff :: i32) j" using j by (simp add: masks_i32 bit_mask_iff)
  with j assms show "bit (toUint8 (js_sar (toInt32 n) k AND 0xff)) j = bit (word_of_int (drop_bit k n) :: byte) j"
    by (simp add: bit_toUint8 bit_and_iff bit_js_sar toInt32_def bit_simps)
qed

lemma mask_int_0xff: "(0xff :: int) = mask 8"
  by (simp add: mask_eq_exp_minus_1)

lemma word_of_int_and_0xff [simp]: "word_of_int (v AND 0xff) = (word_of_int v :: byte)"
  by (rule bit_word_eqI) (simp add: mask_int_0xff bit_simps)

lemma writeLE_loop_24:
  "writeLE_loop 2 v = [word_of_int v, word_of_int (drop_bit 8 v)]"
  "writeLE_loop 4 v = [word_of_int v, word_of_int (drop_bit 8 v), word_of_int (drop_bit 16 v), word_of_int (drop_bit 24 v)]"
proof -
  have *: "(2 :: nat) = Suc (Suc 0)" "(4 :: nat) = Suc (Suc (Suc (Suc 0)))" by simp_all
  show "writeLE_loop 2 v = [word_of_int v, word_of_int (drop_bit 8 v)]"
    "writeLE_loop 4 v = [word_of_int v, word_of_int (drop_bit 8 v), word_of_int (drop_bit 16 v), word_of_int (drop_bit 24 v)]"
    unfolding * by simp_all
qed

lemma writeLE32_loop: "writeLE32 n = writeLE_loop 4 n"
  using byte_of_i32 [of 0 n] byte_of_i32 [of 8 n] byte_of_i32 [of 16 n] byte_of_i32 [of 24 n]
  by (simp add: writeLE32_def Let_def writeLE_loop_24)

lemma le_val_writeLE32: "le_val (writeLE32 n) = n mod 2 ^ 32"
  by (simp add: writeLE32_loop le_val_writeLE_loop)

lemma writeVarInt_loop:
  "writeVarInt n =
    (if n < 0xfd then [of_nat n]
     else if n \<le> 0xffff then 0xfd # writeLE_loop 2 (int n)
     else 0xfe # writeLE_loop 4 (int n))"
  using byte_of_i32 [of 0 "int n"] byte_of_i32 [of 8 "int n"] byte_of_i32 [of 16 "int n"] byte_of_i32 [of 24 "int n"]
  by (simp add: writeVarInt_def Let_def writeLE_loop_24)

lemma readLE_writeLE_loop:
  "0 \<le> v \<Longrightarrow> v < 256 ^ k \<Longrightarrow> readLE k (writeLE_loop k v @ r) = Some (v, r)"
  by (simp add: readLE_def le_val_writeLE_loop)

interpretation le32: codec writeLE32 "readLE 4" "\<lambda>n. 0 \<le> n \<and> n < 2 ^ 32"
  by unfold_locales (simp add: writeLE32_loop readLE_writeLE_loop)

interpretation le64: codec writeLE64 "readLE 8" "\<lambda>n. 0 \<le> n \<and> n < 2 ^ 64"
  by unfold_locales (simp add: writeLE64_def readLE_writeLE_loop)

lemma readVarInt_writeVarInt:
  assumes "n < 2 ^ 32"
  shows "readVarInt (writeVarInt n @ r) = Some (n, r)"
proof (cases "n < 0xfd")
  case True
  then have "unat (of_nat n :: byte) = n" by (simp add: unat_of_nat)
  with True show ?thesis by (simp add: writeVarInt_loop word_less_nat_alt)
next
  case False
  with assms readLE_writeLE_loop [of "int n" 2 r] readLE_writeLE_loop [of "int n" 4 r]
  show ?thesis by (simp add: writeVarInt_loop)
qed

interpretation varint: codec writeVarInt readVarInt "\<lambda>n. n < 2 ^ 32"
  by unfold_locales (rule readVarInt_writeVarInt)

text \<open>A byte string preceded by its length, and the reader for it.\<close>

definition writeVarBytes :: "byte list \<Rightarrow> byte list" where
  "writeVarBytes bs = writeVarInt (length bs) @ bs"

definition readVarBytes :: "byte list \<Rightarrow> (byte list \<times> byte list) option" where
  "readVarBytes bs = (case readVarInt bs of None \<Rightarrow> None
     | Some (n, r) \<Rightarrow> if length r < n then None else Some (take n r, drop n r))"

interpretation varbytes: codec writeVarBytes readVarBytes "\<lambda>bs. length bs < 2 ^ 32"
  by unfold_locales (simp add: writeVarBytes_def readVarBytes_def readVarInt_writeVarInt)

section \<open>Hexadecimal round trips\<close>

lemma less_16_cases:
  "n < 16 \<Longrightarrow> n \<in> {0, 1, 2, 3, 4, 5, 6, 7, 8, 9, 10, 11, 12, 13, 14, 15 :: nat}"
  by (simp, arith)

lemma hexDigit_facts:
  assumes "n < 16"
  shows "hexValue (hexDigit n) = Some n" "\<not> js_space (hexDigit n)"
    "hexDigit n \<noteq> CHR ''-''" "hexDigit n \<noteq> CHR ''+''" "hexDigit n \<noteq> CHR ''x''" "hexDigit n \<noteq> CHR ''X''"
  using less_16_cases [OF assms]
  by (auto simp: hexDigit_def hexValue_def js_space_def)

lemma byteHex_digits: "byteHex b = [hexDigit (unat b div 16), hexDigit (unat b mod 16)]"
proof -
  have "unat b < 256" using unsigned_less [of b] by simp
  then have "unat b div 16 < 16" by (simp add: less_mult_imp_div_less)
  then show ?thesis
    by (simp add: byteHex_def padStart_def toString16.simps [of "unat b"] toString16.simps [of "unat b div 16"] hexDigit_def)
qed

lemma parse_hexDigits:
  assumes "h < 16" and "l < 16"
  shows "parseInt16 [hexDigit h, hexDigit l] = Some (int (16 * h + l))"
  using hexDigit_facts [OF assms(1)] hexDigit_facts [OF assms(2)]
  by (simp add: parseInt16_def)

lemma parse_byteHex: "storeByte (parseInt16 (byteHex b)) = b"
proof -
  have "unat b < 256" using unsigned_less [of b] by simp
  then have "unat b div 16 < 16" by (simp add: less_mult_imp_div_less)
  then have "parseInt16 (byteHex b) = Some (int (16 * (unat b div 16) + unat b mod 16))"
    by (simp add: byteHex_digits parse_hexDigits)
  also have "16 * (unat b div 16) + unat b mod 16 = unat b" by (rule mult_div_mod_eq)
  finally show ?thesis by (simp add: storeByte_def)
qed

lemma length_byteHex: "length (byteHex b) = 2"
  by (simp add: byteHex_digits)

lemma byteHex_two: obtains x y where "byteHex b = [x, y]"
  using byteHex_digits that by blast

lemma fromHex_byteHex: "fromHex (byteHex b @ s) = b # fromHex s"
  using parse_byteHex [of b] by (cases b rule: byteHex_two) auto

lemma fromHex_toHex: "fromHex (toHex bs) = bs"
  by (induction bs) (simp_all add: toHex_def fromHex_byteHex)

lemma length_toHex: "length (toHex bs) = 2 * length bs"
  by (induction bs) (simp_all add: toHex_def length_byteHex)

lemma length_fromHex: "length (fromHex s) = length s div 2"
  by (induction s rule: fromHex.induct) auto

section \<open>UTF-8 is injective\<close>

lemma byte_of_nat_eq: "x < 256 \<Longrightarrow> y < 256 \<Longrightarrow> (of_nat x :: byte) = of_nat y \<longleftrightarrow> x = y"
  by (simp only: word_unat_eq_iff unat_of_nat) simp

lemma utf8_char_nats:
  "utf8_char c = map of_nat (let n = of_char c :: nat in if n < 128 then [n] else [192 + n div 64, 128 + n mod 64])"
  by (simp add: utf8_char_def Let_def)

lemma utf8_nats_inject:
  assumes "map of_nat (if m < 128 then [m] else [192 + m div 64, 128 + m mod 64]) @ s =
      map (of_nat :: nat \<Rightarrow> byte) (if n < 128 then [n] else [192 + n div 64, 128 + n mod 64]) @ t"
    and b: "m < 256" "n < 256"
  shows "m = n \<and> s = t"
proof -
  have l: "192 + m div 64 < 256" "192 + n div 64 < 256" "128 + m mod 64 < 256" "128 + n mod 64 < 256"
    using b by linarith+
  consider "m < 128" "n < 128" | "m < 128" "\<not> n < 128" | "\<not> m < 128" "n < 128" | "\<not> m < 128" "\<not> n < 128" by blast
  then show ?thesis
  proof cases
    case 1
    with assms(1) have "(of_nat m :: byte) = of_nat n" "s = t" by simp_all
    then show ?thesis unfolding byte_of_nat_eq [OF b] by simp
  next
    case 2
    with assms(1) have "(of_nat m :: byte) = of_nat (192 + n div 64)" by simp
    then show ?thesis unfolding byte_of_nat_eq [OF b(1) l(2)] using 2 by linarith
  next
    case 3
    with assms(1) have "(of_nat (192 + m div 64) :: byte) = of_nat n" by simp
    then show ?thesis unfolding byte_of_nat_eq [OF l(1) b(2)] using 3 by linarith
  next
    case 4
    with assms(1) have "(of_nat (192 + m div 64) :: byte) = of_nat (192 + n div 64)"
      "(of_nat (128 + m mod 64) :: byte) = of_nat (128 + n mod 64)" "s = t" by simp_all
    then have "m div 64 = n div 64" "m mod 64 = n mod 64" unfolding byte_of_nat_eq [OF l(1,2)] byte_of_nat_eq [OF l(3,4)] by linarith+
    then show ?thesis using \<open>s = t\<close> by (metis mult_div_mod_eq)
  qed
qed

lemma utf8_char_inject: "utf8_char c @ s = utf8_char d @ t \<Longrightarrow> c = d \<and> s = t"
  using utf8_nats_inject [of "of_char c" s "of_char d" t] unfolding utf8_char_nats Let_def by simp

lemma utf8_inject: "utf8 s = utf8 t \<Longrightarrow> s = t"
proof (induction s arbitrary: t)
  case Nil
  then show ?case by (cases t) (auto simp: utf8_def utf8_char_def Let_def split: if_splits)
next
  case (Cons c s)
  then obtain d t' where t: "t = d # t'" by (cases t) (auto simp: utf8_def utf8_char_def Let_def split: if_splits)
  with Cons.prems have "utf8_char c @ utf8 s = utf8_char d @ utf8 t'" by (simp add: utf8_def)
  from utf8_char_inject [OF this] Cons.IH t show ?case by blast
qed

end
