(* ===== verification/Bech32.thy ===== *)
theory Bech32
  imports Bytes
begin

text \<open>
  Addresses: the Bech32 and Bech32m encoders, the regrouping of bits and the address
  reader of \<^verbatim>\<open>src/mobile/utils/wallet-crypto.ts\<close>, and the variants of the reader in
  \<^verbatim>\<open>src/extension/src/crypto/wallet.ts\<close>. The checksum is treated through the contract
  \<open>xor_linear\<close>; the regrouping through the bit strings it carries.
\<close>

section \<open>Definitions\<close>

definition CHARSET :: string where
  "CHARSET = ''qpzry9x8gf2tvdw0s3jn54khce6mua7l''"

definition GEN :: "i32 list" where
  "GEN = [0x3b6a57b2, 0x26508e6d, 0x1ea119fa, 0x3d4233dd, 0x2a1462b3]"

definition polymod_step :: "i32 \<Rightarrow> i32 \<Rightarrow> i32" where
  "polymod_step chk v =
    (let top = js_sar chk 25
     in foldl (\<lambda>c i. if js_sar top i AND 1 \<noteq> 0 then c XOR (GEN ! i) else c)
          (js_shl (chk AND 0x1ffffff) 5 XOR v) [0..<5])"

definition polymod :: "i32 list \<Rightarrow> i32" where
  "polymod values = foldl polymod_step 1 values"

definition hrpExpand :: "string \<Rightarrow> i32 list" where
  "hrpExpand hrp =
     map (\<lambda>c. js_sar (of_char c) 5) hrp @ [0] @ map (\<lambda>c. of_char c AND 31) hrp"

text \<open>\<open>result += CHARSET[d]\<close>: an index outside the string reads \<open>undefined\<close>.\<close>

definition charAt :: "i32 \<Rightarrow> string" where
  "charAt d = (if unat d < length CHARSET then [CHARSET ! unat d] else ''undefined'')"

definition bech32Encode :: "string \<Rightarrow> i32 list \<Rightarrow> string" where
  "bech32Encode hrp data =
    (let checkValues = hrpExpand hrp @ data @ [0, 0, 0, 0, 0, 0];
         pm = polymod checkValues XOR 1;
         combined = data @ map (\<lambda>i. js_sar pm (5 * (5 - i)) AND 31) [0..<6]
     in hrp @ ''1'' @ concat (map charAt combined))"

definition bech32mEncode :: "string \<Rightarrow> i32 list \<Rightarrow> string" where
  "bech32mEncode hrp data =
    (let checkValues = hrpExpand hrp @ data @ [0, 0, 0, 0, 0, 0];
         pm = polymod checkValues XOR 0x2bc830a3;
         combined = data @ map (\<lambda>i. js_sar pm (5 * (5 - i)) AND 31) [0..<6]
     in hrp @ ''1'' @ concat (map charAt combined))"

text \<open>\<open>convertBits\<close>: the inner \<open>while\<close> is \<open>drainBits\<close>, the \<open>for\<close> over the data is
  \<open>convertLoop\<close>. The group size \<open>to\<close> is 5 or 8 in every call of the program; the inner
  loop of the source would not end for \<open>to = 0\<close>, where \<open>drainBits\<close> stops.\<close>

fun drainBits :: "nat \<Rightarrow> i32 \<Rightarrow> nat \<Rightarrow> i32 list \<times> nat" where
  "drainBits to acc bits =
    (if to = 0 \<or> bits < to then ([], bits)
     else let (out, rest) = drainBits to acc (bits - to)
          in ((js_sar acc (bits - to) AND (js_shl 1 to - 1)) # out, rest))"

declare drainBits.simps [simp del]

fun convertLoop :: "nat \<Rightarrow> nat \<Rightarrow> i32 \<Rightarrow> nat \<Rightarrow> byte list \<Rightarrow> i32 list \<times> i32 \<times> nat" where
  "convertLoop from to acc bits [] = ([], acc, bits)"
| "convertLoop from to acc bits (v # data) =
    (let acc1 = js_shl acc from OR ucast v;
         (out1, bits1) = drainBits to acc1 (bits + from);
         (out2, acc2, bits2) = convertLoop from to acc1 bits1 data
     in (out1 @ out2, acc2, bits2))"

definition convertBits :: "byte list \<Rightarrow> nat \<Rightarrow> nat \<Rightarrow> bool \<Rightarrow> i32 list" where
  "convertBits data from to pad =
    (let (out, acc, bits) = convertLoop from to 0 0 data
     in if pad \<and> bits > 0 then out @ [js_shl acc (to - bits) AND (js_shl 1 to - 1)] else out)"

definition lastIndexOf :: "string \<Rightarrow> char \<Rightarrow> int" where
  "lastIndexOf s c =
    (if c \<in> set s then int (length s) - 1 - int (length (takeWhile (\<lambda>x. x \<noteq> c) (rev s))) else - 1)"

definition indexOf :: "string \<Rightarrow> char \<Rightarrow> int" where
  "indexOf s c = (if c \<in> set s then int (length (takeWhile (\<lambda>x. x \<noteq> c) s)) else - 1)"

definition slice :: "nat \<Rightarrow> nat \<Rightarrow> 'a list \<Rightarrow> 'a list" where
  "slice a b s = take (b - a) (drop a s)"

text \<open>The characters read by \<open>for (let i = sep + 1; i < address.length - 6; i++)\<close>.\<close>

definition dataPart :: "string \<Rightarrow> string" where
  "dataPart address = slice (nat (lastIndexOf address CHR ''1'' + 1)) (length address - 6) address"

definition charsetPos :: "char \<Rightarrow> int result" where
  "charsetPos c =
    (let pos = indexOf CHARSET c
     in if pos < 0 then Inl (Error ''Invalid bech32 char'') else Inr pos)"

record witness_addr =
  wa_version :: "int option"   \<comment> \<open>\<open>data[0]\<close>, undefined for empty data\<close>
  wa_program :: "byte list"

definition addressToWitnessVersionAndProgram :: "string \<Rightarrow> witness_addr result" where
  "addressToWitnessVersionAndProgram address =
    rbind (rmap charsetPos (dataPart address)) (\<lambda>data.
      let prog = convertBits (map word_of_int (tl data)) 5 8 False
      in Inr \<lparr>wa_version = (if data = [] then None else Some (hd data)), wa_program = map toUint8 prog\<rparr>)"

text \<open>\<open>version === 0 ? 0x00 : 0x50 + version\<close>, stored into a byte; \<open>0x50 + undefined\<close> is \<open>NaN\<close>.\<close>

definition versionByte :: "int option \<Rightarrow> byte" where
  "versionByte v = (if v = Some 0 then 0 else storeByte (map_option (\<lambda>n. 0x50 + n) v))"

definition addressToScript :: "string \<Rightarrow> byte list result" where
  "addressToScript address =
    rbind (addressToWitnessVersionAndProgram address) (\<lambda>w.
      Inr ([versionByte (wa_version w), of_nat (length (wa_program w))] @ wa_program w))"

text \<open>The extension's reader ignores the witness version.\<close>

definition ext_addressToWitnessProgram :: "string \<Rightarrow> byte list result" where
  "ext_addressToWitnessProgram address =
    rbind (rmap charsetPos (dataPart address)) (\<lambda>data.
      Inr (map toUint8 (convertBits (map word_of_int (tl data)) 5 8 False)))"

definition ext_addressToScript :: "string \<Rightarrow> byte list result" where
  "ext_addressToScript address =
    rbind (ext_addressToWitnessProgram address) (\<lambda>prog.
      Inr ([0, of_nat (length prog)] @ prog))"

section \<open>Regrouping bits\<close>

lemma mask_js: "to < 32 \<Longrightarrow> js_shl 1 to - 1 = (mask to :: i32)"
  by (simp add: js_shl_def mask_eq_exp_minus_1)

lemma bits_of_group:
  assumes "k + to \<le> 32" "to < 32"
  shows "bits_of to (js_sar acc k AND (js_shl 1 to - 1)) = map (bit acc) (rev [k..<k + to])"
proof (rule nth_equalityI)
  fix i assume "i < length (bits_of to (js_sar acc k AND (js_shl 1 to - 1)))"
  then have i: "i < to" by simp
  have "rev [k..<k + to] ! i = k + (to - Suc i)"
    using i by (subst rev_nth) simp_all
  then show "bits_of to (js_sar acc k AND (js_shl 1 to - 1)) ! i = map (bit acc) (rev [k..<k + to]) ! i"
    using i assms by (auto simp: nth_bits_of mask_js bit_and_iff bit_mask_iff bit_js_sar)
qed simp

lemma drainBits_step:
  assumes "\<not> bits < to" "0 < to" "drainBits to acc bits = (out, rest)"
  shows "\<exists>o1. drainBits to acc (bits - to) = (o1, rest) \<and>
    out = (js_sar acc (bits - to) AND (js_shl 1 to - 1)) # o1"
  using assms by (subst (asm) drainBits.simps) (auto split: prod.splits)

lemma drainBits_bits:
  assumes "0 < to" "to < 32"
  shows "bits \<le> 32 \<Longrightarrow> drainBits to acc bits = (out, rest) \<Longrightarrow>
    rest < to \<and> bits_of bits acc = concat (map (bits_of to) out) @ bits_of rest acc"
proof (induction bits arbitrary: out rest rule: less_induct)
  case (less bits)
  show ?case
  proof (cases "bits < to")
    case True
    with less.prems show ?thesis by (simp add: drainBits.simps)
  next
    case False
    then obtain o1 where
      d: "drainBits to acc (bits - to) = (o1, rest)" and
      o: "out = (js_sar acc (bits - to) AND (js_shl 1 to - 1)) # o1"
      using drainBits_step [OF False assms(1) less.prems(2)] by blast
    have "bits_of bits acc = map (bit acc) (rev [bits - to..<bits - to + to]) @ bits_of (bits - to) acc"
      using bits_of_add [of to "bits - to" acc] False by simp
    with False less.prems assms d o less.IH [of "bits - to" o1 rest]
    show ?thesis by (simp add: bits_of_group)
  qed
qed

lemma bits_of_shift_in:
  fixes v :: byte
  assumes "bits + from \<le> 32" "from < 32" "unat v < 2 ^ from"
  shows "bits_of (bits + from) (js_shl acc from OR ucast v) = bits_of bits acc @ bits_of from v"
proof (rule nth_equalityI)
  have high: "\<not> bit v k" if "from \<le> k" for k
    using that assms(3) by (rule not_bit_high [rotated])
  fix i assume "i < length (bits_of (bits + from) (js_shl acc from OR ucast v))"
  then show "bits_of (bits + from) (js_shl acc from OR ucast v) ! i = (bits_of bits acc @ bits_of from v) ! i"
    using assms high
    by (auto simp: nth_bits_of nth_append bit_or_iff bit_js_shl bit_simps add.commute [of bits])
qed simp

lemma convertLoop_bits:
  assumes "0 < to" "from + to \<le> 32" "0 < from"
  shows "bits < to \<Longrightarrow> (\<And>v. v \<in> set data \<Longrightarrow> unat v < 2 ^ from) \<Longrightarrow>
    convertLoop from to acc bits data = (out, acc', bits') \<Longrightarrow>
    bits' < to \<and> bits_of bits acc @ concat (map (bits_of from) data) = concat (map (bits_of to) out) @ bits_of bits' acc'"
proof (induction data arbitrary: acc bits out)
  case Nil
  then show ?case by simp
next
  case (Cons v data)
  let ?acc1 = "js_shl acc from OR ucast v"
  obtain o1 b1 where d: "drainBits to ?acc1 (bits + from) = (o1, b1)" by fastforce
  obtain o2 where l: "convertLoop from to ?acc1 b1 data = (o2, acc', bits')" and o: "out = o1 @ o2"
    using Cons.prems(3) d by (auto simp: Let_def split: prod.splits)
  have sh: "bits_of (bits + from) ?acc1 = bits_of bits acc @ bits_of from v"
    using Cons.prems(1,2) assms by (intro bits_of_shift_in) auto
  have dr: "b1 < to" "bits_of (bits + from) ?acc1 = concat (map (bits_of to) o1) @ bits_of b1 ?acc1"
    using drainBits_bits [OF _ _ _ d] Cons.prems(1) assms by auto
  have "bits' < to \<and> bits_of b1 ?acc1 @ concat (map (bits_of from) data) = concat (map (bits_of to) o2) @ bits_of bits' acc'"
    using Cons.IH [OF dr(1) _ l] Cons.prems(2) by simp
  then have "bits' < to" and "(bits_of bits acc @ bits_of from v) @ concat (map (bits_of from) data)
      = concat (map (bits_of to) o1) @ concat (map (bits_of to) o2) @ bits_of bits' acc'"
    unfolding sh [symmetric] dr(2) by simp_all
  then show ?case by (simp add: o)
qed

lemma bits_of_pad:
  assumes "0 < bits" "bits < to" "to < 32"
  shows "bits_of to (js_shl acc (to - bits) AND (js_shl 1 to - 1)) = bits_of bits acc @ replicate (to - bits) False"
proof (rule nth_equalityI)
  fix i assume "i < length (bits_of to (js_shl acc (to - bits) AND (js_shl 1 to - 1)))"
  then show "bits_of to (js_shl acc (to - bits) AND (js_shl 1 to - 1)) ! i = (bits_of bits acc @ replicate (to - bits) False) ! i"
    using assms by (auto simp: nth_bits_of nth_append mask_js bit_and_iff bit_mask_iff bit_js_shl)
qed (use assms in simp)

lemma convertBits_pad:
  assumes "0 < to" "from + to \<le> 32" "0 < from" "\<And>v. v \<in> set data \<Longrightarrow> unat v < 2 ^ from"
  obtains n where "n < to"
    "concat (map (bits_of to) (convertBits data from to True)) = concat (map (bits_of from) data) @ replicate n False"
proof -
  obtain out acc bits where l: "convertLoop from to 0 0 data = (out, acc, bits)" by (metis prod_cases3)
  have *: "bits < to" "concat (map (bits_of from) data) = concat (map (bits_of to) out) @ bits_of bits acc"
    using convertLoop_bits [OF assms(1-3) assms(1) _ l] assms(4) by auto
  show ?thesis
  proof (cases "bits = 0")
    case True
    with * l that [of 0] assms(1) show ?thesis by (simp add: convertBits_def)
  next
    case False
    with * l that [of "to - bits"] assms show ?thesis
      by (simp add: convertBits_def bits_of_pad)
  qed
qed

lemma convertBits_nopad:
  assumes "0 < to" "from + to \<le> 32" "0 < from" "\<And>v. v \<in> set data \<Longrightarrow> unat v < 2 ^ from"
  obtains rest where "length rest < to"
    "concat (map (bits_of from) data) = concat (map (bits_of to) (convertBits data from to False)) @ rest"
proof -
  obtain out acc bits where l: "convertLoop from to 0 0 data = (out, acc, bits)" by (metis prod_cases3)
  have "bits < to" "concat (map (bits_of from) data) = concat (map (bits_of to) out) @ bits_of bits acc"
    using convertLoop_bits [OF assms(1-3) assms(1) _ l] assms(4) by auto
  with l that [of "bits_of bits acc"] show ?thesis by (simp add: convertBits_def)
qed

lemma concat_bits_inject:
  fixes xs :: "'a::len word list" and ys :: "'b::len word list"
  assumes "concat (map (bits_of n) xs) @ r = concat (map (bits_of n) ys) @ s" "length r < n" "length s < n"
  shows "map (bits_of n) xs = map (bits_of n) ys"
proof -
  have "map (bits_of n) xs = chunks n (concat (map (bits_of n) xs) @ r)"
    using assms(2) by (intro chunks_concat [symmetric]) auto
  also have "\<dots> = map (bits_of n) ys"
    unfolding assms(1) using assms(3) by (intro chunks_concat) auto
  finally show ?thesis .
qed

lemma bits_of_8_toUint8: "bits_of 8 (toUint8 w) = bits_of 8 w"
  by (rule bits_of_cong) (simp add: bit_toUint8)

lemma map_bits_of_8: "map (bits_of 8) xs = map (bits_of 8) ys \<Longrightarrow> map toUint8 xs = (ys :: byte list)"
proof (induction xs arbitrary: ys)
  case (Cons x xs)
  then obtain y ys' where ys: "ys = y # ys'" and x: "bits_of 8 x = bits_of 8 y" and "map toUint8 xs = ys'"
    by (cases ys) auto
  moreover have "toUint8 x = y"
    using x bits_of_inject [of 8 "toUint8 x" y] by (simp add: bits_of_8_toUint8)
  ultimately show ?case by simp
qed simp

text \<open>Every group \<open>convertBits\<close> produces has at most \<open>to\<close> bits.\<close>

lemma mask_bound: "to < 32 \<Longrightarrow> unat (w AND (js_shl 1 to - 1) :: i32) < 2 ^ to"
proof -
  assume "to < 32"
  then have "w AND (js_shl 1 to - 1) = take_bit to w" by (simp add: mask_js take_bit_eq_mask)
  then show ?thesis by (simp add: unsigned_take_bit_eq)
qed

lemma drainBits_bound:
  assumes "0 < to" "to < 32"
  shows "drainBits to acc bits = (out, rest) \<Longrightarrow> w \<in> set out \<Longrightarrow> unat w < 2 ^ to"
proof (induction bits arbitrary: out rest rule: less_induct)
  case (less bits)
  show ?case
  proof (cases "bits < to")
    case True
    with less.prems show ?thesis by (simp add: drainBits.simps)
  next
    case False
    then obtain o1 where "drainBits to acc (bits - to) = (o1, rest)"
        "out = (js_sar acc (bits - to) AND (js_shl 1 to - 1)) # o1"
      using drainBits_step [OF False assms(1) less.prems(1)] by blast
    with False assms less.IH [of "bits - to" o1 rest] less.prems(2) show ?thesis
      by (auto intro: mask_bound)
  qed
qed

lemma convertLoop_bound:
  assumes "0 < to" "to < 32"
  shows "convertLoop from to acc bits data = (out, acc', bits') \<Longrightarrow> w \<in> set out \<Longrightarrow> unat w < 2 ^ to"
proof (induction data arbitrary: acc bits out)
  case (Cons v data)
  then obtain o1 b1 o2 where "drainBits to (js_shl acc from OR ucast v) (bits + from) = (o1, b1)"
      "convertLoop from to (js_shl acc from OR ucast v) b1 data = (o2, acc', bits')" "out = o1 @ o2"
    by (auto simp: Let_def split: prod.splits)
  with Cons show ?case using drainBits_bound [OF assms] by auto
qed simp

lemma convertBits_bound:
  assumes "0 < to" "to < 32" "w \<in> set (convertBits data from to pad)"
  shows "unat w < 2 ^ to"
proof -
  obtain out acc bits where l: "convertLoop from to 0 0 data = (out, acc, bits)" by (metis prod_cases3)
  with assms convertLoop_bound [OF assms(1,2) l] show ?thesis
    by (auto simp: convertBits_def intro: mask_bound split: if_splits)
qed

text \<open>Regrouping into fives with padding and back into eights is the identity.\<close>

lemma convertBits_roundtrip:
  "map toUint8 (convertBits (map toUint8 (convertBits data 8 5 True)) 5 8 False) = data"
proof -
  let ?ws = "convertBits data 8 5 True"
  have b8: "unat v < 2 ^ 8" for v :: byte using unsigned_less [of v] by simp
  have b5: "unat v < 2 ^ 5" if "v \<in> set (map toUint8 ?ws)" for v
  proof -
    from that obtain w where w: "w \<in> set ?ws" "v = toUint8 w" by auto
    then have "unat w < 2 ^ 5" by (intro convertBits_bound) auto
    moreover have "unat v \<le> unat w" using w by (simp add: toUint8_def unsigned_ucast_eq)
    ultimately show ?thesis by simp
  qed
  have same: "map (bits_of 5) (map toUint8 ?ws) = map (bits_of 5) ?ws"
    by (auto intro!: bits_of_cong simp: bit_toUint8)
  obtain n where n: "n < 5" "concat (map (bits_of 5) ?ws) = concat (map (bits_of 8) data) @ replicate n False"
    using convertBits_pad [of 5 8 data] b8 by auto
  obtain r where r: "length r < 8"
      "concat (map (bits_of 5) (map toUint8 ?ws)) = concat (map (bits_of 8) (convertBits (map toUint8 ?ws) 5 8 False)) @ r"
    using convertBits_nopad [of 8 5 "map toUint8 ?ws"] b5 by auto
  have "concat (map (bits_of 8) (convertBits (map toUint8 ?ws) 5 8 False)) @ r = concat (map (bits_of 8) data) @ replicate n False"
    by (rule trans [OF sym [OF r(2) [unfolded same]] n(2)])
  then have "map (bits_of 8) (convertBits (map toUint8 ?ws) 5 8 False) = map (bits_of 8) data"
    by (rule concat_bits_inject) (use n(1) r(1) in simp_all)
  then show ?thesis by (rule map_bits_of_8)
qed

section \<open>The checksum\<close>

text \<open>Maps on words that respect exclusive or. Such a map sends 0 to 0 and a sum of terms to
  the sum of their images.\<close>

locale xor_linear =
  fixes L :: "'a::len word \<Rightarrow> 'a word"
  assumes L_xor: "L (a XOR b) = L a XOR L b"
begin

lemma L_zero: "L 0 = 0"
  using L_xor [of 0 0] by simp

lemma funpow_xor: "(L ^^ n) (a XOR b) = (L ^^ n) a XOR (L ^^ n) b"
  by (induction n) (simp_all add: L_xor)

lemma funpow_zero: "(L ^^ n) 0 = 0"
  by (induction n) (simp_all add: L_zero)

text \<open>A feedback register \<open>c \<mapsto> L c XOR v\<close> fed with a sequence of inputs.\<close>

lemma feed_xor:
  "foldl (\<lambda>c v. L c XOR v) (a XOR b) vs = (L ^^ length vs) a XOR foldl (\<lambda>c v. L c XOR v) b vs"
proof (induction vs arbitrary: a b)
  case (Cons v vs)
  have "L (a XOR b) XOR v = L a XOR (L b XOR v)" by (simp add: L_xor ac_simps)
  then show ?case using Cons [of "L a" "L b XOR v"] by (simp add: funpow_swap1)
qed simp

lemma feed_split:
  "foldl (\<lambda>c v. L c XOR v) a vs = (L ^^ length vs) a XOR foldl (\<lambda>c v. L c XOR v) 0 vs"
  using feed_xor [of a 0 vs] by simp

lemma feed_zeros: "foldl (\<lambda>c v. L c XOR v) a (replicate n 0) = (L ^^ n) a"
  by (induction n arbitrary: a) (simp_all add: funpow_swap1)

end

definition polymod_shift :: "i32 \<Rightarrow> i32" where
  "polymod_shift c = polymod_step c 0"

definition feedback :: "i32 \<Rightarrow> nat \<Rightarrow> i32" where
  "feedback c i = (if bit c (25 + i) then GEN ! i else 0)"

lemma top_bit: "i < 5 \<Longrightarrow> js_sar (js_sar c 25) i AND 1 \<noteq> 0 \<longleftrightarrow> bit c (25 + i)"
proof -
  assume i: "i < 5"
  have "js_sar (js_sar c 25) i AND 1 \<noteq> 0 \<longleftrightarrow> bit (js_sar (js_sar c 25) i) 0"
    by (auto simp: and_one_eq bit_0 odd_iff_mod_2_eq_one)
  also have "\<dots> \<longleftrightarrow> bit c (25 + i)" using i by (simp add: bit_js_sar)
  finally show ?thesis .
qed

lemma polymod_step_eq:
  "polymod_step c v = js_shl (c AND 0x1ffffff) 5 XOR
     (feedback c 0 XOR feedback c 1 XOR feedback c 2 XOR feedback c 3 XOR feedback c 4) XOR v"
proof -
  have f: "foldl (\<lambda>c' i. if js_sar (js_sar c 25) i AND 1 \<noteq> 0 then c' XOR (GEN ! i) else c') x is
      = foldl (\<lambda>c' i. c' XOR feedback c i) x is" if "\<forall>i \<in> set is. i < 5" for x "is"
    using that by (induction "is" arbitrary: x) (auto simp: top_bit feedback_def)
  have "polymod_step c v = foldl (\<lambda>c' i. c' XOR feedback c i) (js_shl (c AND 0x1ffffff) 5 XOR v) [0..<5]"
    unfolding polymod_step_def Let_def by (rule f) simp
  also have "[0..<5] = [0, 1, 2, 3, 4 :: nat]" by (simp add: upt_rec)
  finally show ?thesis by (simp only: foldl_Cons foldl_Nil xor.assoc xor.commute xor.left_commute)
qed

lemma feedback_xor: "feedback (a XOR b) i = feedback a i XOR feedback b i"
  by (simp add: feedback_def bit_xor_iff)

lemma shl_mask_xor: "js_shl ((a XOR b) AND m) n = js_shl (a AND m) n XOR js_shl (b AND m) n"
  by (rule bit_word_eqI) (auto simp: js_shl_def bit_simps)

lemma polymod_shift_eq:
  "polymod_shift c = js_shl (c AND 0x1ffffff) 5 XOR
     (feedback c 0 XOR feedback c 1 XOR feedback c 2 XOR feedback c 3 XOR feedback c 4)"
  by (simp only: polymod_shift_def polymod_step_eq xor.right_neutral)

interpretation bch: xor_linear polymod_shift
  by unfold_locales (simp only: polymod_shift_eq shl_mask_xor feedback_xor xor.assoc xor.commute xor.left_commute)

lemma polymod_step_shift: "polymod_step c v = polymod_shift c XOR v"
  by (simp only: polymod_shift_eq polymod_step_eq xor.assoc)

lemma polymod_step_fun: "polymod_step = (\<lambda>c v. polymod_shift c XOR v)"
  by (intro ext) (rule polymod_step_shift)

lemma polymod_feed: "polymod (xs @ ys) = (polymod_shift ^^ length ys) (polymod xs) XOR foldl polymod_step 0 ys"
  unfolding polymod_def polymod_step_fun foldl_append by (rule bch.feed_split)

lemma polymod_shift_small:
  assumes "unat c < 2 ^ 25"
  shows "polymod_shift c = js_shl c 5"
proof -
  have "\<not> bit c (25 + i)" for i using assms by (rule not_bit_high) simp
  then have "feedback c i = 0" for i by (simp add: feedback_def)
  moreover have "c AND 0x1ffffff = c"
  proof (rule bit_word_eqI)
    fix k assume "k < LENGTH(32)"
    show "bit (c AND 0x1ffffff) k = bit c k"
      using not_bit_high [OF assms, of k] by (cases "25 \<le> k") (auto simp: masks_i32 bit_and_iff bit_mask_iff)
  qed
  ultimately show ?thesis by (simp add: polymod_shift_eq)
qed

lemma js_shl_shl: "m + n < 32 \<Longrightarrow> js_shl (js_shl a m) n = js_shl a (m + n)"
  by (simp add: js_shl_def push_bit_push_bit add.commute)

lemma unat_js_shl:
  assumes "unat a < 2 ^ k" "n < 32"
  shows "unat (js_shl a n) < 2 ^ (k + n)"
proof -
  have "unat (js_shl a n) = take_bit 32 (push_bit n (unat a))"
    using assms(2) by (simp add: js_shl_def unsigned_push_bit_eq)
  also have "\<dots> \<le> push_bit n (unat a)" by (rule take_bit_nat_less_eq_self)
  also have "\<dots> = unat a * 2 ^ n" by (rule push_bit_eq_mult)
  also have "\<dots> < 2 ^ (k + n)" using assms(1) by (simp add: power_add)
  finally show ?thesis .
qed

text \<open>A five-bit word that enters the register moves up five places at each further step.\<close>

lemma polymod_shift_pow:
  assumes "unat c < 2 ^ 5" "n \<le> 5"
  shows "(polymod_shift ^^ n) c = js_shl c (5 * n) \<and> unat (js_shl c (5 * n)) < 2 ^ (5 * Suc n)"
  using assms(2)
proof (induction n)
  case 0
  then show ?case using assms(1) by (simp add: js_shl_def)
next
  case (Suc n)
  then have IH: "(polymod_shift ^^ n) c = js_shl c (5 * n)" "unat (js_shl c (5 * n)) < 2 ^ (5 * Suc n)"
    by simp_all
  have "(2::nat) ^ (5 * Suc n) \<le> 2 ^ 25" using Suc.prems by (intro power_increasing) simp_all
  with IH have "polymod_shift (js_shl c (5 * n)) = js_shl (js_shl c (5 * n)) 5"
    by (intro polymod_shift_small) linarith
  with IH Suc.prems unat_js_shl [OF assms(1), of "5 * Suc n"] show ?case
    by (simp add: js_shl_shl add.commute)
qed

lemma feed_Cons: "foldl polymod_step 0 (v # vs) = (polymod_shift ^^ length vs) v XOR foldl polymod_step 0 vs"
  unfolding polymod_step_fun using bch.feed_split [of v vs] by (simp add: bch.L_zero)

lemma bit_group_shifted:
  assumes "j \<le> 25" "k < 32"
  shows "bit (js_shl (js_sar pm j AND 31) j) k \<longleftrightarrow> j \<le> k \<and> k < j + 5 \<and> bit pm k"
  using assms by (auto simp: bit_js_shl bit_and_iff masks_i32 bit_mask_iff bit_js_sar)

lemma bit_low_group: "bit (pm AND 31 :: i32) k \<longleftrightarrow> k < 5 \<and> bit pm k"
  by (auto simp: bit_and_iff masks_i32 bit_mask_iff)

lemma bit_high_30:
  assumes "unat pm < 2 ^ 30" "bit pm k" shows "k < 30"
  using assms not_bit_high not_le by blast

lemma regroup_pm:
  assumes "unat pm < 2 ^ 30"
  shows "js_shl (js_sar pm 25 AND 31) 25 XOR js_shl (js_sar pm 20 AND 31) 20 XOR js_shl (js_sar pm 15 AND 31) 15
    XOR js_shl (js_sar pm 10 AND 31) 10 XOR js_shl (js_sar pm 5 AND 31) 5 XOR (pm AND 31) = pm"
    (is "?x = pm")
proof (rule bit_word_eqI)
  fix k assume k: "k < LENGTH(32)"
  consider "k < 5" | "5 \<le> k" "k < 10" | "10 \<le> k" "k < 15" | "15 \<le> k" "k < 20" | "20 \<le> k" "k < 25"
    | "25 \<le> k" "k < 30" | "30 \<le> k" by linarith
  then show "bit ?x k = bit pm k"
    by cases (use k bit_high_30 [OF assms, of k] in \<open>auto simp: bit_xor_iff bit_group_shifted bit_low_group\<close>)
qed

lemma group_bound: "unat (w AND 31 :: i32) < 2 ^ 5"
  using mask_bound [of 5 w] by (simp add: js_shl_def)

lemma polymod_checksum:
  assumes "unat pm < 2 ^ 30"
  shows "foldl polymod_step 0 (map (\<lambda>i. js_sar pm (5 * (5 - i)) AND 31) [0..<6]) = pm"
proof -
  have l: "[0..<6] = [0, 1, 2, 3, 4, 5 :: nat]" by (simp add: upt_rec)
  have p: "(polymod_shift ^^ n) (w AND 31) = js_shl (w AND 31) (5 * n)" if "n \<le> 5" for w n
    using polymod_shift_pow [OF group_bound that] by simp
  show ?thesis
    unfolding l using regroup_pm [OF assms] p by (simp add: feed_Cons del: foldl_Cons funpow.simps)
qed

lemma polymod_shift_bound: "unat (polymod_shift c) < 2 ^ 30"
proof -
  have "\<not> bit (feedback c i) k" if "30 \<le> k" "i \<in> {0, 1, 2, 3, 4}" for i k
  proof -
    have "unat (feedback c i) < 2 ^ 30" using that(2) by (auto simp: feedback_def GEN_def)
    then show ?thesis using that(1) by (rule not_bit_high)
  qed
  then show ?thesis
    by (intro unat_bound_bits)
      (auto simp: polymod_shift_eq bit_xor_iff bit_js_shl bit_and_iff masks_i32 bit_mask_iff)
qed

text \<open>The six words computed for the constant \<open>const\<close> make the whole string check to it.\<close>

lemma checksum_verifies:
  assumes "unat const < 2 ^ 30"
  shows "polymod (xs @ map (\<lambda>i. js_sar (polymod (xs @ [0, 0, 0, 0, 0, 0]) XOR const) (5 * (5 - i)) AND 31) [0..<6]) = const"
proof -
  let ?pm0 = "polymod (xs @ [0, 0, 0, 0, 0, 0])"
  have z: "[0, 0, 0, 0, 0, 0] = replicate 6 (0 :: i32)" by (simp add: numeral_eq_Suc)
  have pm0: "?pm0 = (polymod_shift ^^ 6) (polymod xs)"
    using polymod_feed [of xs "replicate 6 0"] bch.feed_zeros [of 0 6]
    unfolding z by (simp add: polymod_step_fun bch.funpow_zero del: funpow.simps)
  also have "\<dots> = polymod_shift ((polymod_shift ^^ 5) (polymod xs))"
    using funpow_add [of 1 5 polymod_shift] by simp
  finally have "unat ?pm0 < 2 ^ 30" by (metis polymod_shift_bound)
  then have "unat (?pm0 XOR const) < 2 ^ 30" using assms by (rule unat_xor_bound)
  then show ?thesis using pm0 by (simp only: polymod_feed polymod_checksum length_map length_upt diff_zero) simp
qed

section \<open>Addresses\<close>

text \<open>Reference reader: the part before the last \<open>1\<close>, the words of the part after it, and the
  check of the whole against the constant of Bech32 (1) or Bech32m.\<close>

definition addressWords :: "string \<Rightarrow> i32 list" where
  "addressWords s = map (\<lambda>c. word_of_int (indexOf CHARSET c)) (drop (nat (lastIndexOf s CHR ''1'' + 1)) s)"

definition bech32Verify :: "i32 \<Rightarrow> string \<Rightarrow> bool" where
  "bech32Verify const s \<longleftrightarrow>
     0 \<le> lastIndexOf s CHR ''1'' \<and>
     list_all (\<lambda>c. 0 \<le> indexOf CHARSET c) (drop (nat (lastIndexOf s CHR ''1'' + 1)) s) \<and>
     polymod (hrpExpand (take (nat (lastIndexOf s CHR ''1'')) s) @ addressWords s) = const"

lemma CHARSET_facts: "length CHARSET = 32" "distinct CHARSET" "CHR ''1'' \<notin> set CHARSET"
  by (simp_all add: CHARSET_def)

lemma indexOf_CHARSET: "d < 32 \<Longrightarrow> indexOf CHARSET (CHARSET ! d) = int d"
  using CHARSET_facts by (simp add: indexOf_def length_takeWhile_nth)

lemma charAt_word: "unat d < 32 \<Longrightarrow> charAt d = [CHARSET ! unat d]"
  by (simp add: charAt_def CHARSET_facts)

lemma concat_charAt:
  "\<forall>d \<in> set ds. unat d < 32 \<Longrightarrow> concat (map charAt ds) = map (\<lambda>d. CHARSET ! unat d) ds"
  by (induction ds) (simp_all add: charAt_word)

lemma lastIndexOf_sep:
  assumes "c \<notin> set t"
  shows "lastIndexOf (h @ [c] @ t) c = int (length h)"
proof -
  have "takeWhile (\<lambda>x. x \<noteq> c) (rev (h @ [c] @ t)) = rev t"
    using assms by (simp add: takeWhile_append)
  then show ?thesis by (simp add: lastIndexOf_def)
qed

lemma charset_no_sep:
  assumes "\<forall>d \<in> set ds. unat d < 32"
  shows "CHR ''1'' \<notin> set (map (\<lambda>d. CHARSET ! unat d) ds)"
proof
  assume "CHR ''1'' \<in> set (map (\<lambda>d. CHARSET ! unat d) ds)"
  then obtain d where "d \<in> set ds" "CHARSET ! unat d = CHR ''1''" by auto
  with assms CHARSET_facts show False by (metis nth_mem)
qed

text \<open>Facts about any string of the shape the encoders produce.\<close>

lemma encoded_parts:
  assumes "\<forall>d \<in> set ds. unat d < 32"
    and s_def: "s = hrp @ ''1'' @ concat (map charAt ds)"
  shows "lastIndexOf s CHR ''1'' = int (length hrp)" "addressWords s = ds"
    "take (length hrp) s = hrp" "list_all (\<lambda>c. 0 \<le> indexOf CHARSET c) (drop (Suc (length hrp)) s)"
    "length s = Suc (length hrp + length ds)"
    "drop (Suc (length hrp)) s = map (\<lambda>d. CHARSET ! unat d) ds"
proof -
  have s: "s = hrp @ [CHR ''1''] @ map (\<lambda>d. CHARSET ! unat d) ds"
    using assms(1) unfolding s_def by (simp add: concat_charAt)
  show sep: "lastIndexOf s CHR ''1'' = int (length hrp)"
    unfolding s using charset_no_sep [OF assms(1)] by (rule lastIndexOf_sep)
  show d: "drop (Suc (length hrp)) s = map (\<lambda>d. CHARSET ! unat d) ds" by (simp add: s)
  show "addressWords s = ds"
    using sep d assms(1) by (auto simp: addressWords_def nat_add_distrib indexOf_CHARSET intro!: map_idI)
  show "list_all (\<lambda>c. 0 \<le> indexOf CHARSET c) (drop (Suc (length hrp)) s)"
    using assms(1) by (auto simp: d list_all_iff indexOf_CHARSET)
  show "take (length hrp) s = hrp" "length s = Suc (length hrp + length ds)" by (simp_all add: s)
qed

lemma checksum_words_bound:
  "w \<in> set (map (\<lambda>i. js_sar pm (5 * (5 - i)) AND 31) [0..<6]) \<Longrightarrow> unat w < 32"
  using group_bound by auto

text \<open>The shape of an encoded string for the checksum constant \<open>const\<close>.\<close>

definition bech32With :: "i32 \<Rightarrow> string \<Rightarrow> i32 list \<Rightarrow> string" where
  "bech32With const hrp data =
    hrp @ ''1'' @ concat (map charAt (data @
      map (\<lambda>i. js_sar (polymod (hrpExpand hrp @ data @ [0, 0, 0, 0, 0, 0]) XOR const) (5 * (5 - i)) AND 31) [0..<6]))"

lemma encoders_with: "bech32Encode = bech32With 1" "bech32mEncode = bech32With 0x2bc830a3"
  by (simp_all add: fun_eq_iff bech32Encode_def bech32mEncode_def bech32With_def Let_def)

lemma bech32With_verifies:
  assumes "\<forall>d \<in> set data. unat d < 32" "unat const < 2 ^ 30"
  shows "bech32Verify const (bech32With const hrp data)"
proof -
  let ?ck = "map (\<lambda>i. js_sar (polymod (hrpExpand hrp @ data @ [0, 0, 0, 0, 0, 0]) XOR const) (5 * (5 - i)) AND 31) [0..<6]"
  have b: "\<forall>d \<in> set (data @ ?ck). unat d < 32"
    using assms(1) checksum_words_bound unfolding set_append by blast
  have "polymod (hrpExpand hrp @ data @ ?ck) = const"
    using checksum_verifies [OF assms(2), of "hrpExpand hrp @ data"] by simp
  with encoded_parts [OF b refl, where hrp = hrp] show ?thesis
    unfolding bech32Verify_def bech32With_def by (simp add: nat_add_distrib del: map_map map_append)
qed

lemma dataPart_with:
  assumes "\<forall>d \<in> set data. unat d < 32"
  shows "dataPart (bech32With const hrp data) = map (\<lambda>d. CHARSET ! unat d) data"
proof -
  let ?ck = "map (\<lambda>i. js_sar (polymod (hrpExpand hrp @ data @ [0, 0, 0, 0, 0, 0]) XOR const) (5 * (5 - i)) AND 31) [0..<6]"
  have b: "\<forall>d \<in> set (data @ ?ck). unat d < 32"
    using assms checksum_words_bound unfolding set_append by blast
  show ?thesis
    using encoded_parts [OF b refl, where hrp = hrp]
    unfolding dataPart_def slice_def bech32With_def by (simp add: nat_add_distrib del: map_map map_append) simp
qed

lemma rmap_charsetPos:
  "\<forall>d \<in> set ds. unat d < 32 \<Longrightarrow> rmap charsetPos (map (\<lambda>d. CHARSET ! unat d) ds) = Inr (map uint ds)"
  by (induction ds) (simp_all add: charsetPos_def indexOf_CHARSET)

text \<open>Reading back an address built from a witness program.\<close>

lemma read_witness:
  assumes "unat ver < 32"
  shows "addressToWitnessVersionAndProgram (bech32With const hrp (ver # convertBits prog 8 5 True))
    = Inr \<lparr>wa_version = Some (uint ver), wa_program = prog\<rparr>"
    and "ext_addressToWitnessProgram (bech32With const hrp (ver # convertBits prog 8 5 True)) = Inr prog"
proof -
  have b: "\<forall>d \<in> set (ver # convertBits prog 8 5 True). unat d < 32"
    using assms convertBits_bound [of 5 _ prog 8 True] by auto
  have m: "map (word_of_int \<circ> uint) ws = map toUint8 ws" for ws :: "i32 list"
    by (simp add: toUint8_def)
  show "addressToWitnessVersionAndProgram (bech32With const hrp (ver # convertBits prog 8 5 True))
      = Inr \<lparr>wa_version = Some (uint ver), wa_program = prog\<rparr>"
    "ext_addressToWitnessProgram (bech32With const hrp (ver # convertBits prog 8 5 True)) = Inr prog"
    unfolding addressToWitnessVersionAndProgram_def ext_addressToWitnessProgram_def dataPart_with [OF b] rmap_charsetPos [OF b]
    using convertBits_roundtrip [of prog] by (simp_all add: m Let_def)
qed

lemma addressToScript_with:
  assumes "unat ver < 32"
  shows "addressToScript (bech32With const hrp (ver # convertBits prog 8 5 True))
    = Inr ([if ver = 0 then 0 else 0x50 + toUint8 ver, of_nat (length prog)] @ prog)"
  using read_witness(1) [OF assms, of const hrp prog]
  by (simp add: addressToScript_def versionByte_def storeByte_def toUint8_def uint_0_iff)

lemma ext_addressToScript_with:
  assumes "unat ver < 32"
  shows "ext_addressToScript (bech32With const hrp (ver # convertBits prog 8 5 True)) = Inr ([0, of_nat (length prog)] @ prog)"
  using read_witness(2) [OF assms, of const hrp prog] by (simp add: ext_addressToScript_def)

text \<open>The reader never looks at the last six characters.\<close>

lemma lastIndexOf_append_absent: "c \<notin> set t \<Longrightarrow> c \<in> set s \<Longrightarrow> lastIndexOf (s @ t) c = lastIndexOf s c"
  by (simp add: lastIndexOf_def takeWhile_append)

lemma dataPart_ignores_checksum:
  assumes "CHR ''1'' \<in> set s" "length t = 6" "CHR ''1'' \<notin> set t"
  shows "dataPart (s @ t) = drop (nat (lastIndexOf s CHR ''1'' + 1)) s"
  using assms by (simp add: dataPart_def slice_def lastIndexOf_append_absent)

section \<open>Error detection\<close>

lemma GEN_low_independent:
  "(if b0 then 0x12 else 0) XOR (if b1 then 0x0d else 0) XOR (if b2 then 0x1a else 0)
    XOR (if b3 then 0x1d else 0) XOR (if b4 then 0x13 else 0) = (0 :: i32) \<Longrightarrow> \<not> b0 \<and> \<not> b1 \<and> \<not> b2 \<and> \<not> b3 \<and> \<not> b4"
  by (cases b0; cases b1; cases b2; cases b3; cases b4) simp_all

lemma feedback_low:
  "feedback c 0 AND 31 = (if bit c 25 then 0x12 else 0)" "feedback c 1 AND 31 = (if bit c 26 then 0x0d else 0)"
  "feedback c 2 AND 31 = (if bit c 27 then 0x1a else 0)" "feedback c 3 AND 31 = (if bit c 28 then 0x1d else 0)"
  "feedback c 4 AND 31 = (if bit c 29 then 0x13 else 0)"
  by (simp_all add: feedback_def GEN_def)

lemma polymod_shift_nonzero:
  assumes "polymod_shift c = 0" "unat c < 2 ^ 30"
  shows "c = 0"
proof -
  have low: "js_shl x 5 AND 31 = 0" for x
    by (rule bit_word_eqI) (simp add: bit_and_iff masks_i32 bit_mask_iff bit_js_shl)
  have "polymod_shift c AND 31 = (feedback c 0 XOR feedback c 1 XOR feedback c 2 XOR feedback c 3 XOR feedback c 4) AND 31"
    by (simp add: polymod_shift_eq bit.conj_xor_distrib2 low)
  then have "(feedback c 0 AND 31) XOR (feedback c 1 AND 31) XOR (feedback c 2 AND 31) XOR (feedback c 3 AND 31) XOR (feedback c 4 AND 31) = 0"
    using assms(1) by (simp add: bit.conj_xor_distrib2)
  then have "\<not> bit c 25 \<and> \<not> bit c 26 \<and> \<not> bit c 27 \<and> \<not> bit c 28 \<and> \<not> bit c 29"
    unfolding feedback_low by (rule GEN_low_independent)
  moreover have "\<not> bit c k" if "30 \<le> k" for k using assms(2) that by (rule not_bit_high)
  ultimately have "\<not> bit c k" if "25 \<le> k" for k
    using that by (cases "k \<in> {25, 26, 27, 28, 29}") auto
  then have small: "unat c < 2 ^ 25" by (rule unat_bound_bits)
  then have "js_shl c 5 = 0" using assms(1) by (simp add: polymod_shift_small)
  show ?thesis
  proof (rule bit_word_eqI)
    fix k assume "k < LENGTH(32)"
    show "bit c k = bit 0 k"
    proof (cases "25 \<le> k")
      case True then show ?thesis using not_bit_high [OF small] by simp
    next
      case False
      then have "bit (js_shl c 5) (k + 5) = bit c k" by (simp add: bit_js_shl)
      then show ?thesis using \<open>js_shl c 5 = 0\<close> by simp
    qed
  qed
qed

lemma polymod_shift_pow_nonzero:
  "(polymod_shift ^^ n) c = 0 \<Longrightarrow> unat c < 2 ^ 30 \<Longrightarrow> c = 0"
proof (induction n arbitrary: c)
  case (Suc n)
  then have "(polymod_shift ^^ n) (polymod_shift c) = 0" by (simp add: funpow_swap1)
  then have "polymod_shift c = 0" using polymod_shift_bound by (rule Suc.IH)
  then show ?case using Suc.prems(2) by (rule polymod_shift_nonzero)
qed simp

text \<open>Two strings of words that differ in one word have different checksums.\<close>

lemma polymod_substitution:
  assumes "polymod (xs @ v # ys) = polymod (xs @ w # ys)" "unat v < 2 ^ 30" "unat w < 2 ^ 30"
  shows "v = w"
proof -
  have "(polymod_shift ^^ length ys) v = (polymod_shift ^^ length ys) w"
    using assms(1) unfolding polymod_feed feed_Cons length_Cons xor_cancel_left xor_cancel_right .
  then have "(polymod_shift ^^ length ys) (v XOR w) = 0" by (simp add: bch.funpow_xor)
  then have "v XOR w = 0" using unat_xor_bound [OF assms(2,3)] by (rule polymod_shift_pow_nonzero)
  then show ?thesis by (simp add: xor_eq_0)
qed

section \<open>Substituted characters\<close>

lemma addressWords_append:
  assumes "CHR ''1'' \<in> set a" "CHR ''1'' \<notin> set t"
  shows "addressWords (a @ t) = addressWords a @ map (\<lambda>c. word_of_int (indexOf CHARSET c)) t"
  and "take (nat (lastIndexOf (a @ t) CHR ''1'')) (a @ t) = take (nat (lastIndexOf a CHR ''1'')) a"
proof -
  have "lastIndexOf a CHR ''1'' < int (length a)" by (simp add: lastIndexOf_def)
  with assms show "addressWords (a @ t) = addressWords a @ map (\<lambda>c. word_of_int (indexOf CHARSET c)) t"
    and "take (nat (lastIndexOf (a @ t) CHR ''1'')) (a @ t) = take (nat (lastIndexOf a CHR ''1'')) a"
    by (simp_all add: addressWords_def lastIndexOf_append_absent)
qed

lemma bech32Verify_append:
  assumes "bech32Verify const (a @ t)" "CHR ''1'' \<in> set a" "CHR ''1'' \<notin> set t"
  shows "polymod ((hrpExpand (take (nat (lastIndexOf a CHR ''1'')) a) @ addressWords a)
      @ map (\<lambda>c. word_of_int (indexOf CHARSET c)) t) = const"
  using assms(1) unfolding bech32Verify_def addressWords_append [OF assms(2,3)] append.assoc by blast

lemma charset_word:
  assumes "c \<in> set CHARSET"
  shows "unat (word_of_int (indexOf CHARSET c) :: i32) < 32"
    and "CHARSET ! unat (word_of_int (indexOf CHARSET c) :: i32) = c"
proof -
  obtain k where k: "k < 32" "c = CHARSET ! k" using assms CHARSET_facts(1) by (metis in_set_conv_nth)
  then have "indexOf CHARSET c = int k" using CHARSET_facts by (simp add: indexOf_def length_takeWhile_nth)
  moreover have "unat (word_of_int (int k) :: i32) = k" using k(1) by (simp add: unat_of_nat take_bit_nat_eq_self)
  ultimately show "unat (word_of_int (indexOf CHARSET c) :: i32) < 32"
    and "CHARSET ! unat (word_of_int (indexOf CHARSET c) :: i32) = c" using k by simp_all
qed

lemma substitution_rejected:
  assumes v: "bech32Verify const (a @ x # b)" and a: "CHR ''1'' \<in> set a"
    and chars: "x \<in> set CHARSET" "set b \<subseteq> set CHARSET" "c \<in> set CHARSET" and "c \<noteq> x"
  shows "\<not> bech32Verify const (a @ c # b)"
proof
  assume w: "bech32Verify const (a @ c # b)"
  have no1: "CHR ''1'' \<notin> set (x # b)" "CHR ''1'' \<notin> set (c # b)" using chars CHARSET_facts(3) by auto
  let ?w = "\<lambda>c. word_of_int (indexOf CHARSET c) :: i32"
  let ?pre = "hrpExpand (take (nat (lastIndexOf a CHR ''1'')) a) @ addressWords a"
  have "polymod (?pre @ ?w x # map ?w b) = polymod (?pre @ ?w c # map ?w b)"
    using bech32Verify_append [OF v a no1(1)] bech32Verify_append [OF w a no1(2)] by (simp only: list.map)
  moreover have "unat (?w x) < 2 ^ 30" "unat (?w c) < 2 ^ 30"
    using charset_word(1) [OF chars(1)] charset_word(1) [OF chars(3)] by simp_all
  ultimately have "?w x = ?w c" by (rule polymod_substitution)
  with charset_word(2) [OF chars(1)] charset_word(2) [OF chars(3)] \<open>c \<noteq> x\<close> show False by simp
qed

lemma bech32With_chars:
  assumes "\<forall>d \<in> set data. unat d < 32"
  obtains t where "bech32With const hrp data = (hrp @ ''1'') @ t" "set t \<subseteq> set CHARSET"
proof -
  let ?ck = "map (\<lambda>i. js_sar (polymod (hrpExpand hrp @ data @ [0, 0, 0, 0, 0, 0]) XOR const) (5 * (5 - i)) AND 31) [0..<6]"
  have b: "\<forall>d \<in> set (data @ ?ck). unat d < 32"
    using assms checksum_words_bound unfolding set_append by blast
  have "set (concat (map charAt ds)) \<subseteq> set CHARSET" if "\<forall>d \<in> set ds. unat d < 32" for ds
    using that CHARSET_facts(1) by (induction ds) (auto simp: charAt_def)
  from this [OF b] show thesis by (intro that [of "concat (map charAt (data @ ?ck))"]) (simp_all add: bech32With_def)
qed

lemma bech32With_detects:
  assumes d: "\<forall>d \<in> set data. unat d < 32" "unat const < 2 ^ 30"
    and s: "s = bech32With const hrp data" and i: "length hrp < i" "i < length s"
    and c: "c \<in> set CHARSET" "c \<noteq> s ! i"
  shows "\<not> bech32Verify const (s[i := c])"
proof -
  obtain t where t: "s = (hrp @ ''1'') @ t" "set t \<subseteq> set CHARSET" using bech32With_chars [OF d(1)] s by metis
  have pre: "CHR ''1'' \<in> set (take i s)" using i(1) t(1) by (simp add: take_append) (cases "i - length hrp"; simp)
  have suf: "set (drop (length hrp + 1) s) \<subseteq> set CHARSET" using t by simp
  have si: "s ! i \<in> set CHARSET"
    using suf i nth_mem [of "i - (length hrp + 1)" "drop (length hrp + 1) s"] by auto
  have post: "set (drop (Suc i) s) \<subseteq> set CHARSET"
    using suf i(1) set_drop_subset_set_drop [of "length hrp + 1" "Suc i" s] by simp
  have "bech32Verify const (take i s @ s ! i # drop (Suc i) s)"
    using bech32With_verifies [OF d, of hrp] s id_take_nth_drop [OF i(2)] by simp
  from substitution_rejected [OF this pre si post c(1,2)] show ?thesis
    using i(2) by (simp add: upd_conv_take_nth_drop)
qed

section \<open>Properties\<close>





text \<open>C9. The address readers of both wallets skip the checksum: two addresses that differ in
  their last six characters only give the same script, whether or not the checksum is right.\<close>

theorem addressToScript_ignores_checksum:
  assumes "CHR ''1'' \<in> set s" "length t = 6" "length t' = 6" "CHR ''1'' \<notin> set t" "CHR ''1'' \<notin> set t'"
  shows "addressToScript (s @ t) = addressToScript (s @ t') \<and> ext_addressToScript (s @ t) = ext_addressToScript (s @ t')"
  using assms
  by (simp add: addressToScript_def addressToWitnessVersionAndProgram_def ext_addressToScript_def
      ext_addressToWitnessProgram_def dataPart_ignores_checksum)

theorem addressToScript_ignores_checksum_witness:
  "addressToScript (''grd1qqqsyqcyq'' @ ''qqqqqq'') = addressToScript (''grd1qqqsyqcyq'' @ ''llllll'') \<and>
   ext_addressToScript (''grd1qqqsyqcyq'' @ ''qqqqqq'') = ext_addressToScript (''grd1qqqsyqcyq'' @ ''llllll'')"
  by (rule addressToScript_ignores_checksum) simp_all

end
