(* ===== verification/Keys.thy ===== *)
theory Keys
  imports Bech32 "HOL-Library.List_Lexorder" "HOL-Library.Char_ord"
begin

text \<open>
  Keys and addresses of \<^verbatim>\<open>src/mobile/utils/wallet-crypto.ts\<close> and
  \<^verbatim>\<open>src/extension/src/crypto/wallet.ts\<close>: the word list and the recovery phrase, the
  derivation of classical and quantum keys, the two kinds of address, the WIF export.
  The hash functions and signature schemes come from the \<open>@noble\<close> packages; they are the
  fields of the parameter \<open>crypto\<close>, and \<open>hash_sizes\<close> is what their documentation says
  of the digest lengths.
\<close>

section \<open>The primitives\<close>

record crypto =
  sha256 :: "byte list \<Rightarrow> byte list"
  ripemd160 :: "byte list \<Rightarrow> byte list"
  getPublicKey :: "byte list \<Rightarrow> byte list result"             \<comment> \<open>compressed; rejects an invalid key\<close>
  signDER :: "byte list \<Rightarrow> byte list \<Rightarrow> byte list result"    \<comment> \<open>\<open>signAsync(hash, key, lowS)\<close>, DER bytes\<close>
  keygen :: "byte list \<Rightarrow> byte list \<times> byte list"             \<comment> \<open>ML-DSA-87: public and secret key of a seed\<close>
  mldsa_sign :: "byte list \<Rightarrow> byte list \<Rightarrow> byte list"

definition hash_sizes :: "crypto \<Rightarrow> bool" where
  "hash_sizes C \<longleftrightarrow> (\<forall>x. length (sha256 C x) = 32) \<and> (\<forall>x. length (ripemd160 C x) = 20)"

definition sha256d :: "crypto \<Rightarrow> byte list \<Rightarrow> byte list" where
  "sha256d C data = sha256 C (sha256 C data)"

definition hash160 :: "crypto \<Rightarrow> byte list \<Rightarrow> byte list" where
  "hash160 C data = ripemd160 C (sha256 C data)"

definition GARUDA_bech32 :: string where
  "GARUDA_bech32 = ''grd''"

definition GARUDA_wif :: byte where
  "GARUDA_wif = 239"

section \<open>The recovery phrase\<close>

definition WORDLIST :: "string list" where
  "WORDLIST = [
     ''abandon'', ''ability'', ''able'', ''about'', ''above'', ''absent'', ''absorb'', ''abstract'',
     ''absurd'', ''abuse'', ''access'', ''accident'', ''account'', ''accuse'', ''achieve'', ''acid'',
     ''acoustic'', ''acquire'', ''across'', ''act'', ''action'', ''actor'', ''actress'', ''actual'',
     ''adapt'', ''add'', ''addict'', ''address'', ''adjust'', ''admit'', ''adult'', ''advance'',
     ''advice'', ''aerobic'', ''affair'', ''afford'', ''afraid'', ''again'', ''age'', ''agent'',
     ''agree'', ''ahead'', ''aim'', ''air'', ''airport'', ''aisle'', ''alarm'', ''album'',
     ''alcohol'', ''alert'', ''alien'', ''all'', ''alley'', ''allow'', ''almost'', ''alone'',
     ''alpha'', ''already'', ''also'', ''alter'', ''always'', ''amateur'', ''amazing'', ''among'',
     ''amount'', ''amused'', ''analyst'', ''anchor'', ''ancient'', ''anger'', ''angle'', ''angry'',
     ''animal'', ''ankle'', ''announce'', ''annual'', ''another'', ''answer'', ''antenna'', ''antique'',
     ''anxiety'', ''any'', ''apart'', ''apology'', ''appear'', ''apple'', ''approve'', ''april'',
     ''arch'', ''arctic'', ''area'', ''arena'', ''argue'', ''arm'', ''armed'', ''armor'',
     ''army'', ''around'', ''arrange'', ''arrest'', ''arrive'', ''arrow'', ''art'', ''artefact'',
     ''artist'', ''artwork'', ''ask'', ''aspect'', ''assault'', ''asset'', ''assist'', ''assume'',
     ''asthma'', ''athlete'', ''atom'', ''attack'', ''attend'', ''attitude'', ''attract'', ''auction'',
     ''audit'', ''august'', ''aunt'', ''author'', ''auto'', ''autumn'', ''average'', ''avocado'',
     ''avoid'', ''awake'', ''aware'', ''awesome'', ''awful'', ''awkward'', ''axis'', ''baby'',
     ''bachelor'', ''bacon'', ''badge'', ''bag'', ''balance'', ''balcony'', ''ball'', ''bamboo'',
     ''banana'', ''banner'', ''bar'', ''barely'', ''bargain'', ''barrel'', ''base'', ''basic'',
     ''basket'', ''battle'', ''beach'', ''bean'', ''beauty'', ''because'', ''become'', ''beef'',
     ''before'', ''begin'', ''behave'', ''behind'', ''believe'', ''below'', ''belt'', ''bench'',
     ''benefit'', ''best'', ''betray'', ''better'', ''between'', ''beyond'', ''bicycle'', ''bid'',
     ''bike'', ''bind'', ''biology'', ''bird'', ''birth'', ''bitter'', ''black'', ''blade'',
     ''blame'', ''blanket'', ''blast'', ''bleak'', ''bless'', ''blind'', ''blood'', ''blossom'',
     ''blow'', ''blue'', ''blur'', ''blush'', ''board'', ''boat'', ''body'', ''boil'',
     ''bomb'', ''bone'', ''bonus'', ''book'', ''boost'', ''border'', ''boring'', ''borrow'',
     ''boss'', ''bottom'', ''bounce'', ''box'', ''boy'', ''bracket'', ''brain'', ''brand'',
     ''brass'', ''brave'', ''bread'', ''breeze'', ''brick'', ''bridge'', ''brief'', ''bright'',
     ''bring'', ''brisk'', ''broccoli'', ''broken'', ''bronze'', ''broom'', ''brother'', ''brown'',
     ''brush'', ''bubble'', ''buddy'', ''budget'', ''buffalo'', ''build'', ''bulb'', ''bulk'',
     ''bullet'', ''bundle'', ''bunny'', ''burden'', ''burger'', ''burst'', ''bus'', ''business'',
     ''busy'', ''butter'', ''buyer'', ''buzz'', ''cabbage'', ''cabin'', ''cable'', ''cactus'']"

text \<open>\<open>entropy\<close> are the 24 bytes of \<open>crypto.getRandomValues\<close> or of the fallback loop.\<close>

definition generateMnemonic :: "byte list \<Rightarrow> string" where
  "generateMnemonic entropy = join '' '' (map (\<lambda>b. WORDLIST ! (unat b mod 256)) entropy)"

definition trim :: "string \<Rightarrow> string" where
  "trim s = rev (dropWhile js_space (rev (dropWhile js_space s)))"

definition lowerChar :: "char \<Rightarrow> char" where
  "lowerChar c = (let n = of_char c :: nat in
     if (65 \<le> n \<and> n \<le> 90) \<or> (192 \<le> n \<and> n \<le> 222 \<and> n \<noteq> 215) then char_of (n + 32) else c)"

definition toLowerCase :: "string \<Rightarrow> string" where
  "toLowerCase s = map lowerChar s"

definition upperChar :: "char \<Rightarrow> string" where
  "upperChar c = (let n = of_char c :: nat in
     if n = 223 then ''SS''
     else if (97 \<le> n \<and> n \<le> 122) \<or> (224 \<le> n \<and> n \<le> 254 \<and> n \<noteq> 247) then [char_of (n - 32)] else [c])"

definition toUpperCase :: "string \<Rightarrow> string" where
  "toUpperCase s = concat (map upperChar s)"

text \<open>\<open>split(/\s+/)\<close>: the pieces between the runs of white space.\<close>

function splitSpace :: "string \<Rightarrow> string list" where
  "splitSpace s =
    (let r = dropWhile (\<lambda>c. \<not> js_space c) s
     in if r = [] then [s] else takeWhile (\<lambda>c. \<not> js_space c) s # splitSpace (dropWhile js_space r))"
  by pat_completeness auto
termination
proof (relation "measure length", simp)
  fix s r :: string
  assume r: "r = dropWhile (\<lambda>c. \<not> js_space c) s" and "r \<noteq> []"
  then have "js_space (hd r)" using hd_dropWhile [of "\<lambda>c. \<not> js_space c" s] by simp
  then have "length (dropWhile js_space r) < length r" using \<open>r \<noteq> []\<close> length_dropWhile_le [of js_space "tl r"]
    by (cases r) (auto intro: le_imp_less_Suc)
  also have "\<dots> \<le> length s" unfolding r by (rule length_dropWhile_le)
  finally show "(dropWhile js_space r, s) \<in> measure length" by simp
qed

declare splitSpace.simps [simp del]

definition validateMnemonic :: "string \<Rightarrow> bool" where
  "validateMnemonic mnemonic =
    (let words = splitSpace (toLowerCase (trim mnemonic))
     in if length words \<noteq> 24 then False else list_all (\<lambda>w. w \<in> set WORDLIST) words)"

section \<open>Addresses of public keys\<close>

definition pubkeyToP2WPKH :: "crypto \<Rightarrow> byte list \<Rightarrow> string" where
  "pubkeyToP2WPKH C pubkey =
    (let words = convertBits (hash160 C pubkey) 8 5 True
     in bech32Encode GARUDA_bech32 (0 # words))"

definition pubkeyHashToP2PQH :: "byte list \<Rightarrow> string" where
  "pubkeyHashToP2PQH pubkeyHash =
    (let words = convertBits pubkeyHash 8 5 True
     in bech32mEncode GARUDA_bech32 (2 # words))"

definition pubkeyToP2PQH :: "crypto \<Rightarrow> byte list \<Rightarrow> string" where
  "pubkeyToP2PQH C pubkey = pubkeyHashToP2PQH (sha256 C pubkey)"

section \<open>Key derivation\<close>

record DerivedKey =
  dk_privateKey :: "byte list"
  dk_publicKey :: "byte list"
  dk_address :: string
  dk_privateKeyHex :: string
  dk_publicKeyHex :: string

definition keyPhrase :: "string \<Rightarrow> nat \<Rightarrow> string" where
  "keyPhrase mnemonic accountIndex =
    (if accountIndex = 0 then mnemonic else mnemonic @ ''|'' @ toString10 accountIndex)"

definition deriveKey :: "crypto \<Rightarrow> string \<Rightarrow> nat \<Rightarrow> DerivedKey result" where
  "deriveKey C mnemonic accountIndex =
    (let phrase = keyPhrase mnemonic accountIndex;
         privKey = sha256 C (utf8 phrase)
     in rbind (getPublicKey C privKey) (\<lambda>pubKey.
          Inr \<lparr>dk_privateKey = privKey, dk_publicKey = pubKey, dk_address = pubkeyToP2WPKH C pubKey,
               dk_privateKeyHex = toHex privKey, dk_publicKeyHex = toHex pubKey\<rparr>))"

text \<open>\<open>privateKeyHex.match(/.{2}/g)\<close>: consecutive pairs of characters that are no line ends.\<close>

definition lineEnd :: "char \<Rightarrow> bool" where
  "lineEnd c \<longleftrightarrow> c = CHR 0x0A \<or> c = CHR 0x0D"

fun matchPairs :: "string \<Rightarrow> string list" where
  "matchPairs (a # b # s) =
    (if \<not> lineEnd a \<and> \<not> lineEnd b then [a, b] # matchPairs s else matchPairs (b # s))"
| "matchPairs _ = []"

definition deriveKeyFromPrivate :: "crypto \<Rightarrow> string \<Rightarrow> (string \<times> string) result" where
  "deriveKeyFromPrivate C hex =
    (if matchPairs hex = [] then Inl TypeError
     else let privKey = map (\<lambda>h. storeByte (parseInt16 h)) (matchPairs hex)
          in rbind (getPublicKey C privKey) (\<lambda>pubKey. Inr (pubkeyToP2WPKH C pubKey, toHex pubKey)))"

record DerivedQuantumKey =
  q_publicKey :: "byte list"
  q_secretKey :: "byte list"
  q_address :: string
  q_publicKeyHex :: string
  q_secretKeyHex :: string

definition quantumPhrase :: "string \<Rightarrow> nat \<Rightarrow> string" where
  "quantumPhrase mnemonic accountIndex =
    (if accountIndex = 0 then mnemonic @ ''|pq'' else mnemonic @ ''|pq|'' @ toString10 accountIndex)"

definition deriveQuantumKey :: "crypto \<Rightarrow> string \<Rightarrow> nat \<Rightarrow> DerivedQuantumKey" where
  "deriveQuantumKey C mnemonic accountIndex =
    (let seed = sha256 C (utf8 (quantumPhrase mnemonic accountIndex));
         (pk, sk) = keygen C seed
     in \<lparr>q_publicKey = pk, q_secretKey = sk, q_address = pubkeyToP2PQH C pk,
         q_publicKeyHex = toHex pk, q_secretKeyHex = toHex sk\<rparr>)"

text \<open>The extension's variant also names the derivation path.\<close>

record ext_DerivedKey =
  ek_privateKey :: "byte list"
  ek_publicKey :: "byte list"
  ek_address :: string
  ek_derivationPath :: string

definition ext_deriveKey :: "crypto \<Rightarrow> string \<Rightarrow> nat \<Rightarrow> nat \<Rightarrow> ext_DerivedKey result" where
  "ext_deriveKey C mnemonic accountIndex addressIndex =
    (let phrase = (if addressIndex = 0 then mnemonic else mnemonic @ ''|'' @ toString10 addressIndex);
         privKey = sha256 C (utf8 phrase)
     in rbind (getPublicKey C privKey) (\<lambda>pubKey.
          Inr \<lparr>ek_privateKey = privKey, ek_publicKey = pubKey, ek_address = pubkeyToP2WPKH C pubKey,
               ek_derivationPath =
                 (if addressIndex = 0 then ''garuda-sha256'' else ''garuda-sha256|'' @ toString10 addressIndex)\<rparr>))"

section \<open>Base58 and WIF\<close>

definition B58 :: string where
  "B58 = ''123456789ABCDEFGHJKLMNPQRSTUVWXYZabcdefghijkmnopqrstuvwxyz''"

fun base58Loop :: "nat \<Rightarrow> string \<Rightarrow> string" where
  "base58Loop n result = (if n > 0 then base58Loop (n div 58) (B58 ! (n mod 58) # result) else result)"

declare base58Loop.simps [simp del]

text \<open>\<open>BigInt("0x" + toHex(data))\<close> throws when there is no digit.\<close>

definition base58Encode :: "byte list \<Rightarrow> string result" where
  "base58Encode data =
    (if data = [] then Inl SyntaxError
     else Inr (replicate (length (takeWhile (\<lambda>b. b = 0) data)) CHR ''1''
               @ base58Loop (nat (hexPrefix 0 (toHex data))) []))"

definition privateKeyToWIF :: "crypto \<Rightarrow> byte list \<Rightarrow> string result" where
  "privateKeyToWIF C privkey =
    (let payload = GARUDA_wif # privkey @ [0x01];
         checksum = take 4 (sha256d C payload)
     in base58Encode (payload @ checksum))"

definition formatAddress :: "string \<Rightarrow> string" where
  "formatAddress addr =
    (if addr = [] then [] else take 10 addr @ ''...'' @ drop (length addr - 6) addr)"

definition ext_formatAddress :: "string \<Rightarrow> string" where
  "ext_formatAddress addr = take 12 addr @ ''...'' @ drop (length addr - 6) addr"

section \<open>The word list\<close>

lemma WORDLIST_length: "length WORDLIST = 256"
  by (simp add: WORDLIST_def)

lemma WORDLIST_sorted: "sorted_wrt (<) WORDLIST"
  unfolding WORDLIST_def
  by (simp add: sorted_wrt2 sorted_wrt1 less_char_def del: sorted_wrt.simps(2))

lemma WORDLIST_distinct: "distinct WORDLIST"
  using WORDLIST_sorted by (simp add: strict_sorted_iff)

definition plainWord :: "string \<Rightarrow> bool" where
  "plainWord w \<longleftrightarrow> w \<noteq> [] \<and> list_all (\<lambda>c. \<not> js_space c \<and> lowerChar c = c) w"

lemma lower_letter: "c \<in> set ''abcdefghijklmnopqrstuvwxyz'' \<Longrightarrow> \<not> js_space c \<and> lowerChar c = c"
  by (auto simp: js_space_def lowerChar_def)

lemma WORDLIST_letters: "list_all (\<lambda>w. w \<noteq> [] \<and> set w \<subseteq> set ''abcdefghijklmnopqrstuvwxyz'') WORDLIST"
  unfolding WORDLIST_def by simp

lemma WORDLIST_plain: "w \<in> set WORDLIST \<Longrightarrow> plainWord w"
  using WORDLIST_letters lower_letter unfolding plainWord_def list_all_iff by blast

section \<open>Generated phrases\<close>

lemma space_char: "js_space CHR '' ''"
  by (simp add: js_space_def)

lemma plain_takeWhile: "plainWord w \<Longrightarrow> takeWhile (\<lambda>c. \<not> js_space c) (w @ CHR '' '' # r) = w"
  "plainWord w \<Longrightarrow> dropWhile (\<lambda>c. \<not> js_space c) (w @ CHR '' '' # r) = CHR '' '' # r"
  by (simp_all add: plainWord_def list_all_iff takeWhile_append dropWhile_append space_char)

lemma join_hd: "ws \<noteq> [] \<Longrightarrow> plainWord (hd ws) \<Longrightarrow> join '' '' ws \<noteq> [] \<and> \<not> js_space (hd (join '' '' ws))"
  by (cases ws rule: remdups_adj.cases) (auto simp: plainWord_def list_all_iff neq_Nil_conv)

lemma dropWhile_hd: "s \<noteq> [] \<Longrightarrow> \<not> P (hd s) \<Longrightarrow> dropWhile P s = s"
  by (cases s) auto

lemma splitSpace_join:
  "ws \<noteq> [] \<Longrightarrow> (\<And>w. w \<in> set ws \<Longrightarrow> plainWord w) \<Longrightarrow> splitSpace (join '' '' ws) = ws"
proof (induction ws)
  case (Cons w ws)
  have w: "plainWord w" using Cons.prems by simp
  show ?case
  proof (cases "ws = []")
    case True
    have "dropWhile (\<lambda>c. \<not> js_space c) w = []" using w by (simp add: plainWord_def list_all_iff)
    then show ?thesis using True by (simp add: splitSpace.simps)
  next
    case False
    then have "plainWord (hd ws)" using Cons.prems by simp
    then have "dropWhile js_space (CHR '' '' # join '' '' ws) = join '' '' ws"
      using join_hd [OF False] by (simp add: space_char dropWhile_hd)
    with False Cons w show ?thesis
      by (subst splitSpace.simps) (simp add: join_Cons plain_takeWhile Let_def)
  qed
qed simp

lemma join_last:
  "ws \<noteq> [] \<Longrightarrow> (\<And>w. w \<in> set ws \<Longrightarrow> plainWord w) \<Longrightarrow> join '' '' ws \<noteq> [] \<and> \<not> js_space (last (join '' '' ws))"
proof (induction ws)
  case (Cons w ws)
  then show ?case by (cases "ws = []") (auto simp: join_Cons plainWord_def list_all_iff)
qed simp

lemma trim_join:
  assumes "ws \<noteq> []" "\<And>w. w \<in> set ws \<Longrightarrow> plainWord w"
  shows "trim (join '' '' ws) = join '' '' ws"
  using join_hd [OF assms(1)] join_last [OF assms] assms
  by (simp add: trim_def dropWhile_hd hd_rev)

lemma lower_join:
  "(\<And>w. w \<in> set ws \<Longrightarrow> plainWord w) \<Longrightarrow> toLowerCase (join '' '' ws) = join '' '' ws"
proof (induction ws)
  case (Cons w ws)
  have "map lowerChar w = w" using Cons.prems [of w] by (auto simp: plainWord_def list_all_iff intro: map_idI)
  with Cons show ?case
    by (cases "ws = []") (simp_all add: toLowerCase_def join_Cons lowerChar_def)
qed (simp add: toLowerCase_def)

lemma words_of_entropy: "w \<in> set (map (\<lambda>b. WORDLIST ! (unat b mod 256)) e) \<Longrightarrow> w \<in> set WORDLIST"
  by (auto simp: WORDLIST_length)

lemma generated_words:
  assumes "e \<noteq> []"
  shows "splitSpace (toLowerCase (trim (generateMnemonic e))) = map (\<lambda>b. WORDLIST ! (unat b mod 256)) e"
    (is "_ = ?ws")
proof -
  have p: "plainWord w" if "w \<in> set ?ws" for w using words_of_entropy [OF that] by (rule WORDLIST_plain)
  have "?ws \<noteq> []" using assms by simp
  then show ?thesis unfolding generateMnemonic_def
    by (simp only: trim_join [OF \<open>?ws \<noteq> []\<close> p] lower_join [OF p] splitSpace_join [OF \<open>?ws \<noteq> []\<close> p])
qed

lemma validate_generated: "validateMnemonic (generateMnemonic e) \<longleftrightarrow> length e = 24"
proof (cases "e = []")
  case True
  then show ?thesis by (simp add: validateMnemonic_def generateMnemonic_def trim_def toLowerCase_def splitSpace.simps)
next
  case False
  then show ?thesis
    using words_of_entropy [of _ e] by (auto simp: validateMnemonic_def generated_words list_all_iff)
qed

lemma generate_inject:
  assumes "generateMnemonic e = generateMnemonic e'" "e \<noteq> []" "e' \<noteq> []"
  shows "e = e'"
proof -
  have "map (\<lambda>b. WORDLIST ! (unat b mod 256)) e = map (\<lambda>b. WORDLIST ! (unat b mod 256)) e'"
    using generated_words [OF assms(2)] generated_words [OF assms(3)] assms(1) by simp
  moreover have "inj (\<lambda>b :: byte. WORDLIST ! (unat b mod 256))"
  proof (rule injI)
    fix b b' :: byte assume *: "WORDLIST ! (unat b mod 256) = WORDLIST ! (unat b' mod 256)"
    have "unat b < 256" "unat b' < 256" using unsigned_less [of b] unsigned_less [of b'] by simp_all
    with * have "unat b = unat b'" using WORDLIST_distinct by (simp add: nth_eq_iff_index_eq WORDLIST_length)
    then show "b = b'" by (simp add: word_unat_eq_iff)
  qed
  ultimately show ?thesis by (metis inj_map_eq_map)
qed

section \<open>Derivation phrases\<close>

lemma toString10_digits: "set (toString10 n) \<subseteq> set ''0123456789''"
proof (induction n rule: toString10.induct)
  case (1 n)
  have d: "hexDigit m \<in> set ''0123456789''" if "m < 10" for m
    using that less_16_cases [of m] by (auto simp: hexDigit_def)
  show ?case using 1 d [of n] d [of "n mod 10"] by (subst toString10.simps) auto
qed

lemma hexDigit_inject: "m < 16 \<Longrightarrow> n < 16 \<Longrightarrow> hexDigit m = hexDigit n \<longleftrightarrow> m = n"
  by (metis hexDigit_facts(1) option.inject)

lemma toString10_nonempty: "toString10 n \<noteq> []"
  by (subst toString10.simps) simp

lemma toString10_inject: "toString10 m = toString10 n \<Longrightarrow> m = n"
proof (induction m arbitrary: n rule: toString10.induct)
  case (1 m)
  show ?case
  proof (cases "m < 10")
    case True
    with 1(2) toString10_nonempty [of "n div 10"] show ?thesis
      by (cases "n < 10") (auto simp: toString10.simps [of m] toString10.simps [of n] hexDigit_inject)
  next
    case False
    show ?thesis
    proof (cases "n < 10")
      case True
      with False 1(2) toString10_nonempty [of "m div 10"] show ?thesis
        by (auto simp: toString10.simps [of m] toString10.simps [of n])
    next
      case n: False
      with False 1(2) have "toString10 (m div 10) = toString10 (n div 10)" "m mod 10 = n mod 10"
        by (simp_all add: toString10.simps [of m] toString10.simps [of n] hexDigit_inject)
      with False 1(1) have "m div 10 = n div 10" by blast
      with \<open>m mod 10 = n mod 10\<close> show ?thesis by (metis div_mult_mod_eq)
    qed
  qed
qed

lemma toString10_no_p: "toString10 n \<noteq> CHR ''p'' # s"
  using toString10_digits [of n] by auto

lemma keyPhrase_inject: "keyPhrase m i = keyPhrase m j \<Longrightarrow> i = j"
  using toString10_inject [of i j] toString10_nonempty by (auto simp: keyPhrase_def split: if_splits)

lemma quantumPhrase_inject: "quantumPhrase m i = quantumPhrase m j \<Longrightarrow> i = j"
  using toString10_inject [of i j] toString10_nonempty by (auto simp: quantumPhrase_def split: if_splits)

lemma phrases_separate: "keyPhrase m i \<noteq> quantumPhrase m j"
  using toString10_no_p [of i] by (auto simp: keyPhrase_def quantumPhrase_def)


section \<open>Base58\<close>

text \<open>Reference decoder: leading \<open>1\<close>s are zero bytes, the rest is a base-58 numeral.\<close>

definition b58_val :: "string \<Rightarrow> nat" where
  "b58_val s = foldl (\<lambda>n c. 58 * n + nat (indexOf B58 c)) 0 s"

definition be_val :: "byte list \<Rightarrow> nat" where
  "be_val bs = foldl (\<lambda>n b. 256 * n + unat b) 0 bs"

fun be_bytes :: "nat \<Rightarrow> byte list" where
  "be_bytes n = (if n = 0 then [] else be_bytes (n div 256) @ [of_nat n])"

declare be_bytes.simps [simp del]

definition base58Decode :: "string \<Rightarrow> byte list" where
  "base58Decode s =
    (let z = length (takeWhile (\<lambda>c. c = CHR ''1'') s)
     in replicate z 0 @ be_bytes (b58_val (drop z s)))"

lemma B58_facts: "length B58 = 58" "distinct B58" "B58 ! 0 = CHR ''1''"
  by (simp_all add: B58_def)

lemma base58Loop_0 [simp]: "base58Loop 0 r = r"
  by (simp add: base58Loop.simps)

lemma base58Loop_append: "base58Loop n (r @ s) = base58Loop n r @ s"
proof (induction n r rule: base58Loop.induct)
  case (1 n r)
  show ?case
    using 1 by (cases "n > 0") (simp_all add: base58Loop.simps [of n "r @ s"] base58Loop.simps [of n r])
qed

lemma base58Loop_step: "0 < n \<Longrightarrow> base58Loop n [] = base58Loop (n div 58) [] @ [B58 ! (n mod 58)]"
  using base58Loop_append [of "n div 58" "[]" "[B58 ! (n mod 58)]"] by (simp add: base58Loop.simps [of n "[]"])

lemma indexOf_B58: "d < 58 \<Longrightarrow> indexOf B58 (B58 ! d) = int d"
  using B58_facts by (simp add: indexOf_def length_takeWhile_nth)

lemma b58_val_loop: "b58_val (base58Loop n []) = n"
proof (induction n rule: less_induct)
  case (less n)
  show ?case
  proof (cases "0 < n")
    case True
    then have "b58_val (base58Loop (n div 58) []) = n div 58" by (intro less) simp
    with True show ?thesis by (simp add: base58Loop_step [of n] b58_val_def indexOf_B58)
  qed (simp add: b58_val_def)
qed

lemma base58Loop_hd: "0 < n \<Longrightarrow> base58Loop n [] \<noteq> [] \<and> hd (base58Loop n []) \<noteq> CHR ''1''"
proof (induction n rule: less_induct)
  case (less n)
  show ?case
  proof (cases "n < 58")
    case True
    have "B58 ! n \<noteq> B58 ! 0" using True less.prems B58_facts(1,2) by (simp add: nth_eq_iff_index_eq)
    then show ?thesis using True less.prems B58_facts(3) by (simp add: base58Loop_step [of n])
  next
    case False
    then have "0 < n div 58" by (simp add: div_greater_zero_iff)
    with less.IH [of "n div 58"] less.prems show ?thesis by (simp add: base58Loop_step [of n])
  qed
qed

lemma hexPrefix_byteHex: "hexPrefix acc (byteHex b @ s) = hexPrefix (256 * acc + int (unat b)) s"
proof -
  define q r where "q = unat b div 16" and "r = unat b mod 16"
  have "unat b < 256" using unsigned_less [of b] by simp
  then have "q < 16" "r < 16" by (simp_all add: q_def r_def less_mult_imp_div_less)
  moreover have "unat b = 16 * q + r" by (simp only: q_def r_def mult_div_mod_eq)
  moreover have "byteHex b = [hexDigit q, hexDigit r]" by (simp only: byteHex_digits q_def r_def)
  ultimately show ?thesis by (simp add: hexDigit_facts(1) algebra_simps)
qed

lemma hexPrefix_toHex: "hexPrefix (int n) (toHex bs) = int (foldl (\<lambda>n b. 256 * n + unat b) n bs)"
proof (induction bs arbitrary: n)
  case (Cons b bs)
  have "256 * int n + int (unat b) = int (256 * n + unat b)" by simp
  then show ?case using Cons [of "256 * n + unat b"] by (simp add: toHex_def hexPrefix_byteHex)
qed (simp add: toHex_def)

lemma be_bytes_step: "0 < v \<or> 0 < unat b \<Longrightarrow> be_bytes (256 * v + unat b) = be_bytes v @ [b]"
proof -
  assume *: "0 < v \<or> 0 < unat b"
  have "unat b < 256" using unsigned_less [of b] by simp
  then have "(256 * v + unat b) div 256 = v" by simp
  moreover have "(of_nat (256 * v + unat b) :: byte) = b"
    using \<open>unat b < 256\<close> by (simp only: word_unat_eq_iff unat_of_nat) simp
  ultimately show ?thesis using * by (subst be_bytes.simps) auto
qed

lemma be_val_zero: "be_val bs = 0 \<Longrightarrow> list_all (\<lambda>b. b = 0) bs"
proof (induction bs rule: rev_induct)
  case (snoc b bs)
  then show ?case by (simp add: be_val_def unsigned_eq_0_iff)
qed simp

lemma be_bytes_be_val: "bs = [] \<or> hd bs \<noteq> 0 \<Longrightarrow> be_bytes (be_val bs) = bs"
proof (induction bs rule: rev_induct)
  case Nil
  show ?case by (simp add: be_val_def be_bytes.simps)
next
  case (snoc b bs)
  have v: "be_val (bs @ [b]) = 256 * be_val bs + unat b" by (simp add: be_val_def)
  have "0 < be_val bs \<or> 0 < unat b"
  proof (cases "bs = []")
    case True then show ?thesis using snoc.prems by (simp add: unat_gt_0)
  next
    case False
    then have "\<not> list_all (\<lambda>b. b = 0) bs" using snoc.prems by (cases bs) auto
    then show ?thesis using be_val_zero by blast
  qed
  with v snoc show ?case by (cases "bs = []") (auto simp: be_bytes_step)
qed

lemma takeWhile_eq_replicate:
  "takeWhile (\<lambda>b. b = c) xs = replicate (length (takeWhile (\<lambda>b. b = c) xs)) c"
  by (induction xs) auto

lemma be_val_zeros: "be_val (replicate z 0 @ bs) = be_val bs"
  by (induction z) (simp_all add: be_val_def)

lemma base58Loop_no_leading_1: "takeWhile (\<lambda>c. c = CHR ''1'') (base58Loop n []) = []"
proof (cases "n = 0")
  case False
  then show ?thesis using base58Loop_hd [of n] by (cases "base58Loop n []") auto
qed simp

lemma base58Encode_eq:
  assumes "data \<noteq> []"
  shows "base58Encode data =
    Inr (replicate (length (takeWhile (\<lambda>b. b = 0) data)) CHR ''1'' @ base58Loop (be_val data) [])"
  using assms hexPrefix_toHex [of 0 data] by (simp add: base58Encode_def be_val_def)

lemma base58Decode_eq: "base58Decode (replicate z CHR ''1'' @ base58Loop n []) = replicate z 0 @ be_bytes n"
  by (simp add: base58Decode_def Let_def takeWhile_append base58Loop_no_leading_1 b58_val_loop)

lemma base58_roundtrip:
  assumes "data \<noteq> []"
  shows "\<exists>s. base58Encode data = Inr s \<and> base58Decode s = data"
proof -
  let ?z = "length (takeWhile (\<lambda>b. b = 0) data)" and ?rest = "dropWhile (\<lambda>b. b = 0) data"
  have data: "data = replicate ?z 0 @ ?rest"
    using takeWhile_dropWhile_id [of "\<lambda>b. b = 0" data] takeWhile_eq_replicate [of 0 data] by metis
  have rest: "?rest = [] \<or> hd ?rest \<noteq> 0" using hd_dropWhile [of "\<lambda>b. b = 0" data] by blast
  have "be_val data = be_val ?rest" by (subst data) (rule be_val_zeros)
  then have "base58Decode (replicate ?z CHR ''1'' @ base58Loop (be_val data) []) = data"
    using be_bytes_be_val [OF rest] data base58Decode_eq by metis
  then show ?thesis using base58Encode_eq [OF assms] by blast
qed

section \<open>Addresses\<close>

lemma hash_sizes_hash160: "hash_sizes C \<Longrightarrow> length (hash160 C x) = 20"
  by (simp add: hash_sizes_def hash160_def)

lemma words5_bound: "\<forall>d \<in> set (convertBits prog 8 5 True). unat d < 32"
  using convertBits_bound [of 5 _ prog 8 True] by auto

lemma pubkeyToP2WPKH_with: "pubkeyToP2WPKH C pk = bech32With 1 ''grd'' (0 # convertBits (hash160 C pk) 8 5 True)"
  by (simp add: pubkeyToP2WPKH_def encoders_with GARUDA_bech32_def)

lemma pubkeyToP2PQH_with: "pubkeyToP2PQH C pk = bech32With 0x2bc830a3 ''grd'' (2 # convertBits (sha256 C pk) 8 5 True)"
  by (simp add: pubkeyToP2PQH_def pubkeyHashToP2PQH_def encoders_with GARUDA_bech32_def)

lemma hexDigit_lineEnd: "n < 16 \<Longrightarrow> \<not> lineEnd (hexDigit n)"
  by (drule less_16_cases) (auto simp: lineEnd_def hexDigit_def)

lemma matchPairs_toHex: "matchPairs (toHex bs) = map byteHex bs"
proof (induction bs)
  case (Cons b bs)
  have "unat b < 256" using unsigned_less [of b] by simp
  then have "\<not> lineEnd (hexDigit (unat b div 16))" "\<not> lineEnd (hexDigit (unat b mod 16))"
    by (intro hexDigit_lineEnd, simp add: less_mult_imp_div_less)+
  with Cons show ?case by (simp add: toHex_def byteHex_digits)
qed (simp add: toHex_def)

text \<open>A stand-in for the primitives with the documented sizes, used to run the definitions.\<close>

definition sample_crypto :: crypto where
  "sample_crypto =
    \<lparr>sha256 = (\<lambda>x. replicate 32 (of_nat (length x))), ripemd160 = (\<lambda>x. replicate 20 (of_nat (length x))),
     getPublicKey = (\<lambda>k. if length k = 32 then Inr (2 # k) else Inl (Error ''Expected valid private key'')),
     signDER = (\<lambda>h k. Inr (0x30 # h @ k)), keygen = (\<lambda>seed. (seed, seed)), mldsa_sign = (\<lambda>h k. replicate 4627 7)\<rparr>"

lemma sample_crypto_sizes: "hash_sizes sample_crypto"
  by (simp add: hash_sizes_def sample_crypto_def)

section \<open>Properties\<close>

text \<open>C3. Addresses round-trip to scripts: the reader turns the P2WPKH address of a key into the
  version-0 program of its \<open>hash160\<close>, and its P2PQH address into the version-2 program of its
  SHA-256, for hash functions with digests of 20 and 32 bytes.\<close>

theorem address_script_roundtrip:
  assumes "hash_sizes C"
  shows "addressToScript (pubkeyToP2WPKH C pk) = Inr ([0x00, 0x14] @ hash160 C pk) \<and>
    addressToScript (pubkeyToP2PQH C pk) = Inr ([0x52, 0x20] @ sha256 C pk)"
proof
  have "length (hash160 C pk) = 20" "length (sha256 C pk) = 32"
    using assms by (simp_all add: hash_sizes_hash160) (simp add: hash_sizes_def)
  then show "addressToScript (pubkeyToP2WPKH C pk) = Inr ([0x00, 0x14] @ hash160 C pk)"
    and "addressToScript (pubkeyToP2PQH C pk) = Inr ([0x52, 0x20] @ sha256 C pk)"
    by (simp_all add: pubkeyToP2WPKH_with pubkeyToP2PQH_with addressToScript_with toUint8_def)
qed

theorem address_script_roundtrip_witness:
  "addressToScript (pubkeyToP2WPKH sample_crypto [2, 3]) = Inr ([0x00, 0x14] @ hash160 sample_crypto [2, 3]) \<and>
    addressToScript (pubkeyToP2PQH sample_crypto [2, 3]) = Inr ([0x52, 0x20] @ sha256 sample_crypto [2, 3])"
  by (rule address_script_roundtrip [OF sample_crypto_sizes])

text \<open>C8. The extension's reader drops the witness version. For P2WPKH addresses it agrees with
  the mobile reader; for every P2PQH address it returns a version-0 program of 32 bytes, which
  is another script than the one that the address stands for.\<close>

theorem ext_address_loses_version:
  assumes "hash_sizes C"
  shows "ext_addressToScript (pubkeyToP2WPKH C pk) = addressToScript (pubkeyToP2WPKH C pk) \<and>
    ext_addressToScript (pubkeyToP2PQH C pk) = Inr ([0x00, 0x20] @ sha256 C pk) \<and>
    ext_addressToScript (pubkeyToP2PQH C pk) \<noteq> addressToScript (pubkeyToP2PQH C pk)"
proof -
  have "length (hash160 C pk) = 20" "length (sha256 C pk) = 32"
    using assms by (simp_all add: hash_sizes_hash160) (simp add: hash_sizes_def)
  then show ?thesis
    by (simp add: pubkeyToP2WPKH_with pubkeyToP2PQH_with addressToScript_with ext_addressToScript_with toUint8_def)
qed

theorem ext_address_loses_version_witness:
  "ext_addressToScript (pubkeyToP2PQH sample_crypto [5]) = Inr ([0x00, 0x20] @ sha256 sample_crypto [5]) \<and>
   ext_addressToScript (pubkeyToP2PQH sample_crypto [5]) \<noteq> addressToScript (pubkeyToP2PQH sample_crypto [5])"
  using ext_address_loses_version [OF sample_crypto_sizes, of "[5]"] by blast

text \<open>C6. A generated phrase is accepted by \<open>validateMnemonic\<close>, and different random bytes give
  different phrases, so the phrase keeps all 192 bits of entropy.\<close>

theorem mnemonic_generate_validate:
  assumes "length e = 24" "length e' = 24"
  shows "validateMnemonic (generateMnemonic e) \<and> (generateMnemonic e = generateMnemonic e' \<longleftrightarrow> e = e')"
  using assms validate_generated generate_inject [of e e'] by fastforce

theorem mnemonic_generate_validate_witness:
  "validateMnemonic (generateMnemonic (replicate 24 7)) \<and>
   generateMnemonic (replicate 24 7) \<noteq> generateMnemonic (replicate 23 7 @ [8])"
  using mnemonic_generate_validate [of "replicate 24 7" "replicate 23 7 @ [8]"] by (simp add: numeral_eq_Suc)

text \<open>C10. The messages hashed for the keys of one phrase are pairwise different: over the account
  indices of the classical keys, over those of the quantum keys, and between the two kinds.\<close>

theorem derivation_separates:
  "(utf8 (keyPhrase m i) = utf8 (keyPhrase m j) \<longleftrightarrow> i = j) \<and>
   (utf8 (quantumPhrase m i) = utf8 (quantumPhrase m j) \<longleftrightarrow> i = j) \<and>
   utf8 (keyPhrase m i) \<noteq> utf8 (quantumPhrase m j)"
  using utf8_inject keyPhrase_inject quantumPhrase_inject phrases_separate by metis

text \<open>C11. The extension and the mobile wallet derive the same private key, public key and address
  from a phrase and an index, and fail on the same inputs with the same error.\<close>

theorem wallets_derive_same_keys:
  "map_sum id (\<lambda>k. (ek_privateKey k, ek_publicKey k, ek_address k)) (ext_deriveKey C mnemonic acc i) =
   map_sum id (\<lambda>k. (dk_privateKey k, dk_publicKey k, dk_address k)) (deriveKey C mnemonic i)"
  by (cases "getPublicKey C (sha256 C (utf8 (keyPhrase mnemonic i)))")
     (simp_all add: ext_deriveKey_def deriveKey_def keyPhrase_def Let_def)

text \<open>C12. The WIF export of a key always succeeds, and reading the Base58 text back gives the
  network byte, the key, the compression byte and the four checksum bytes.\<close>

theorem wif_roundtrip:
  "\<exists>s. privateKeyToWIF C privkey = Inr s \<and>
    base58Decode s = 239 # privkey @ 1 # take 4 (sha256d C (239 # privkey @ [1]))"
  using base58_roundtrip [of "239 # privkey @ 1 # take 4 (sha256d C (239 # privkey @ [1]))"]
  by (simp add: privateKeyToWIF_def GARUDA_wif_def Let_def)

text \<open>C13. Importing a private key that was exported in hexadecimal derives the public key and the
  address of that very key.\<close>

theorem import_exported_key:
  assumes "privateKey \<noteq> []"
  shows "deriveKeyFromPrivate C (toHex privateKey) =
    rbind (getPublicKey C privateKey) (\<lambda>pk. Inr (pubkeyToP2WPKH C pk, toHex pk))"
  using assms by (simp add: deriveKeyFromPrivate_def matchPairs_toHex parse_byteHex comp_def)

theorem import_exported_key_witness:
  "deriveKeyFromPrivate sample_crypto (toHex (replicate 32 9)) =
    Inr (pubkeyToP2WPKH sample_crypto (2 # replicate 32 9), toHex (2 # replicate 32 9))"
  using import_exported_key [of "replicate 32 9" sample_crypto] by (simp add: sample_crypto_def)

end
