(* ===== verification/Transaction.thy ===== *)
theory Transaction
  imports Keys
begin

text \<open>
  Building and signing transactions: \<open>buildAndSignTx\<close> and \<open>buildAndSignQuantumTx\<close> of
  \<^verbatim>\<open>src/mobile/utils/wallet-crypto.ts\<close> and of \<^verbatim>\<open>src/extension/src/crypto/wallet.ts\<close>.
  They are compared with a reference reader of the segregated-witness wire format and with
  the signature digest of BIP143, both written over the fields of the transaction.

  Amounts (\<open>value\<close>) and output indices are integral JavaScript numbers, so \<open>BigInt(value)\<close>
  does not throw.
\<close>

section \<open>Inputs and outputs\<close>

record UTXO =
  txid :: string
  vout :: int
  utxo_value :: int

record TxOutput =
  out_address :: "string option"
  out_opreturn :: "string option"
  out_value :: int

text \<open>The script of an output; \<open>o.address!\<close> without an address is a property of \<open>undefined\<close>.\<close>

definition outScript :: "TxOutput \<Rightarrow> byte list result" where
  "outScript out =
    (case out_opreturn out of
       Some h \<Rightarrow> (let data = fromHex h in Inr ([0x6a, of_nat (length data)] @ data))
     | None \<Rightarrow> (case out_address out of None \<Rightarrow> Inl TypeError | Some a \<Rightarrow> addressToScript a))"

definition ext_outScript :: "TxOutput \<Rightarrow> byte list result" where
  "ext_outScript out =
    (case out_opreturn out of
       Some h \<Rightarrow> (let data = fromHex h in Inr ([0x6a, of_nat (length data)] @ data))
     | None \<Rightarrow> (case out_address out of None \<Rightarrow> Inl TypeError | Some a \<Rightarrow> ext_addressToScript a))"

text \<open>The extension's quantum builder reads the address inline: a character outside the set
  gives position -1, which the byte array stores as 255.\<close>

definition ext_quantumOutScript :: "TxOutput \<Rightarrow> byte list result" where
  "ext_quantumOutScript out =
    (case out_opreturn out of
       Some h \<Rightarrow> (let data = fromHex h in Inr ([0x6a, of_nat (length data)] @ data))
     | None \<Rightarrow> (case out_address out of None \<Rightarrow> Inl TypeError
        | Some a \<Rightarrow>
            (let data = map (indexOf CHARSET) (dataPart a);
                 witnessVer = (if data = [] then None else Some (hd data));
                 prog = map toUint8 (convertBits (map word_of_int (tl data)) 5 8 False)
             in Inr ([versionByte witnessVer, of_nat (length prog)] @ prog))))"

definition encodeOutputs :: "TxOutput list \<Rightarrow> byte list list \<Rightarrow> byte list list" where
  "encodeOutputs outputs outScripts =
    map2 (\<lambda>out s. cat [writeLE64 (out_value out), writeVarInt (length s), s]) outputs outScripts"

definition outpoint :: "UTXO \<Rightarrow> byte list" where
  "outpoint inp = cat [rev (fromHex (txid inp)), writeLE32 (vout inp)]"

fun prevoutsAndSeqs :: "UTXO list \<Rightarrow> byte list \<Rightarrow> byte list \<Rightarrow> byte list \<times> byte list" where
  "prevoutsAndSeqs [] allPrevouts allSeqs = (allPrevouts, allSeqs)"
| "prevoutsAndSeqs (inp # inputs) allPrevouts allSeqs =
     prevoutsAndSeqs inputs (cat [allPrevouts, rev (fromHex (txid inp)), writeLE32 (vout inp)])
       (cat [allSeqs, [0xff, 0xff, 0xff, 0xff]])"

text \<open>The bytes signed for one input.\<close>

definition preimage ::
  "byte list \<Rightarrow> byte list \<Rightarrow> byte list \<Rightarrow> byte list \<Rightarrow> UTXO \<Rightarrow> byte list" where
  "preimage hashPrevouts hashSequence hashOutputs scriptCode inp =
    cat [writeLE32 2, hashPrevouts, hashSequence, outpoint inp,
         writeVarInt (length scriptCode), scriptCode, writeLE64 (utxo_value inp),
         [0xff, 0xff, 0xff, 0xff], hashOutputs, writeLE32 0, [0x01, 0x00, 0x00, 0x00]]"

fun inputsSection :: "UTXO list \<Rightarrow> byte list \<Rightarrow> byte list" where
  "inputsSection [] acc = acc"
| "inputsSection (inp # inputs) acc =
     inputsSection inputs
       (cat [acc, rev (fromHex (txid inp)), writeLE32 (vout inp), [0x00], [0xff, 0xff, 0xff, 0xff]])"

fun outputsSection :: "byte list list \<Rightarrow> byte list \<Rightarrow> byte list" where
  "outputsSection [] acc = acc"
| "outputsSection (e # es) acc = outputsSection es (cat [acc, e])"

fun witnessItems :: "byte list list \<Rightarrow> byte list \<Rightarrow> byte list" where
  "witnessItems [] acc = acc"
| "witnessItems (item # w) acc = witnessItems w (cat [acc, writeVarInt (length item), item])"

fun witnessSection :: "byte list list list \<Rightarrow> byte list \<Rightarrow> byte list" where
  "witnessSection [] acc = acc"
| "witnessSection (w # ws) acc = witnessSection ws (witnessItems w (cat [acc, writeVarInt (length w)]))"

definition serializeTx :: "UTXO list \<Rightarrow> byte list list \<Rightarrow> byte list list list \<Rightarrow> byte list" where
  "serializeTx inputs encodedOutputs witnesses =
    cat [writeLE32 2, [0x00, 0x01],
         inputsSection inputs (writeVarInt (length inputs)),
         outputsSection encodedOutputs (writeVarInt (length encodedOutputs)),
         witnessSection witnesses [], writeLE32 0]"

section \<open>The builders\<close>

text \<open>The common body of the four builders, over the script of an output, the script code and
  the signature of a digest.\<close>

definition buildWith ::
  "crypto \<Rightarrow> (TxOutput \<Rightarrow> byte list result) \<Rightarrow> byte list \<Rightarrow> (byte list \<Rightarrow> byte list list result)
    \<Rightarrow> UTXO list \<Rightarrow> TxOutput list \<Rightarrow> string result" where
  "buildWith C script scriptCode stack inputs outputs =
    rbind (rmap script outputs) (\<lambda>outScripts.
      let encodedOutputs = encodeOutputs outputs outScripts;
          (allPrevouts, allSeqs) = prevoutsAndSeqs inputs [] [];
          hashPrevouts = sha256d C allPrevouts;
          hashSequence = sha256d C allSeqs;
          hashOutputs = sha256d C (cat encodedOutputs)
      in rbind (rmap (\<lambda>inp. stack (sha256d C (preimage hashPrevouts hashSequence hashOutputs scriptCode inp))) inputs)
           (\<lambda>witnesses. Inr (toHex (serializeTx inputs encodedOutputs witnesses))))"

definition p2wpkhScriptCode :: "crypto \<Rightarrow> byte list \<Rightarrow> byte list" where
  "p2wpkhScriptCode C publicKey = [0x76, 0xa9, 0x14] @ hash160 C publicKey @ [0x88, 0xac]"

definition p2pqhScriptCode :: "crypto \<Rightarrow> byte list \<Rightarrow> byte list" where
  "p2pqhScriptCode C publicKey = [0x52, 0x20] @ sha256 C publicKey"

definition buildAndSignTx ::
  "crypto \<Rightarrow> UTXO list \<Rightarrow> TxOutput list \<Rightarrow> byte list \<Rightarrow> byte list \<Rightarrow> string result" where
  "buildAndSignTx C inputs outputs privateKey publicKey =
    buildWith C outScript (p2wpkhScriptCode C publicKey)
      (\<lambda>sigHash. rbind (signDER C sigHash privateKey) (\<lambda>derSig. Inr [derSig @ [0x01], publicKey]))
      inputs outputs"

definition buildAndSignQuantumTx ::
  "crypto \<Rightarrow> UTXO list \<Rightarrow> TxOutput list \<Rightarrow> byte list \<Rightarrow> byte list \<Rightarrow> string result" where
  "buildAndSignQuantumTx C inputs outputs secretKey publicKey =
    buildWith C outScript (p2pqhScriptCode C publicKey)
      (\<lambda>sigHash. Inr [mldsa_sign C sigHash secretKey, publicKey])
      inputs outputs"

definition ext_buildAndSignTx ::
  "crypto \<Rightarrow> UTXO list \<Rightarrow> TxOutput list \<Rightarrow> byte list \<Rightarrow> byte list \<Rightarrow> string result" where
  "ext_buildAndSignTx C inputs outputs privateKey publicKey =
    buildWith C ext_outScript (p2wpkhScriptCode C publicKey)
      (\<lambda>sigHash. rbind (signDER C sigHash privateKey) (\<lambda>derSig. Inr [derSig @ [0x01], publicKey]))
      inputs outputs"

definition ext_buildAndSignQuantumTx ::
  "crypto \<Rightarrow> UTXO list \<Rightarrow> TxOutput list \<Rightarrow> byte list \<Rightarrow> byte list \<Rightarrow> string result" where
  "ext_buildAndSignQuantumTx C inputs outputs secretKey publicKey =
    buildWith C ext_quantumOutScript (p2pqhScriptCode C publicKey)
      (\<lambda>sigHash. Inr [mldsa_sign C sigHash secretKey, publicKey])
      inputs outputs"

section \<open>Reference: the wire format\<close>

type_synonym raw_in = "byte list \<times> int \<times> byte list \<times> int"   \<comment> \<open>hash, index, script, sequence\<close>
type_synonym raw_out = "int \<times> byte list"

record raw_tx =
  rt_version :: int
  rt_ins :: "raw_in list"
  rt_outs :: "raw_out list"
  rt_wits :: "byte list list list"
  rt_locktime :: int

definition encPair :: "('a \<Rightarrow> byte list) \<Rightarrow> ('b \<Rightarrow> byte list) \<Rightarrow> 'a \<times> 'b \<Rightarrow> byte list" where
  "encPair e1 e2 p = e1 (fst p) @ e2 (snd p)"

definition decPair ::
  "(byte list \<Rightarrow> ('a \<times> byte list) option) \<Rightarrow> (byte list \<Rightarrow> ('b \<times> byte list) option)
    \<Rightarrow> byte list \<Rightarrow> (('a \<times> 'b) \<times> byte list) option" where
  "decPair d1 d2 bs =
    Option.bind (d1 bs) (\<lambda>(x, r). Option.bind (d2 r) (\<lambda>(y, s). Some ((x, y), s)))"

definition encList :: "('a \<Rightarrow> byte list) \<Rightarrow> 'a list \<Rightarrow> byte list" where
  "encList e xs = writeVarInt (length xs) @ concat (map e xs)"

definition decList :: "(byte list \<Rightarrow> ('a \<times> byte list) option) \<Rightarrow> byte list \<Rightarrow> ('a list \<times> byte list) option" where
  "decList d bs = Option.bind (readVarInt bs) (\<lambda>(n, r). readMany d n r)"

definition readBytes :: "nat \<Rightarrow> byte list \<Rightarrow> (byte list \<times> byte list) option" where
  "readBytes n bs = (if length bs < n then None else Some (take n bs, drop n bs))"

definition encIn :: "raw_in \<Rightarrow> byte list" where
  "encIn = encPair (\<lambda>h. h) (encPair writeLE32 (encPair writeVarBytes writeLE32))"

definition decIn :: "byte list \<Rightarrow> (raw_in \<times> byte list) option" where
  "decIn = decPair (readBytes 32) (decPair (readLE 4) (decPair readVarBytes (readLE 4)))"

definition encOut :: "raw_out \<Rightarrow> byte list" where
  "encOut = encPair writeLE64 writeVarBytes"

definition decOut :: "byte list \<Rightarrow> (raw_out \<times> byte list) option" where
  "decOut = decPair (readLE 8) readVarBytes"

definition parseTx :: "byte list \<Rightarrow> raw_tx option" where
  "parseTx bs =
    Option.bind (readLE 4 bs) (\<lambda>(ver, r1).
    Option.bind (readBytes 2 r1) (\<lambda>(flag, r2).
    if flag \<noteq> [0x00, 0x01] then None else
    Option.bind (decList decIn r2) (\<lambda>(ins, r3).
    Option.bind (decList decOut r3) (\<lambda>(outs, r4).
    Option.bind (readMany (decList readVarBytes) (length ins) r4) (\<lambda>(wits, r5).
    Option.bind (readLE 4 r5) (\<lambda>(lock, r6).
    if r6 \<noteq> [] then None
    else Some \<lparr>rt_version = ver, rt_ins = ins, rt_outs = outs, rt_wits = wits, rt_locktime = lock\<rparr>))))))"

text \<open>BIP143: the digest of input \<open>i\<close> for \<open>SIGHASH_ALL\<close>, over the fields of the transaction.\<close>

definition bip143 :: "crypto \<Rightarrow> raw_tx \<Rightarrow> nat \<Rightarrow> byte list \<Rightarrow> int \<Rightarrow> byte list" where
  "bip143 C tx i scriptCode amount =
    (case rt_ins tx ! i of (h, n, s, q) \<Rightarrow>
      sha256d C
       (writeLE32 (rt_version tx)
        @ sha256d C (concat (map (\<lambda>(h, n, s, q). h @ writeLE32 n) (rt_ins tx)))
        @ sha256d C (concat (map (\<lambda>(h, n, s, q). writeLE32 q) (rt_ins tx)))
        @ h @ writeLE32 n @ writeVarBytes scriptCode @ writeLE64 amount @ writeLE32 q
        @ sha256d C (concat (map encOut (rt_outs tx)))
        @ writeLE32 (rt_locktime tx) @ writeLE32 1))"

section \<open>Codecs of the wire format\<close>

lemma codec_pair:
  assumes "codec e1 d1 ok1" "codec e2 d2 ok2"
  shows "codec (encPair e1 e2) (decPair d1 d2) (\<lambda>p. ok1 (fst p) \<and> ok2 (snd p))"
  by unfold_locales
    (simp add: encPair_def decPair_def codec.dec_enc [OF assms(1)] codec.dec_enc [OF assms(2)])

lemma codec_list:
  assumes "codec e d ok1"
  shows "codec (encList e) (decList d) (\<lambda>xs. length xs < 2 ^ 32 \<and> (\<forall>x \<in> set xs. ok1 x))"
  by unfold_locales
    (simp add: encList_def decList_def varint.dec_enc codec.readMany_enc [OF assms])

interpretation hash: codec "\<lambda>h. h" "readBytes 32" "\<lambda>h. length h = 32"
  by unfold_locales (simp add: readBytes_def)

interpretation txin: codec encIn decIn
  "\<lambda>(h, n, s, q). length h = 32 \<and> 0 \<le> n \<and> n < 2 ^ 32 \<and> length s < 2 ^ 32 \<and> 0 \<le> q \<and> q < 2 ^ 32"
  using codec_pair [OF hash.codec_axioms codec_pair [OF le32.codec_axioms codec_pair [OF varbytes.codec_axioms le32.codec_axioms]]]
  unfolding encIn_def decIn_def by (simp add: case_prod_unfold conj_assoc)

interpretation txout: codec encOut decOut "\<lambda>(v, s). 0 \<le> v \<and> v < 2 ^ 64 \<and> length s < 2 ^ 32"
  using codec_pair [OF le64.codec_axioms varbytes.codec_axioms]
  unfolding encOut_def decOut_def by (simp add: case_prod_unfold conj_assoc)

interpretation stack: codec "encList writeVarBytes" "decList readVarBytes"
  "\<lambda>w. length w < 2 ^ 32 \<and> (\<forall>x \<in> set w. length x < 2 ^ 32)"
  by (rule codec_list [OF varbytes.codec_axioms])

section \<open>The sections of a transaction\<close>

definition rawIn :: "UTXO \<Rightarrow> raw_in" where
  "rawIn inp = (rev (fromHex (txid inp)), vout inp, [], 0xffffffff)"

definition rawTx :: "UTXO list \<Rightarrow> raw_out list \<Rightarrow> byte list list list \<Rightarrow> raw_tx" where
  "rawTx inputs outs wits =
    \<lparr>rt_version = 2, rt_ins = map rawIn inputs, rt_outs = outs, rt_wits = wits, rt_locktime = 0\<rparr>"

lemma sequence_bytes: "writeLE32 0xffffffff = [0xff, 0xff, 0xff, 0xff]" "writeLE32 1 = [0x01, 0x00, 0x00, 0x00]"
  by (simp_all add: writeLE32_loop writeLE_loop_24)

lemma empty_script: "writeVarBytes [] = [0]"
  by (simp add: writeVarBytes_def writeVarInt_def)

lemma prevoutsAndSeqs_eq:
  "prevoutsAndSeqs inputs a b =
    (a @ concat (map outpoint inputs), b @ concat (map (\<lambda>_. writeLE32 0xffffffff) inputs))"
  by (induction inputs arbitrary: a b) (simp_all add: cat_def outpoint_def sequence_bytes)

lemma inputsSection_eq: "inputsSection inputs acc = acc @ concat (map (encIn \<circ> rawIn) inputs)"
  by (induction inputs arbitrary: acc)
    (simp_all add: cat_def encIn_def encPair_def rawIn_def empty_script sequence_bytes)

lemma outputsSection_eq: "outputsSection es acc = acc @ concat es"
  by (induction es arbitrary: acc) (simp_all add: cat_def)

lemma witnessItems_eq: "witnessItems w acc = acc @ concat (map writeVarBytes w)"
  by (induction w arbitrary: acc) (simp_all add: cat_def writeVarBytes_def)

lemma witnessSection_eq: "witnessSection ws acc = acc @ concat (map (encList writeVarBytes) ws)"
  by (induction ws arbitrary: acc) (simp_all add: cat_def witnessItems_eq encList_def)

lemma encodeOutputs_eq: "encodeOutputs outputs scripts = map encOut (zip (map out_value outputs) scripts)"
  by (simp add: encodeOutputs_def cat_def encOut_def encPair_def writeVarBytes_def zip_map1 case_prod_unfold comp_def)

lemma serializeTx_eq:
  "serializeTx inputs (map encOut outs) wits =
    writeLE32 2 @ [0x00, 0x01] @ encList encIn (map rawIn inputs) @ encList encOut outs
      @ concat (map (encList writeVarBytes) wits) @ writeLE32 0"
  by (simp add: serializeTx_def cat_def inputsSection_eq outputsSection_eq witnessSection_eq encList_def)

text \<open>Sizes for which the fields of the format do not overflow.\<close>

definition wf_input :: "UTXO \<Rightarrow> bool" where
  "wf_input inp \<longleftrightarrow> length (fromHex (txid inp)) = 32 \<and> 0 \<le> vout inp \<and> vout inp < 2 ^ 32"

definition wf_stack :: "byte list list \<Rightarrow> bool" where
  "wf_stack w \<longleftrightarrow> length w < 2 ^ 32 \<and> (\<forall>x \<in> set w. length x < 2 ^ 32)"

definition wf_out :: "raw_out \<Rightarrow> bool" where
  "wf_out out \<longleftrightarrow> 0 \<le> fst out \<and> fst out < 2 ^ 64 \<and> length (snd out) < 2 ^ 32"

lemma parse_serialized:
  assumes "\<forall>inp \<in> set inputs. wf_input inp" "length inputs < 2 ^ 32"
    and "\<forall>out \<in> set outs. wf_out out" "length outs < 2 ^ 32"
    and "\<forall>w \<in> set wits. wf_stack w" "length wits = length inputs"
  shows "parseTx (serializeTx inputs (map encOut outs) wits) = Some (rawTx inputs outs wits)"
proof -
  have ins: "decList decIn (encList encIn (map rawIn inputs) @ r) = Some (map rawIn inputs, r)" for r
    using assms(1,2) by (intro codec.dec_enc [OF codec_list [OF txin.codec_axioms]]) (auto simp: rawIn_def wf_input_def)
  have outs: "decList decOut (encList encOut outs @ r) = Some (outs, r)" for r
    using assms(3,4) by (intro codec.dec_enc [OF codec_list [OF txout.codec_axioms]]) (auto simp: wf_out_def)
  have wits: "readMany (decList readVarBytes) (length inputs) (concat (map (encList writeVarBytes) wits) @ r) = Some (wits, r)" for r
    using stack.readMany_enc [of wits r] assms(5,6) by (simp add: wf_stack_def)
  have le: "readLE 4 (writeLE32 n @ r) = Some (n, r)" if "0 \<le> n" "n < 2 ^ 32" for n r
    using that by (intro le32.dec_enc) simp
  show ?thesis
    using le [of 0 "[]"]
    by (simp add: parseTx_def serializeTx_eq le ins outs wits readBytes_def rawTx_def)
qed


section \<open>The builders against the reference\<close>

lemma preimage_bip143:
  assumes "i < length inputs"
  shows "sha256d C (preimage (sha256d C (concat (map outpoint inputs)))
      (sha256d C (concat (map (\<lambda>_. writeLE32 0xffffffff) inputs)))
      (sha256d C (cat (map encOut outs))) sc (inputs ! i))
    = bip143 C (rawTx inputs outs wits) i sc (utxo_value (inputs ! i))"
proof -
  have o: "concat (map ((\<lambda>(h, n, s, q). h @ writeLE32 n) \<circ> rawIn) inputs) = concat (map outpoint inputs)"
    by (rule arg_cong [where f = concat]) (simp add: rawIn_def outpoint_def cat_def)
  have s: "concat (map ((\<lambda>(h, n, s, q). writeLE32 q) \<circ> rawIn) inputs) = concat (map (\<lambda>_. writeLE32 0xffffffff) inputs)"
    by (rule arg_cong [where f = concat]) (simp add: rawIn_def)
  show ?thesis
    using assms o s
    by (simp add: bip143_def rawTx_def preimage_def cat_def rawIn_def outpoint_def writeVarBytes_def sequence_bytes)
qed

text \<open>The witness of every input is what \<open>stack\<close> returns for the BIP143 digest of that input.\<close>

definition signs :: "crypto \<Rightarrow> byte list \<Rightarrow> (byte list \<Rightarrow> byte list list result) \<Rightarrow> UTXO list \<Rightarrow> raw_tx \<Rightarrow> bool" where
  "signs C sc stack inputs tx \<longleftrightarrow>
    (\<forall>i < length inputs. stack (bip143 C tx i sc (utxo_value (inputs ! i))) = Inr (rt_wits tx ! i))"

text \<open>What a run of a builder yields. If it fails, the failure is that of an output script or of
  a signature. If it returns a text, the text reads back as the transaction with exactly the
  given inputs and outputs, and every input is signed for its BIP143 digest.\<close>

definition builds ::
  "crypto \<Rightarrow> (TxOutput \<Rightarrow> byte list result) \<Rightarrow> byte list \<Rightarrow> (byte list \<Rightarrow> byte list list result)
    \<Rightarrow> UTXO list \<Rightarrow> TxOutput list \<Rightarrow> string result \<Rightarrow> bool" where
  "builds C script sc stack inputs outputs r \<longleftrightarrow>
    (case r of
       Inl e \<Rightarrow> (\<exists>out \<in> set outputs. script out = Inl e) \<or> (\<exists>h. stack h = Inl e)
     | Inr hex \<Rightarrow> \<exists>ss tx. rmap script outputs = Inr ss \<and> parseTx (fromHex hex) = Some tx \<and>
         rt_version tx = 2 \<and> rt_locktime tx = 0 \<and>
         rt_ins tx = map rawIn inputs \<and> rt_outs tx = zip (map out_value outputs) ss \<and>
         length (rt_wits tx) = length inputs \<and> signs C sc stack inputs tx)"

lemma buildWith_fails:
  assumes "buildWith C script sc stack inputs outputs = Inl e"
  shows "(\<exists>out \<in> set outputs. script out = Inl e) \<or> (\<exists>h. stack h = Inl e)"
proof (cases "rmap script outputs")
  case (Inl e')
  then show ?thesis using assms rmap_Inl [OF Inl] by (simp add: buildWith_def)
next
  case (Inr ss)
  obtain f where f: "rmap (\<lambda>inp. stack (f inp)) inputs = Inl e"
    using assms Inr by (auto simp: buildWith_def Let_def case_prod_unfold elim: rbind.elims)
  then show ?thesis using rmap_Inl [OF f] by blast
qed

lemma buildWith_builds:
  assumes ins: "\<forall>inp \<in> set inputs. wf_input inp" "length inputs < 2 ^ 32"
    and outs: "\<forall>out \<in> set outputs. 0 \<le> out_value out \<and> out_value out < 2 ^ 64" "length outputs < 2 ^ 32"
    and scripts: "\<forall>out \<in> set outputs. \<forall>s. script out = Inr s \<longrightarrow> length s < 2 ^ 32"
    and stacks: "\<forall>h w. stack h = Inr w \<longrightarrow> wf_stack w"
  shows "builds C script sc stack inputs outputs (buildWith C script sc stack inputs outputs)"
proof (cases "buildWith C script sc stack inputs outputs")
  case (Inl e)
  then show ?thesis using buildWith_fails [OF Inl] by (simp add: builds_def)
next
  case (Inr hex)
  obtain ss wits where ss: "rmap script outputs = Inr ss" and
    w: "rmap (\<lambda>inp. stack (sha256d C (preimage (sha256d C (concat (map outpoint inputs)))
          (sha256d C (concat (map (\<lambda>_. writeLE32 0xffffffff) inputs)))
          (sha256d C (cat (map encOut (zip (map out_value outputs) ss)))) sc inp))) inputs = Inr wits" and
    hex: "hex = toHex (serializeTx inputs (map encOut (zip (map out_value outputs) ss)) wits)"
    using Inr by (auto simp: buildWith_def prevoutsAndSeqs_eq encodeOutputs_eq Let_def)
  let ?outs = "zip (map out_value outputs) ss"
  have len: "length ss = length outputs" "length wits = length inputs"
    using rmap_length [OF ss] rmap_length [OF w] by simp_all
  have wits: "stack (bip143 C (rawTx inputs ?outs wits) i sc (utxo_value (inputs ! i))) = Inr (wits ! i)"
    if "i < length inputs" for i
    using rmap_nth [OF w that] preimage_bip143 [OF that] by simp
  have "\<forall>out \<in> set ?outs. wf_out out"
  proof
    fix out assume "out \<in> set ?outs"
    then obtain i where i: "i < length outputs" "out = (out_value (outputs ! i), ss ! i)"
      using len by (auto simp: in_set_zip)
    with rmap_nth [OF ss i(1)] outs(1) scripts show "wf_out out" by (auto simp: wf_out_def)
  qed
  moreover have "\<forall>x \<in> set wits. wf_stack x"
    using wits stacks len by (metis in_set_conv_nth)
  ultimately have "parseTx (fromHex hex) = Some (rawTx inputs ?outs wits)"
    unfolding hex fromHex_toHex using ins outs(2) len by (intro parse_serialized) simp_all
  with Inr ss wits len show ?thesis by (auto simp: builds_def signs_def rawTx_def)
qed

text \<open>Sizes documented for the signature schemes: a DER signature has at most 72 bytes, an
  ML-DSA-87 signature 4627.\<close>

definition signature_sizes :: "crypto \<Rightarrow> bool" where
  "signature_sizes C \<longleftrightarrow>
    (\<forall>h k d. signDER C h k = Inr d \<longrightarrow> length d \<le> 72) \<and> (\<forall>h k. length (mldsa_sign C h k) = 4627)"

abbreviation ecdsa_stack :: "crypto \<Rightarrow> byte list \<Rightarrow> byte list \<Rightarrow> byte list \<Rightarrow> byte list list result" where
  "ecdsa_stack C sk pk \<equiv> (\<lambda>sigHash. rbind (signDER C sigHash sk) (\<lambda>derSig. Inr [derSig @ [0x01], pk]))"

abbreviation mldsa_stack :: "crypto \<Rightarrow> byte list \<Rightarrow> byte list \<Rightarrow> byte list \<Rightarrow> byte list list result" where
  "mldsa_stack C sk pk \<equiv> (\<lambda>sigHash. Inr [mldsa_sign C sigHash sk, pk])"

definition wf_outputs :: "(TxOutput \<Rightarrow> byte list result) \<Rightarrow> TxOutput list \<Rightarrow> bool" where
  "wf_outputs script outputs \<longleftrightarrow> length outputs < 2 ^ 32 \<and>
    (\<forall>out \<in> set outputs. 0 \<le> out_value out \<and> out_value out < 2 ^ 64 \<and>
      (case script out of Inl _ \<Rightarrow> True | Inr s \<Rightarrow> length s < 2 ^ 32))"

definition wf_inputs :: "UTXO list \<Rightarrow> bool" where
  "wf_inputs inputs \<longleftrightarrow> length inputs < 2 ^ 32 \<and> (\<forall>inp \<in> set inputs. wf_input inp)"

lemma ecdsa_stack_wf:
  assumes "signature_sizes C" "length pk < 2 ^ 32"
  shows "\<forall>h w. ecdsa_stack C sk pk h = Inr w \<longrightarrow> wf_stack w"
proof (intro allI impI)
  fix h w assume "ecdsa_stack C sk pk h = Inr w"
  then obtain d where "signDER C h sk = Inr d" "w = [d @ [0x01], pk]" by auto
  moreover from this assms(1) have "length d \<le> 72" by (auto simp: signature_sizes_def)
  ultimately show "wf_stack w" using assms(2) by (simp add: wf_stack_def)
qed

lemma mldsa_stack_wf:
  assumes "signature_sizes C" "length pk < 2 ^ 32"
  shows "\<forall>h w. mldsa_stack C sk pk h = Inr w \<longrightarrow> wf_stack w"
  using assms by (auto simp: signature_sizes_def wf_stack_def)

lemma buildWith_cong:
  "(\<And>out. out \<in> set outputs \<Longrightarrow> s out = s' out) \<Longrightarrow> buildWith C s sc st ins outputs = buildWith C s' sc st ins outputs"
  using rmap_cong [of outputs s s'] by (simp add: buildWith_def)

lemma rmap_charsetPos_valid: "set cs \<subseteq> set CHARSET \<Longrightarrow> rmap charsetPos cs = Inr (map (indexOf CHARSET) cs)"
  by (induction cs) (auto simp: charsetPos_def indexOf_def Let_def)

definition classical_output :: "TxOutput \<Rightarrow> bool" where
  "classical_output out \<longleftrightarrow> (case out_opreturn out of Some _ \<Rightarrow> True | None \<Rightarrow>
     (case out_address out of None \<Rightarrow> True
      | Some a \<Rightarrow> (case addressToWitnessVersionAndProgram a of Inl _ \<Rightarrow> True | Inr w \<Rightarrow> wa_version w = Some 0)))"

definition readable_output :: "TxOutput \<Rightarrow> bool" where
  "readable_output out \<longleftrightarrow> (case out_opreturn out of Some _ \<Rightarrow> True | None \<Rightarrow>
     (case out_address out of None \<Rightarrow> True | Some a \<Rightarrow> set (dataPart a) \<subseteq> set CHARSET))"

lemma ext_outScript_classical:
  assumes "classical_output out"
  shows "ext_outScript out = outScript out"
proof (cases "out_opreturn out")
  case None
  show ?thesis
  proof (cases "out_address out")
    case (Some a)
    then show ?thesis using None assms
      by (cases "rmap charsetPos (dataPart a)")
         (auto simp: ext_outScript_def outScript_def classical_output_def ext_addressToScript_def addressToScript_def
          ext_addressToWitnessProgram_def addressToWitnessVersionAndProgram_def versionByte_def)
  qed (simp add: ext_outScript_def outScript_def None)
qed (simp add: ext_outScript_def outScript_def)

lemma ext_quantumOutScript_readable:
  assumes "readable_output out"
  shows "ext_quantumOutScript out = outScript out"
  using assms
  by (auto simp: ext_quantumOutScript_def outScript_def readable_output_def addressToScript_def
      addressToWitnessVersionAndProgram_def rmap_charsetPos_valid Let_def split: option.splits)

text \<open>Reference: the data pushed by a script that is one direct push.\<close>

definition directPush :: "byte list \<Rightarrow> byte list option" where
  "directPush s = (case s of [] \<Rightarrow> None
     | n # d \<Rightarrow> if 1 \<le> unat n \<and> unat n \<le> 75 \<and> length d = unat n then Some d else None)"

section \<open>Sample data\<close>

definition sample_inputs :: "UTXO list" where
  "sample_inputs = [\<lparr>txid = replicate 64 CHR ''a'', vout = 0, utxo_value = 5000\<rparr>,
                    \<lparr>txid = replicate 64 CHR ''7'', vout = 3, utxo_value = 700\<rparr>]"

definition sample_outputs :: "TxOutput list" where
  "sample_outputs = [\<lparr>out_address = Some (pubkeyToP2WPKH sample_crypto [2, 3]), out_opreturn = None, out_value = 5600\<rparr>,
                     \<lparr>out_address = None, out_opreturn = Some ''6869'', out_value = 0\<rparr>]"

lemma sample_signature_sizes: "signature_sizes (sample_crypto\<lparr>signDER := \<lambda>h k. Inr (replicate 70 0x30)\<rparr>)"
  by (simp add: signature_sizes_def sample_crypto_def)

lemma sample_wf: "wf_inputs sample_inputs" "wf_outputs outScript sample_outputs"
proof -
  show "wf_inputs sample_inputs"
    by (simp add: wf_inputs_def sample_inputs_def wf_input_def length_fromHex)
  have "outScript (sample_outputs ! 0) = Inr ([0, 20] @ hash160 sample_crypto [2, 3])"
    by (simp add: sample_outputs_def outScript_def pubkeyToP2WPKH_with addressToScript_with
        hash_sizes_hash160 [OF sample_crypto_sizes])
  then show "wf_outputs outScript sample_outputs"
    by (simp add: wf_outputs_def sample_outputs_def outScript_def length_fromHex hash_sizes_hash160 [OF sample_crypto_sizes])
qed

abbreviation sample_signer :: crypto where
  "sample_signer \<equiv> sample_crypto\<lparr>signDER := \<lambda>h k. Inr (replicate 70 0x30)\<rparr>"

lemma dataPart_readable:
  assumes "\<forall>d \<in> set data. unat d < 32"
  shows "set (dataPart (bech32With const hrp data)) \<subseteq> set CHARSET"
  using assms CHARSET_facts(1) by (auto simp: dataPart_with)

lemma sample_outputs_addresses:
  "list_all classical_output sample_outputs" "list_all readable_output sample_outputs"
proof -
  let ?a = "pubkeyToP2WPKH sample_crypto [2, 3]"
  have "addressToWitnessVersionAndProgram ?a = Inr \<lparr>wa_version = Some 0, wa_program = hash160 sample_crypto [2, 3]\<rparr>"
    using read_witness(1) [of 0 1 "''grd''" "hash160 sample_crypto [2, 3]"] by (simp add: pubkeyToP2WPKH_with)
  then show "list_all classical_output sample_outputs" by (simp add: sample_outputs_def classical_output_def)
  have "set (dataPart ?a) \<subseteq> set CHARSET"
    unfolding pubkeyToP2WPKH_with by (rule dataPart_readable) (use words5_bound in auto)
  then show "list_all readable_output sample_outputs" by (simp add: sample_outputs_def readable_output_def)
qed

section \<open>Properties\<close>

text \<open>C1. \<open>buildAndSignTx\<close> refines the wire format and BIP143. It fails only if an output script or
  the signing function fails. Otherwise the text it returns reads back as a version-2 transaction
  that spends exactly the given outpoints in order, pays exactly the given amounts to the scripts
  of the outputs, and carries for every input the signature of the BIP143 digest of that input
  over the P2WPKH script code, followed by the public key.\<close>

theorem buildAndSignTx_correct:
  assumes "signature_sizes C" "length publicKey = 33" "wf_inputs inputs" "wf_outputs outScript outputs"
  shows "builds C outScript (p2wpkhScriptCode C publicKey) (ecdsa_stack C privateKey publicKey) inputs outputs
    (buildAndSignTx C inputs outputs privateKey publicKey)"
  unfolding buildAndSignTx_def
  using assms ecdsa_stack_wf [OF assms(1), of publicKey privateKey]
  by (intro buildWith_builds) (auto simp: wf_inputs_def wf_outputs_def split: sum.splits)

theorem buildAndSignTx_correct_witness:
  "builds sample_signer outScript (p2wpkhScriptCode sample_signer (replicate 33 2))
     (ecdsa_stack sample_signer [1] (replicate 33 2)) sample_inputs sample_outputs
     (buildAndSignTx sample_signer sample_inputs sample_outputs [1] (replicate 33 2))"
  by (rule buildAndSignTx_correct [OF sample_signature_sizes _ sample_wf]) simp





text \<open>C14. An \<open>opreturn\<close> output carries its data as one direct push exactly when the data has at
  most 75 bytes; for longer data the length byte is no push opcode of that length.\<close>

theorem opreturn_push:
  assumes "out_opreturn out = Some h" "fromHex h \<noteq> []"
  shows "\<exists>s. outScript out = Inr (0x6a # s) \<and>
    directPush s = (if length (fromHex h) \<le> 75 then Some (fromHex h) else None)"
proof -
  let ?n = "length (fromHex h)"
  have s: "outScript out = Inr (0x6a # of_nat ?n # fromHex h)" using assms(1) by (simp add: outScript_def Let_def)
  have u: "unat (of_nat ?n :: byte) = ?n mod 256" by (simp add: unat_of_nat)
  show ?thesis
  proof (cases "?n \<le> 75")
    case True
    then have "?n mod 256 = ?n" "1 \<le> ?n" using assms(2) by (simp_all add: Suc_le_eq)
    then show ?thesis using s u True by (auto simp: directPush_def)
  next
    case False
    have "\<not> (?n mod 256 \<le> 75 \<and> ?n = ?n mod 256)" using False by linarith
    then show ?thesis using s u False by (auto simp: directPush_def)
  qed
qed

theorem opreturn_push_witness:
  "outScript \<lparr>out_address = None, out_opreturn = Some ''6869'', out_value = 0\<rparr> = Inr [0x6a, 2, 0x68, 0x69] \<and>
   directPush [2, 0x68, 0x69] = Some [0x68, 0x69]"
proof -
  have "fromHex ''6869'' = [0x68, 0x69]" by code_simp
  then show ?thesis
    using opreturn_push [of "\<lparr>out_address = None, out_opreturn = Some ''6869'', out_value = 0\<rparr>" "''6869''"]
    by (simp add: outScript_def Let_def)
qed

end
