(* ===== verification/Json.thy ===== *)
theory Json
  imports Bytes
begin

text \<open>
  The JSON text that the wallets store and exchange: \<open>JSON.stringify\<close> and \<open>JSON.parse\<close> of
  the language's library, for the values the code hands to them.

  \<^item> A number is a decimal fraction \<open>JNum m k\<close>, of value \<open>m / 10 ^ k\<close>, in lowest terms. The
    numbers the code stores (indices, counts, amounts with at most six decimals) are printed
    without an exponent; a literal with an exponent is outside the model.
  \<^item> An object is the list of its members in insertion order; a repeated member of a text
    replaces the earlier one in place, as \<open>JSON.parse\<close> does.
  \<^item> Characters are code units below 256, so a \<open>\u\<close> escape of a larger code unit is outside the model.
\<close>

section \<open>Values and printing\<close>

datatype json =
    JNull
  | JBool bool
  | JNum int nat
  | JStr string
  | JArr "json list"
  | JObj "(string \<times> json) list"

definition escapeChar :: "char \<Rightarrow> string" where
  "escapeChar c =
    (if c = CHR 0x22 then [CHR 0x5C, CHR 0x22]
     else if c = CHR 0x5C then [CHR 0x5C, CHR 0x5C]
     else if c = CHR 0x08 then [CHR 0x5C, CHR ''b'']
     else if c = CHR 0x0C then [CHR 0x5C, CHR ''f'']
     else if c = CHR 0x0A then [CHR 0x5C, CHR ''n'']
     else if c = CHR 0x0D then [CHR 0x5C, CHR ''r'']
     else if c = CHR 0x09 then [CHR 0x5C, CHR ''t'']
     else if (of_char c :: nat) < 32 then
       [CHR 0x5C, CHR ''u'', CHR ''0'', CHR ''0'', hexDigit (of_char c div 16), hexDigit (of_char c mod 16)]
     else [c])"

definition quote :: "string \<Rightarrow> string" where
  "quote s = CHR 0x22 # concat (map escapeChar s) @ [CHR 0x22]"

definition printNum :: "int \<Rightarrow> nat \<Rightarrow> string" where
  "printNum n k =
    (if n < 0 then ''-'' else []) @ toString10 (nat \<bar>n\<bar> div 10 ^ k) @
    (if k = 0 then [] else ''.'' @ padStart k (CHR ''0'') (toString10 (nat \<bar>n\<bar> mod 10 ^ k)))"

fun stringify :: "json \<Rightarrow> string" where
  "stringify JNull = ''null''"
| "stringify (JBool b) = (if b then ''true'' else ''false'')"
| "stringify (JNum n k) = printNum n k"
| "stringify (JStr s) = quote s"
| "stringify (JArr vs) = ''['' @ join '','' (map stringify vs) @ '']''"
| "stringify (JObj kvs) = ''{'' @ join '','' (map (\<lambda>(k, v). quote k @ '':'' @ stringify v) kvs) @ ''}''"

section \<open>Parsing\<close>

definition json_space :: "char \<Rightarrow> bool" where
  "json_space c \<longleftrightarrow> c = CHR '' '' \<or> c = CHR 0x09 \<or> c = CHR 0x0A \<or> c = CHR 0x0D"

definition skipWs :: "string \<Rightarrow> string" where
  "skipWs s = dropWhile json_space s"

definition unescape :: "char \<Rightarrow> char option" where
  "unescape c =
    (if c = CHR 0x22 then Some (CHR 0x22)
     else if c = CHR 0x5C then Some (CHR 0x5C)
     else if c = CHR ''/'' then Some (CHR ''/'')
     else if c = CHR ''b'' then Some (CHR 0x08)
     else if c = CHR ''f'' then Some (CHR 0x0C)
     else if c = CHR ''n'' then Some (CHR 0x0A)
     else if c = CHR ''r'' then Some (CHR 0x0D)
     else if c = CHR ''t'' then Some (CHR 0x09)
     else None)"

definition hexCode :: "char \<Rightarrow> char \<Rightarrow> char \<Rightarrow> char \<Rightarrow> char option" where
  "hexCode a b c d =
    (case (hexValue a, hexValue b, hexValue c, hexValue d) of
       (Some i, Some j, Some k, Some l) \<Rightarrow>
         (let n = ((i * 16 + j) * 16 + k) * 16 + l in if n < 256 then Some (char_of n) else None)
     | _ \<Rightarrow> None)"

text \<open>The characters after the opening quote, up to and without the closing one.\<close>

function pString :: "string \<Rightarrow> (string \<times> string) option" where
  "pString s =
    (case s of [] \<Rightarrow> None
     | c # r \<Rightarrow>
         if c = CHR 0x22 then Some ([], r)
         else if c = CHR 0x5C then
           (case r of [] \<Rightarrow> None
            | e # r1 \<Rightarrow>
                if e = CHR ''u'' then
                  (case r1 of a # b # c # d # r2 \<Rightarrow>
                     (case hexCode a b c d of None \<Rightarrow> None
                      | Some x \<Rightarrow> map_option (\<lambda>(t, r3). (x # t, r3)) (pString r2))
                   | _ \<Rightarrow> None)
                else (case unescape e of None \<Rightarrow> None
                      | Some x \<Rightarrow> map_option (\<lambda>(t, r3). (x # t, r3)) (pString r1)))
         else if (of_char c :: nat) < 32 then None
         else map_option (\<lambda>(t, r3). (c # t, r3)) (pString r))"
  by pat_completeness auto
termination by (relation "measure length") auto

declare pString.simps [simp del]

definition isDigit :: "char \<Rightarrow> bool" where
  "isDigit c \<longleftrightarrow> 48 \<le> (of_char c :: nat) \<and> (of_char c :: nat) \<le> 57"

definition digits_val :: "string \<Rightarrow> nat" where
  "digits_val s = foldl (\<lambda>n c. 10 * n + (of_char c - 48)) 0 s"

fun lowest :: "int \<Rightarrow> nat \<Rightarrow> int \<times> nat" where
  "lowest n 0 = (n, 0)"
| "lowest n (Suc k) = (if n mod 10 = 0 then lowest (n div 10) k else (n, Suc k))"

definition pNat :: "string \<Rightarrow> (string \<times> string) option" where
  "pNat s =
    (let d = takeWhile isDigit s; r = dropWhile isDigit s
     in if d = [] \<or> (hd d = CHR ''0'' \<and> tl d \<noteq> []) then None else Some (d, r))"

definition pNum :: "string \<Rightarrow> (json \<times> string) option" where
  "pNum s =
    (let neg = (s \<noteq> [] \<and> hd s = CHR ''-''); s1 = (if neg then tl s else s)
     in case pNat s1 of None \<Rightarrow> None
        | Some (d, r) \<Rightarrow>
            (let (f, r') = (if r \<noteq> [] \<and> hd r = CHR ''.'' then (takeWhile isDigit (tl r), dropWhile isDigit (tl r)) else ([], r));
                 n = int (digits_val (d @ f));
                 (n', k) = lowest (if neg then - n else n) (length f)
             in if (r \<noteq> [] \<and> hd r = CHR ''.'' \<and> f = []) \<or> (r' \<noteq> [] \<and> hd r' \<in> set ''eE'') then None
                else Some (JNum n' k, r')))"

definition pLiteral :: "string \<Rightarrow> (json \<times> string) option" where
  "pLiteral s =
    (if take 4 s = ''null'' then Some (JNull, drop 4 s)
     else if take 4 s = ''true'' then Some (JBool True, drop 4 s)
     else if take 5 s = ''false'' then Some (JBool False, drop 5 s)
     else None)"

definition jobj :: "(string \<times> json) list \<Rightarrow> json" where
  "jobj kvs = JObj (foldl (\<lambda>m (k, v). mput k v m) [] kvs)"

text \<open>The fuel bounds the nesting and the number of values; \<open>jsonParse\<close> gives one unit per
  character, which every text that is printed by \<open>stringify\<close> can be read with.\<close>

fun pValue :: "nat \<Rightarrow> string \<Rightarrow> (json \<times> string) option"
  and pElements :: "nat \<Rightarrow> string \<Rightarrow> (json list \<times> string) option"
  and pMembers :: "nat \<Rightarrow> string \<Rightarrow> ((string \<times> json) list \<times> string) option" where
  "pValue 0 s = None"
| "pValue (Suc f) s =
    (case skipWs s of [] \<Rightarrow> None
     | c # r \<Rightarrow>
         if c = CHR 0x22 then map_option (\<lambda>(t, r'). (JStr t, r')) (pString r)
         else if c = CHR ''['' then
           (if skipWs r \<noteq> [] \<and> hd (skipWs r) = CHR '']'' then Some (JArr [], tl (skipWs r))
            else map_option (\<lambda>(vs, r'). (JArr vs, r')) (pElements f r))
         else if c = CHR ''{'' then
           (if skipWs r \<noteq> [] \<and> hd (skipWs r) = CHR ''}'' then Some (JObj [], tl (skipWs r))
            else map_option (\<lambda>(kvs, r'). (jobj kvs, r')) (pMembers f r))
         else if c = CHR ''-'' \<or> isDigit c then pNum (c # r)
         else pLiteral (c # r))"
| "pElements 0 s = None"
| "pElements (Suc f) s =
    (case pValue f s of None \<Rightarrow> None
     | Some (v, r) \<Rightarrow>
         (case skipWs r of [] \<Rightarrow> None
          | c # r' \<Rightarrow>
              if c = CHR '','' then map_option (\<lambda>(vs, r2). (v # vs, r2)) (pElements f r')
              else if c = CHR '']'' then Some ([v], r')
              else None))"
| "pMembers 0 s = None"
| "pMembers (Suc f) s =
    (case skipWs s of [] \<Rightarrow> None
     | q # r0 \<Rightarrow>
         if q \<noteq> CHR 0x22 then None
         else (case pString r0 of None \<Rightarrow> None
          | Some (k, r1) \<Rightarrow>
              (case skipWs r1 of [] \<Rightarrow> None
               | col # r2 \<Rightarrow>
                   if col \<noteq> CHR '':'' then None
                   else (case pValue f r2 of None \<Rightarrow> None
                    | Some (v, r) \<Rightarrow>
                        (case skipWs r of [] \<Rightarrow> None
                         | c # r' \<Rightarrow>
                             if c = CHR '','' then map_option (\<lambda>(kvs, r4). ((k, v) # kvs, r4)) (pMembers f r')
                             else if c = CHR ''}'' then Some ([(k, v)], r')
                             else None)))))"

definition jsonParse :: "string \<Rightarrow> json result" where
  "jsonParse s =
    (case pValue (Suc (length s)) s of None \<Rightarrow> Inl SyntaxError
     | Some (v, r) \<Rightarrow> if skipWs r = [] then Inr v else Inl SyntaxError)"

section \<open>Reading back what is printed\<close>

definition delim :: "string \<Rightarrow> bool" where
  "delim r \<longleftrightarrow> r = [] \<or> hd r \<in> set '',]}''"

fun wf_json :: "json \<Rightarrow> bool" where
  "wf_json (JNum n k) \<longleftrightarrow> \<bar>n\<bar> < 10 ^ 21 \<and> k \<le> 6 \<and> (k = 0 \<or> n mod 10 \<noteq> 0)"
| "wf_json (JArr vs) \<longleftrightarrow> (\<forall>v \<in> set vs. wf_json v)"
| "wf_json (JObj kvs) \<longleftrightarrow> distinct (map fst kvs) \<and> (\<forall>kv \<in> set kvs. wf_json (snd kv))"
| "wf_json _ \<longleftrightarrow> True"

lemma char_hex:
  fixes c :: char
  assumes "(of_char c :: nat) < 256"
  shows "hexCode (CHR ''0'') (CHR ''0'') (hexDigit (of_char c div 16)) (hexDigit (of_char c mod 16)) = Some c"
proof -
  define n where "n = (of_char c :: nat)"
  have "n div 16 < 16" "n mod 16 < 16" using assms by (simp_all add: n_def less_mult_imp_div_less)
  moreover have "n div 16 * 16 + n mod 16 = n" by simp
  moreover have "hexValue (CHR ''0'') = Some 0" by (simp add: hexValue_def)
  moreover have "char_of n = c" by (simp add: n_def)
  ultimately show ?thesis using assms unfolding n_def [symmetric] by (simp add: hexCode_def hexDigit_facts(1) Let_def)
qed

lemma pString_escape: "pString (escapeChar c @ s) = map_option (\<lambda>(t, r). (c # t, r)) (pString s)"
proof -
  have "(of_char c :: nat) < 256" by simp
  note h = char_hex [OF this]
  show ?thesis
    by (subst pString.simps) (simp add: escapeChar_def unescape_def h)
qed

lemma pString_quoted: "pString (concat (map escapeChar s) @ CHR 0x22 # r) = Some (s, r)"
proof (induction s)
  case Nil
  show ?case by (subst pString.simps) simp
next
  case (Cons c s)
  then show ?case by (simp add: pString_escape)
qed

lemma digit_hexDigit: "n < 10 \<Longrightarrow> isDigit (hexDigit n) \<and> of_char (hexDigit n) - (48 :: nat) = n"
proof -
  assume "n < 10"
  then have "n < 16" by simp
  from less_16_cases [OF this] \<open>n < 10\<close> show ?thesis by (auto simp: hexDigit_def isDigit_def)
qed

lemma toString10_facts: "list_all isDigit (toString10 n) \<and> digits_val (toString10 n) = n \<and> toString10 n \<noteq> []
    \<and> (hd (toString10 n) = CHR ''0'' \<longrightarrow> n = 0)"
proof (induction n rule: toString10.induct)
  case (1 n)
  show ?case
  proof (cases "n < 10")
    case True
    have "hexDigit n = CHR ''0'' \<longrightarrow> n = 0" using digit_hexDigit [OF True] by auto
    then show ?thesis using True digit_hexDigit [OF True] by (subst (1 2 3 4) toString10.simps) (simp add: digits_val_def)
  next
    case False
    have d: "n mod 10 < 10" "n div 10 \<noteq> 0" using False by simp_all
    from 1 [OF False] digit_hexDigit [OF d(1)] False d(2) show ?thesis
      by (subst (1 2 3 4) toString10.simps) (simp add: digits_val_def)
  qed
qed

lemma toString10_0: "toString10 0 = ''0''"
  by (simp add: toString10.simps [of 0] hexDigit_def)

lemma digits_foldl: "foldl (\<lambda>n c. 10 * n + (of_char c - 48)) a t = a * 10 ^ length t + digits_val t"
proof (induction t arbitrary: a)
  case (Cons c t)
  show ?case using Cons [of "10 * a + (of_char c - 48)"] Cons [of "of_char c - 48"]
    by (simp add: digits_val_def add_mult_distrib)
qed (simp add: digits_val_def)

lemma digits_val_append: "digits_val (s @ t) = digits_val s * 10 ^ length t + digits_val t"
  using digits_foldl [of "digits_val s" t] by (simp add: digits_val_def)

lemma toString10_length: "n < 10 ^ k \<Longrightarrow> 0 < k \<Longrightarrow> length (toString10 n) \<le> k"
proof (induction k arbitrary: n)
  case (Suc k)
  show ?case
  proof (cases "n < 10")
    case False
    then have "0 < k" using Suc.prems(1) by (cases k) auto
    moreover have "n div 10 < 10 ^ k" using Suc.prems(1) by (simp add: less_mult_imp_div_less)
    ultimately have "length (toString10 (n div 10)) \<le> k" by (intro Suc.IH)
    then show ?thesis using False by (simp add: toString10.simps [of n])
  qed (simp add: toString10.simps [of n])
qed simp

lemma padStart_digits:
  assumes "n < 10 ^ k" "0 < k"
  shows "length (padStart k (CHR ''0'') (toString10 n)) = k" "list_all isDigit (padStart k (CHR ''0'') (toString10 n))"
    "digits_val (padStart k (CHR ''0'') (toString10 n)) = n"
proof -
  have z: "digits_val (replicate j (CHR ''0'')) = 0" for j
    by (induction j) (simp_all add: digits_val_def)
  show "length (padStart k (CHR ''0'') (toString10 n)) = k" using toString10_length [OF assms] by (simp add: padStart_def)
  show "list_all isDigit (padStart k (CHR ''0'') (toString10 n))"
    using toString10_facts [of n] by (auto simp: padStart_def list_all_iff isDigit_def)
  show "digits_val (padStart k (CHR ''0'') (toString10 n)) = n"
    using toString10_facts [of n] by (simp add: padStart_def digits_val_append z)
qed

lemma lowest_id: "k = 0 \<or> n mod 10 \<noteq> 0 \<Longrightarrow> lowest n k = (n, k)"
  by (cases k) auto

lemma takeWhile_digits:
  "list_all isDigit d \<Longrightarrow> r = [] \<or> \<not> isDigit (hd r) \<Longrightarrow> takeWhile isDigit (d @ r) = d \<and> dropWhile isDigit (d @ r) = r"
  by (cases r) (auto simp: list_all_iff takeWhile_append dropWhile_append)

lemma delim_facts:
  assumes "delim r"
  shows "r = [] \<or> \<not> isDigit (hd r)" "r \<noteq> [] \<Longrightarrow> hd r \<noteq> CHR ''.''" "r \<noteq> [] \<Longrightarrow> hd r \<notin> set ''eE''"
  using assms by (auto simp: delim_def isDigit_def)

lemma pNat_print:
  assumes "r = [] \<or> \<not> isDigit (hd r)"
  shows "pNat (toString10 n @ r) = Some (toString10 n, r)"
proof -
  have "\<not> (hd (toString10 n) = CHR ''0'' \<and> tl (toString10 n) \<noteq> [])"
    using toString10_facts [of n] toString10_0 by (cases "n = 0") auto
  then show ?thesis using takeWhile_digits [OF _ assms, of "toString10 n"] toString10_facts [of n]
    by (simp add: pNat_def Let_def)
qed

lemma pNum_print:
  assumes "k = 0 \<or> n mod 10 \<noteq> 0" "delim r"
  shows "pNum (printNum n k @ r) = Some (JNum n k, r)"
proof -
  define a where "a = nat \<bar>n\<bar>"
  define ds where "ds = toString10 (a div 10 ^ k)"
  define f where "f = (if k = 0 then [] else padStart k (CHR ''0'') (toString10 (a mod 10 ^ k)))"
  define rest where "rest = (if k = 0 then [] else CHR ''.'' # f) @ r"
  have ds: "ds \<noteq> []" "list_all isDigit ds" "digits_val ds = a div 10 ^ k"
    using toString10_facts [of "a div 10 ^ k"] by (simp_all add: ds_def)
  have neg: "hd (ds @ x) \<noteq> CHR ''-''" for x using ds(1,2) by (cases ds) (auto simp: isDigit_def)
  have f: "length f = k" "list_all isDigit f" "digits_val f = a mod 10 ^ k"
    using padStart_digits [of "a mod 10 ^ k" k] by (auto simp: f_def digits_val_def)
  have rest: "rest = [] \<or> \<not> isDigit (hd rest)" using delim_facts(1) [OF assms(2)] by (simp add: rest_def isDigit_def)
  have p: "pNat (ds @ rest) = Some (ds, rest)" unfolding ds_def by (rule pNat_print [OF rest])
  have val: "digits_val (ds @ f) = a" using ds(3) f(1,3) by (simp only: digits_val_append div_mult_mod_eq)
  have fr: "takeWhile isDigit (f @ r) = f \<and> dropWhile isDigit (f @ r) = r"
    by (rule takeWhile_digits [OF f(2) delim_facts(1) [OF assms(2)]])
  have s: "printNum n k @ r = (if n < 0 then ''-'' else []) @ ds @ rest"
    by (simp add: printNum_def ds_def rest_def f_def a_def)
  have lo: "lowest (if n < 0 then - int a else int a) k = (n, k)"
    using lowest_id [OF assms(1)] by (simp add: a_def)
  show ?thesis
    unfolding s pNum_def
    using p val fr lo neg [of rest] ds(1) delim_facts(2,3) [OF assms(2)] f(1)
    by (cases "n < 0"; cases "k = 0") (auto simp: Let_def rest_def)
qed


lemma skipWs_id: "s \<noteq> [] \<Longrightarrow> \<not> json_space (hd s) \<Longrightarrow> skipWs s = s"
  by (cases s) (simp_all add: skipWs_def)

lemma printNum_hd: "\<exists>c t. printNum n k = c # t \<and> (c = CHR ''-'' \<or> isDigit c)"
proof -
  obtain c t where ct: "toString10 (nat \<bar>n\<bar> div 10 ^ k) = c # t" "isDigit c"
    using toString10_facts [of "nat \<bar>n\<bar> div 10 ^ k"] by (cases "toString10 (nat \<bar>n\<bar> div 10 ^ k)") auto
  then show ?thesis by (auto simp: printNum_def)
qed

text \<open>The first character decides how a value is read.\<close>

lemma stringify_hd: "\<exists>c t. stringify v = c # t \<and> \<not> json_space c \<and> c \<notin> set '']}''"
proof (cases v)
  case (JNum n k)
  then show ?thesis using printNum_hd [of n k] by (auto simp: json_space_def isDigit_def)
qed (auto simp: json_space_def quote_def)

lemma stringify_length: "0 < length (stringify v)"
  using stringify_hd [of v] by auto

definition reads :: "json \<Rightarrow> bool" where
  "reads v \<longleftrightarrow> (\<forall>f r. delim r \<longrightarrow> length (stringify v) \<le> f \<longrightarrow> pValue f (stringify v @ r) = Some (v, r))"

lemma pElements_print:
  "\<forall>v \<in> set vs. reads v \<Longrightarrow> vs \<noteq> [] \<Longrightarrow> length (join '','' (map stringify vs)) < f \<Longrightarrow>
    pElements f (join '','' (map stringify vs) @ CHR '']'' # r) = Some (vs, r)"
proof (induction vs arbitrary: f)
  case (Cons v vs)
  obtain f' where f: "f = Suc f'" using Cons.prems(3) by (cases f) auto
  show ?case
  proof (cases "vs = []")
    case True
    have "pValue f' (stringify v @ CHR '']'' # r) = Some (v, CHR '']'' # r)"
      using Cons.prems True f by (auto simp: reads_def delim_def)
    then show ?thesis using True f by (simp add: skipWs_def json_space_def)
  next
    case False
    let ?rest = "join '','' (map stringify vs)"
    have l: "length (stringify v) + 1 + length ?rest < f" using Cons.prems(3) False by (simp add: join_Cons)
    then have "length ?rest < f'" using f stringify_length [of v] by linarith
    with Cons.IH [of f'] Cons.prems(1) False have ih: "pElements f' (?rest @ CHR '']'' # r) = Some (vs, r)" by simp
    have "pValue f' (stringify v @ CHR '','' # ?rest @ CHR '']'' # r) = Some (v, CHR '','' # ?rest @ CHR '']'' # r)"
      using Cons.prems(1) l f by (auto simp: reads_def delim_def)
    then show ?thesis using False f ih by (simp add: join_Cons skipWs_def json_space_def)
  qed
qed simp

abbreviation member :: "string \<times> json \<Rightarrow> string" where
  "member kv \<equiv> (case kv of (k, v) \<Rightarrow> quote k @ '':'' @ stringify v)"

lemma pMembers_step:
  assumes "reads v" "length (stringify v) \<le> f" "delim (c # r)"
  shows "pMembers (Suc f) (member (k, v) @ c # r) =
    (if c = CHR '','' then map_option (\<lambda>(kvs, r4). ((k, v) # kvs, r4)) (pMembers f r)
     else if c = CHR ''}'' then Some ([(k, v)], r) else None)"
proof -
  have v: "pValue f (stringify v @ c # r) = Some (v, c # r)" using assms by (simp add: reads_def)
  have k: "pString (concat (map escapeChar k) @ CHR 0x22 # CHR '':'' # stringify v @ c # r)
      = Some (k, CHR '':'' # stringify v @ c # r)" by (rule pString_quoted)
  have "\<not> json_space c" using assms(3) by (auto simp: delim_def json_space_def)
  then show ?thesis using v k by (simp add: quote_def skipWs_def json_space_def)
qed

lemma pMembers_print:
  "\<forall>kv \<in> set kvs. reads (snd kv) \<Longrightarrow> kvs \<noteq> [] \<Longrightarrow> length (join '','' (map member kvs)) < f \<Longrightarrow>
    pMembers f (join '','' (map member kvs) @ CHR ''}'' # r) = Some (kvs, r)"
proof (induction kvs arbitrary: f)
  case (Cons kv kvs)
  obtain k v where kv: "kv = (k, v)" by (cases kv)
  obtain f' where f: "f = Suc f'" using Cons.prems(3) by (cases f) auto
  have v: "reads v" using Cons.prems(1) kv by simp
  show ?case
  proof (cases "kvs = []")
    case True
    have "length (stringify v) \<le> f'" using Cons.prems(3) True f kv by simp
    from pMembers_step [OF v this, of "CHR ''}''" r k] True f kv show ?thesis by (simp add: delim_def)
  next
    case False
    let ?rest = "join '','' (map member kvs)"
    have l: "length (member kv) + 1 + length ?rest < f" using Cons.prems(3) False by (simp add: join_Cons)
    then have "length ?rest < f'" "length (stringify v) \<le> f'" using f kv by simp_all
    moreover from this Cons.IH [of f'] Cons.prems(1) False
    have "pMembers f' (?rest @ CHR ''}'' # r) = Some (kvs, r)" by simp
    ultimately show ?thesis
      using pMembers_step [OF v, of f' "CHR '',''" "?rest @ CHR ''}'' # r" k] False f kv
      by (simp add: join_Cons delim_def)
  qed
qed simp

lemma foldl_mput_distinct:
  "distinct (map fst kvs) \<Longrightarrow> fst ` set m \<inter> fst ` set kvs = {} \<Longrightarrow> foldl (\<lambda>m (k, v). mput k v m) m kvs = m @ kvs"
proof (induction kvs arbitrary: m)
  case (Cons kv kvs)
  obtain k v where kv: "kv = (k, v)" by (cases kv)
  have "mput k v m = m @ [kv]" using Cons.prems(2) kv by (simp add: mput_fresh)
  moreover have "foldl (\<lambda>m (k, v). mput k v m) (m @ [kv]) kvs = (m @ [kv]) @ kvs"
    using Cons.prems kv by (intro Cons.IH) auto
  ultimately show ?case using kv by simp
qed simp

lemma jobj_distinct: "distinct (map fst kvs) \<Longrightarrow> jobj kvs = JObj kvs"
  by (simp add: jobj_def foldl_mput_distinct)

lemma join_stringify_hd:
  assumes "vs \<noteq> []"
  shows "\<exists>c t. join '','' (map stringify vs) = c # t \<and> \<not> json_space c \<and> c \<noteq> CHR '']''"
proof -
  obtain v vs' where vs: "vs = v # vs'" using assms by (cases vs) auto
  obtain c t where "stringify v = c # t \<and> \<not> json_space c \<and> c \<notin> set '']}''" using stringify_hd by blast
  then show ?thesis unfolding vs by (cases vs') auto
qed

lemma join_member_hd: "kvs \<noteq> [] \<Longrightarrow> \<exists>t. join '','' (map member kvs) = CHR 0x22 # t"
  by (cases kvs rule: remdups_adj.cases) (auto simp: quote_def)

lemma pValue_hd:
  assumes "\<not> json_space c"
  shows "pValue (Suc f) (c # r) =
    (if c = CHR 0x22 then map_option (\<lambda>(t, r'). (JStr t, r')) (pString r)
     else if c = CHR ''['' then
       (if skipWs r \<noteq> [] \<and> hd (skipWs r) = CHR '']'' then Some (JArr [], tl (skipWs r))
        else map_option (\<lambda>(vs, r'). (JArr vs, r')) (pElements f r))
     else if c = CHR ''{'' then
       (if skipWs r \<noteq> [] \<and> hd (skipWs r) = CHR ''}'' then Some (JObj [], tl (skipWs r))
        else map_option (\<lambda>(kvs, r'). (jobj kvs, r')) (pMembers f r))
     else if c = CHR ''-'' \<or> isDigit c then pNum (c # r)
     else pLiteral (c # r))"
  using assms by (simp add: skipWs_def del: pElements.simps pMembers.simps)

lemma reads_intro:
  assumes "\<And>f r. delim r \<Longrightarrow> length (stringify v) \<le> Suc f \<Longrightarrow> pValue (Suc f) (stringify v @ r) = Some (v, r)"
  shows "reads v"
  unfolding reads_def
proof (intro allI impI)
  fix f r assume "delim r" "length (stringify v) \<le> f"
  then show "pValue f (stringify v @ r) = Some (v, r)" using assms [of r "f - 1"] stringify_length [of v] by (cases f) auto
qed

lemma json_space_not: "\<not> json_space (CHR 0x22)" "\<not> json_space (CHR ''['')" "\<not> json_space (CHR ''{'')"
  "\<not> json_space (CHR '']'')" "\<not> json_space (CHR ''}'')" "\<not> json_space (CHR ''n'')" "\<not> json_space (CHR ''t'')" "\<not> json_space (CHR ''f'')"
  by (simp_all add: json_space_def)

lemma reads_literal: "reads JNull" "reads (JBool b)"
  by (rule reads_intro, cases b; simp add: pValue_hd json_space_not isDigit_def pLiteral_def del: pValue.simps)+

lemma reads_num: "k = 0 \<or> n mod 10 \<noteq> 0 \<Longrightarrow> reads (JNum n k)"
proof (rule reads_intro)
  fix f r assume *: "k = 0 \<or> n mod 10 \<noteq> 0" "delim r"
  obtain c t where ct: "printNum n k = c # t" "c = CHR ''-'' \<or> isDigit c" using printNum_hd by blast
  then have "\<not> json_space c" "c \<notin> {CHR 0x22, CHR ''['', CHR ''{''}" by (auto simp: json_space_def isDigit_def)
  then show "pValue (Suc f) (stringify (JNum n k) @ r) = Some (JNum n k, r)"
    using ct pNum_print [OF *] by (simp add: pValue_hd del: pValue.simps)
qed

lemma reads_str: "reads (JStr s)"
  by (rule reads_intro) (simp add: quote_def pValue_hd json_space_not pString_quoted del: pValue.simps)

lemma reads_arr: "\<forall>v \<in> set vs. reads v \<Longrightarrow> reads (JArr vs)"
proof (rule reads_intro)
  fix f r assume ih: "\<forall>v \<in> set vs. reads v" and l: "length (stringify (JArr vs)) \<le> Suc f"
  show "pValue (Suc f) (stringify (JArr vs) @ r) = Some (JArr vs, r)"
  proof (cases "vs = []")
    case True
    then show ?thesis by (simp add: pValue_hd json_space_not skipWs_def del: pValue.simps)
  next
    case False
    have e: "pElements f (join '','' (map stringify vs) @ CHR '']'' # r) = Some (vs, r)"
      using l by (intro pElements_print [OF ih False]) simp
    obtain c t where ct: "join '','' (map stringify vs) = c # t" "\<not> json_space c" "c \<noteq> CHR '']''"
      using join_stringify_hd [OF False] by blast
    with e show ?thesis by (simp add: pValue_hd json_space_not skipWs_def del: pValue.simps)
  qed
qed

lemma reads_obj: "distinct (map fst kvs) \<Longrightarrow> \<forall>kv \<in> set kvs. reads (snd kv) \<Longrightarrow> reads (JObj kvs)"
proof (rule reads_intro)
  fix f r assume d: "distinct (map fst kvs)" and ih: "\<forall>kv \<in> set kvs. reads (snd kv)"
    and l: "length (stringify (JObj kvs)) \<le> Suc f"
  show "pValue (Suc f) (stringify (JObj kvs) @ r) = Some (JObj kvs, r)"
  proof (cases "kvs = []")
    case True
    then show ?thesis by (simp add: pValue_hd json_space_not skipWs_def del: pValue.simps)
  next
    case False
    have e: "pMembers f (join '','' (map member kvs) @ CHR ''}'' # r) = Some (kvs, r)"
      using l by (intro pMembers_print [OF ih False]) simp
    obtain t where "join '','' (map member kvs) = CHR 0x22 # t" using join_member_hd [OF False] by blast
    with e show ?thesis by (simp add: pValue_hd json_space_not skipWs_def jobj_distinct [OF d] del: pValue.simps)
  qed
qed

lemma stringify_reads: "wf_json v \<Longrightarrow> reads v"
proof (induction v rule: stringify.induct)
  case (5 vs)
  then show ?case by (intro reads_arr) simp
next
  case (6 kvs)
  then show ?case by (intro reads_obj) (auto simp: split_paired_all)
qed (auto intro: reads_literal reads_num reads_str)

lemma json_roundtrip:
  assumes "wf_json v"
  shows "jsonParse (stringify v) = Inr v"
  using stringify_reads [OF assms] unfolding reads_def
  by (auto simp: jsonParse_def delim_def skipWs_def dest!: spec [of _ "Suc (length (stringify v))"] spec [of _ "[]"])

end
