(* ===== verification/Vault.thy ===== *)
theory Vault
  imports Json
begin

text \<open>
  The encrypted vault and the session of the browser extension,
  \<^verbatim>\<open>src/extension/src/store/vault.ts\<close>.

  \<^item> The Web Crypto calls (PBKDF2 and AES-GCM) are the fields of the parameter \<open>webcrypto\<close>;
    the random salt and nonce are arguments.
  \<^item> \<open>chrome.storage.local\<close> is the field \<open>vs_store\<close>, the text under the key \<open>garuda_vault\<close>;
    nothing writes the key \<open>garuda_salt\<close>.
  \<^item> A \<open>VaultData\<close> object is shared by reference between the session and the handlers that
    run, so the objects live in \<open>vs_heap\<close> and the session holds an address of it.
  \<^item> A scheduled timer is its handle in \<open>vs_timers\<close>; \<open>lockTimer\<close> holds the last handle.
\<close>

section \<open>Base64\<close>

definition B64 :: string where
  "B64 = ''ABCDEFGHIJKLMNOPQRSTUVWXYZabcdefghijklmnopqrstuvwxyz0123456789+/''"

fun btoa :: "byte list \<Rightarrow> string" where
  "btoa [] = []"
| "btoa [a] = (let n = unat a * 16 in [B64 ! (n div 64), B64 ! (n mod 64), CHR ''='', CHR ''=''])"
| "btoa [a, b] = (let n = (unat a * 256 + unat b) * 4
     in [B64 ! (n div 4096), B64 ! (n div 64 mod 64), B64 ! (n mod 64), CHR ''=''])"
| "btoa (a # b # c # r) = (let n = (unat a * 256 + unat b) * 256 + unat c
     in [B64 ! (n div 262144), B64 ! (n div 4096 mod 64), B64 ! (n div 64 mod 64), B64 ! (n mod 64)] @ btoa r)"

definition b64_pos :: "char \<Rightarrow> nat option" where
  "b64_pos c = (let i = length (takeWhile (\<lambda>x. x \<noteq> c) B64) in if i < 64 then Some i else None)"

fun b64_groups :: "nat list \<Rightarrow> byte list" where
  "b64_groups (p # q # r # s # t) =
    (let n = ((p * 64 + q) * 64 + r) * 64 + s
     in [of_nat (n div 65536), of_nat (n div 256 mod 256), of_nat (n mod 256)] @ b64_groups t)"
| "b64_groups [p, q, r] = (let n = (p * 64 + q) * 64 + r in [of_nat (n div 1024), of_nat (n div 4 mod 256)])"
| "b64_groups [p, q] = [of_nat ((p * 64 + q) div 16)]"
| "b64_groups _ = []"

text \<open>The decoder drops white space, then up to two trailing \<open>=\<close> of a text whose length is a
  multiple of four, and throws on any other character and on a lone last character.\<close>

definition b64_body :: "string \<Rightarrow> string" where
  "b64_body s =
    (if length s mod 4 = 0 \<and> s \<noteq> [] \<and> last s = CHR ''='' then
       (if last (butlast s) = CHR ''='' then butlast (butlast s) else butlast s)
     else s)"

definition atob :: "string \<Rightarrow> byte list result" where
  "atob text =
    (let s = b64_body (filter (\<lambda>c. of_char c \<notin> {9, 10, 12, 13, 32 :: nat}) text)
     in if length s mod 4 = 1 \<or> \<not> list_all (\<lambda>c. b64_pos c \<noteq> None) s then Inl (Error ''InvalidCharacterError'')
        else Inr (b64_groups (map (\<lambda>c. the (b64_pos c)) s)))"

section \<open>Encryption\<close>

record webcrypto =
  pbkdf2 :: "byte list \<Rightarrow> byte list \<Rightarrow> nat \<Rightarrow> byte list"             \<comment> \<open>password, salt, iterations\<close>
  aesEncrypt :: "byte list \<Rightarrow> byte list \<Rightarrow> byte list \<Rightarrow> byte list"  \<comment> \<open>key, nonce, plain text\<close>
  aesDecrypt :: "byte list \<Rightarrow> byte list \<Rightarrow> byte list \<Rightarrow> byte list option"

text \<open>What AES-GCM promises: decryption with the same key and nonce returns the plain text.\<close>

definition aead :: "webcrypto \<Rightarrow> bool" where
  "aead W \<longleftrightarrow> (\<forall>k iv pt. aesDecrypt W k iv (aesEncrypt W k iv pt) = Some pt)"

definition vault_deriveKey :: "webcrypto \<Rightarrow> string \<Rightarrow> byte list \<Rightarrow> byte list" where
  "vault_deriveKey W password salt = pbkdf2 W (utf8 password) salt 250000"

definition encrypt :: "webcrypto \<Rightarrow> byte list \<Rightarrow> byte list \<Rightarrow> string \<Rightarrow> string \<Rightarrow> string" where
  "encrypt W salt iv data password =
    (let key = vault_deriveKey W password salt;
         ciphertext = aesEncrypt W key iv (utf8 data)
     in btoa (salt @ iv @ ciphertext))"

text \<open>\<open>TextDecoder.decode\<close> on characters below 256; other sequences are outside the model.\<close>

fun utf8_decode :: "byte list \<Rightarrow> string option" where
  "utf8_decode [] = Some []"
| "utf8_decode (b # bs) =
    (if unat b < 128 then map_option (\<lambda>s. char_of (unat b) # s) (utf8_decode bs)
     else (case bs of [] \<Rightarrow> None
       | b2 # r \<Rightarrow> if (unat b = 194 \<or> unat b = 195) \<and> 128 \<le> unat b2 \<and> unat b2 < 192
           then map_option (\<lambda>s. char_of ((unat b - 192) * 64 + (unat b2 - 128)) # s) (utf8_decode r)
           else None))"

definition decrypt :: "webcrypto \<Rightarrow> string \<Rightarrow> string \<Rightarrow> string result" where
  "decrypt W encrypted password =
    rbind (atob encrypted) (\<lambda>combined.
      let salt = take 32 combined;
          iv = take 12 (drop 32 combined);
          ciphertext = drop 44 combined;
          key = vault_deriveKey W password salt
      in case aesDecrypt W key iv ciphertext of
           None \<Rightarrow> Inl (Error ''OperationError'')
         | Some decrypted \<Rightarrow> (case utf8_decode decrypted of None \<Rightarrow> Inl TypeError | Some s \<Rightarrow> Inr s))"

section \<open>The stored data\<close>

record AccountMeta =
  am_name :: string
  am_address :: string
  am_derivationPath :: string
  am_index :: nat

record VaultData =
  vd_mnemonic :: string
  vd_accounts :: "AccountMeta list"
  vd_connectedSites :: "string list"   \<comment> \<open>origins that were given access\<close>
  vd_network :: string
  vd_autoLock :: nat

definition accountJson :: "AccountMeta \<Rightarrow> json" where
  "accountJson a =
    JObj [(''name'', JStr (am_name a)), (''address'', JStr (am_address a)),
          (''derivationPath'', JStr (am_derivationPath a)), (''index'', JNum (int (am_index a)) 0)]"

definition vaultJson :: "VaultData \<Rightarrow> json" where
  "vaultJson v =
    JObj [(''mnemonic'', JStr (vd_mnemonic v)),
          (''accounts'', JArr (map accountJson (vd_accounts v))),
          (''connectedSites'', JArr (map JStr (vd_connectedSites v))),
          (''settings'', JObj [(''network'', JStr (vd_network v)), (''autoLock'', JNum (int (vd_autoLock v)) 0)])]"

text \<open>The cast of a parsed value; a value of another shape was not written by \<open>saveVault\<close>.\<close>

fun field :: "json \<Rightarrow> string \<Rightarrow> json option" where
  "field (JObj kvs) k = map_of kvs k"
| "field _ k = None"

fun asStr :: "json \<Rightarrow> string option" where
  "asStr (JStr s) = Some s"
| "asStr _ = None"

fun asNat :: "json \<Rightarrow> nat option" where
  "asNat (JNum n 0) = (if 0 \<le> n then Some (nat n) else None)"
| "asNat _ = None"

fun omap :: "('a \<Rightarrow> 'b option) \<Rightarrow> 'a list \<Rightarrow> 'b list option" where
  "omap f [] = Some []"
| "omap f (x # xs) = (case f x of None \<Rightarrow> None | Some y \<Rightarrow> map_option (\<lambda>ys. y # ys) (omap f xs))"

fun asArr :: "(json \<Rightarrow> 'a option) \<Rightarrow> json \<Rightarrow> 'a list option" where
  "asArr f (JArr vs) = omap f vs"
| "asArr f _ = None"

definition jsonAccount :: "json \<Rightarrow> AccountMeta option" where
  "jsonAccount j =
    (case (Option.bind (field j ''name'') asStr, Option.bind (field j ''address'') asStr,
           Option.bind (field j ''derivationPath'') asStr, Option.bind (field j ''index'') asNat) of
       (Some n, Some a, Some d, Some i) \<Rightarrow> Some \<lparr>am_name = n, am_address = a, am_derivationPath = d, am_index = i\<rparr>
     | _ \<Rightarrow> None)"

definition jsonVault :: "json \<Rightarrow> VaultData option" where
  "jsonVault j =
    (case (Option.bind (field j ''mnemonic'') asStr, Option.bind (field j ''accounts'') (asArr jsonAccount),
           Option.bind (field j ''connectedSites'') (asArr asStr),
           Option.bind (field j ''settings'') (\<lambda>s. Option.bind (field s ''network'') asStr),
           Option.bind (field j ''settings'') (\<lambda>s. Option.bind (field s ''autoLock'') asNat)) of
       (Some m, Some as, Some cs, Some n, Some l) \<Rightarrow>
         Some \<lparr>vd_mnemonic = m, vd_accounts = as, vd_connectedSites = cs, vd_network = n, vd_autoLock = l\<rparr>
     | _ \<Rightarrow> None)"

section \<open>Storage and session\<close>

record vault_state =
  vs_store :: "string option"
  vs_heap :: "VaultData list"
  sessionPassword :: "string option"
  sessionVault :: "nat option"
  lockTimer :: "nat option"
  vs_timers :: "nat list"
  vs_nextTimer :: nat

definition vault_init :: "string option \<Rightarrow> vault_state" where
  "vault_init stored =
    \<lparr>vs_store = stored, vs_heap = [], sessionPassword = None, sessionVault = None, lockTimer = None,
     vs_timers = [], vs_nextTimer = 1\<rparr>"

definition saveVault :: "webcrypto \<Rightarrow> byte list \<Rightarrow> byte list \<Rightarrow> VaultData \<Rightarrow> string \<Rightarrow> 'a vault_state_scheme \<Rightarrow> 'a vault_state_scheme" where
  "saveVault W salt iv data password s =
    s\<lparr>vs_store := Some (encrypt W salt iv (stringify (vaultJson data)) password)\<rparr>"

definition loadVault :: "webcrypto \<Rightarrow> string \<Rightarrow> 'a vault_state_scheme \<Rightarrow> VaultData option" where
  "loadVault W password s =
    (case vs_store s of None \<Rightarrow> None
     | Some encrypted \<Rightarrow>
         if encrypted = [] then None
         else (case rbind (decrypt W encrypted password) jsonParse of
                 Inl _ \<Rightarrow> None
               | Inr j \<Rightarrow> jsonVault j))"

definition hasVault :: "'a vault_state_scheme \<Rightarrow> bool" where
  "hasVault s \<longleftrightarrow> (case vs_store s of None \<Rightarrow> False | Some e \<Rightarrow> e \<noteq> [])"

definition clearVault :: "'a vault_state_scheme \<Rightarrow> 'a vault_state_scheme" where
  "clearVault s = s\<lparr>vs_store := None\<rparr>"

definition clearTimeout :: "nat option \<Rightarrow> 'a vault_state_scheme \<Rightarrow> 'a vault_state_scheme" where
  "clearTimeout t s = (case t of None \<Rightarrow> s | Some n \<Rightarrow> s\<lparr>vs_timers := removeAll n (vs_timers s)\<rparr>)"

definition clearSession :: "'a vault_state_scheme \<Rightarrow> 'a vault_state_scheme" where
  "clearSession s = (let s1 = s\<lparr>sessionPassword := None, sessionVault := None\<rparr> in clearTimeout (lockTimer s1) s1)"

text \<open>Handles are positive numbers, so a stored handle is never falsy. The duration is that of
  the call; a later tick may fire any scheduled timer.\<close>

definition resetLockTimer :: "'a vault_state_scheme \<Rightarrow> 'a vault_state_scheme" where
  "resetLockTimer s =
    (let s1 = clearTimeout (lockTimer s) s; t = vs_nextTimer s1
     in s1\<lparr>lockTimer := Some t, vs_timers := t # vs_timers s1, vs_nextTimer := t + 1\<rparr>)"

definition setSession :: "string \<Rightarrow> nat \<Rightarrow> 'a vault_state_scheme \<Rightarrow> 'a vault_state_scheme" where
  "setSession password vault s = resetLockTimer (s\<lparr>sessionPassword := Some password, sessionVault := Some vault\<rparr>)"

definition getSession :: "'a vault_state_scheme \<Rightarrow> (string \<times> nat) option" where
  "getSession s =
    (case (sessionPassword s, sessionVault s) of
       (Some p, Some v) \<Rightarrow> if p = [] then None else Some (p, v)
     | _ \<Rightarrow> None)"

definition isUnlocked :: "'a vault_state_scheme \<Rightarrow> bool" where
  "isUnlocked s \<longleftrightarrow> sessionPassword s \<noteq> None \<and> sessionVault s \<noteq> None"

text \<open>Firing a timer: the callback of \<open>setTimeout\<close> runs \<open>clearSession\<close>.\<close>

definition fireLock :: "nat \<Rightarrow> 'a vault_state_scheme \<Rightarrow> 'a vault_state_scheme" where
  "fireLock t s =
    (if t \<in> set (vs_timers s) then clearSession (s\<lparr>vs_timers := removeAll t (vs_timers s)\<rparr>) else s)"

text \<open>\<open>persistSession\<close> up to its \<open>await\<close>: the session refers to the object, and the text to be
  encrypted is taken from the object now; \<open>None\<close> is the early return.\<close>

definition persistSession :: "nat \<Rightarrow> 'a vault_state_scheme \<Rightarrow> 'a vault_state_scheme \<times> (VaultData \<times> string) option" where
  "persistSession vault s =
    (case sessionPassword s of None \<Rightarrow> (s, None)
     | Some p \<Rightarrow> if p = [] then (s, None)
         else (s\<lparr>sessionVault := Some vault\<rparr>, Some (vs_heap s ! vault, p)))"

definition addConnectedSite :: "string \<Rightarrow> 'a vault_state_scheme \<Rightarrow> 'a vault_state_scheme" where
  "addConnectedSite origin s =
    (case sessionVault s of None \<Rightarrow> s
     | Some v \<Rightarrow>
         (let vault = vs_heap s ! v
          in if origin \<in> set (vd_connectedSites vault) then s
             else s\<lparr>vs_heap := (vs_heap s)[v := vault\<lparr>vd_connectedSites := vd_connectedSites vault @ [origin]\<rparr>]\<rparr>))"

definition isConnectedSite :: "string \<Rightarrow> 'a vault_state_scheme \<Rightarrow> bool" where
  "isConnectedSite origin s =
    (case sessionVault s of None \<Rightarrow> False | Some v \<Rightarrow> origin \<in> set (vd_connectedSites (vs_heap s ! v)))"

section \<open>Base64 reads back\<close>

lemma b64_pos_nth: "i < 64 \<Longrightarrow> b64_pos (B64 ! i) = Some i"
proof -
  assume "i < 64"
  moreover have "distinct B64" "length B64 = 64" by (simp_all add: B64_def)
  ultimately show ?thesis by (simp add: b64_pos_def length_takeWhile_nth Let_def)
qed

lemma B64_chars: "list_all (\<lambda>c. of_char c \<notin> {9, 10, 12, 13, 32 :: nat} \<and> c \<noteq> CHR ''='') B64"
  by (simp add: B64_def)

lemma B64_nth: "i < 64 \<Longrightarrow> of_char (B64 ! i) \<notin> {9, 10, 12, 13, 32 :: nat} \<and> B64 ! i \<noteq> CHR ''=''"
proof -
  assume "i < 64"
  moreover have "length B64 = 64" by (simp add: B64_def)
  ultimately have "B64 ! i \<in> set B64" by simp
  with B64_chars show ?thesis unfolding list_all_iff by blast
qed

text \<open>The digits of a text, without the padding.\<close>

fun b64_digits :: "byte list \<Rightarrow> nat list" where
  "b64_digits [] = []"
| "b64_digits [a] = (let n = unat a * 16 in [n div 64, n mod 64])"
| "b64_digits [a, b] = (let n = (unat a * 256 + unat b) * 4 in [n div 4096, n div 64 mod 64, n mod 64])"
| "b64_digits (a # b # c # r) = (let n = (unat a * 256 + unat b) * 256 + unat c
     in [n div 262144, n div 4096 mod 64, n div 64 mod 64, n mod 64] @ b64_digits r)"

definition b64_pad :: "nat \<Rightarrow> string" where
  "b64_pad n = replicate ((3 - n mod 3) mod 3) CHR ''=''"

lemma byte_bound: "unat (b :: byte) < 256"
  using unsigned_less [of b] by simp

lemma b64_digits_bound: "d \<in> set (b64_digits bs) \<Longrightarrow> d < 64"
proof (induction bs rule: b64_digits.induct)
  case (4 a b c r)
  have "(unat a * 256 + unat b) * 256 + unat c < 16777216"
    using byte_bound [of a] byte_bound [of b] byte_bound [of c] by simp
  then show ?case using 4 by (auto simp: Let_def less_mult_imp_div_less)
next
  case (3 a b)
  have "(unat a * 256 + unat b) * 4 < 262144" using byte_bound [of a] byte_bound [of b] by simp
  then show ?case using 3 by (auto simp: Let_def less_mult_imp_div_less)
next
  case (2 a)
  then show ?case using byte_bound [of a] by (auto simp: Let_def less_mult_imp_div_less)
qed simp

lemma btoa_eq: "btoa bs = map ((!) B64) (b64_digits bs) @ b64_pad (length bs)"
proof (induction bs rule: b64_digits.induct)
  case (4 a b c r)
  have "Suc (Suc (Suc (length r))) mod 3 = length r mod 3" by presburger
  with 4 show ?case by (simp add: Let_def b64_pad_def)
qed (simp_all add: b64_pad_def Let_def numeral_2_eq_2)

lemma b64_digits_length: "length (b64_digits bs) mod 4 \<noteq> 1"
  "(length (b64_digits bs) + (3 - length bs mod 3) mod 3) mod 4 = 0"
proof (induction bs rule: b64_digits.induct)
  case (4 a b c r)
  have "Suc (Suc (Suc (length r))) mod 3 = length r mod 3" by presburger
  moreover have "Suc (Suc (Suc (Suc (length (b64_digits r))))) mod 4 = length (b64_digits r) mod 4" by presburger
  moreover have "(4 + (x :: nat)) mod 4 = x mod 4" for x by presburger
  ultimately show "length (b64_digits (a # b # c # r)) mod 4 \<noteq> 1"
    "(length (b64_digits (a # b # c # r)) + (3 - length (a # b # c # r) mod 3) mod 3) mod 4 = 0"
    using 4 by (simp_all add: Let_def) 
qed (simp_all add: Let_def)

lemma three_bytes:
  assumes "a < 256" "b < 256" "c < 256" "n = (a * 256 + b) * 256 + (c :: nat)"
  shows "n div 65536 = a" "n div 256 mod 256 = b" "n mod 256 = c"
proof -
  have "n div 256 = a * 256 + b" "n mod 256 = c" unfolding assms(4) using assms(3) by (simp_all only: div_mult_self3 mod_mult_self3) simp_all
  moreover have "n div 65536 = n div 256 div 256" by (simp add: div_mult2_eq [symmetric])
  ultimately show "n div 65536 = a" "n div 256 mod 256 = b" "n mod 256 = c" using assms(2) by simp_all
qed

lemma four_digits: "((n div 262144 * 64 + n div 4096 mod 64) * 64 + n div 64 mod 64) * 64 + n mod 64 = (n :: nat)"
proof -
  have "n div 262144 * 64 + n div 4096 mod 64 = n div 4096"
    using div_mult_mod_eq [of "n div 4096" 64] by (simp add: div_mult2_eq [symmetric])
  moreover have "n div 4096 * 64 + n div 64 mod 64 = n div 64"
    using div_mult_mod_eq [of "n div 64" 64] by (simp add: div_mult2_eq [symmetric])
  ultimately show ?thesis by simp
qed

lemma b64_groups_digits: "b64_groups (b64_digits bs) = bs"
proof (induction bs rule: b64_digits.induct)
  case (4 a b c r)
  define n where "n = (unat a * 256 + unat b) * 256 + unat c"
  have e: "b64_digits (a # b # c # r) = n div 262144 # n div 4096 mod 64 # n div 64 mod 64 # n mod 64 # b64_digits r"
    by (simp add: n_def Let_def)
  show ?case
    unfolding e b64_groups.simps four_digits Let_def three_bytes [OF byte_bound byte_bound byte_bound n_def]
    using 4 by simp
next
  case (3 a b)
  define n where "n = (unat a * 256 + unat b) * 4"
  have "n div 4096 * 64 + n div 64 mod 64 = n div 64"
    using div_mult_mod_eq [of "n div 64" 64] by (simp add: div_mult2_eq [symmetric])
  then have "(n div 4096 * 64 + n div 64 mod 64) * 64 + n mod 64 = n" by simp
  moreover have "n div 1024 = unat a" "n div 4 mod 256 = unat b"
    using byte_bound [of a] byte_bound [of b] by (simp_all add: n_def)
  moreover have "b64_digits [a, b] = [n div 4096, n div 64 mod 64, n mod 64]" by (simp add: n_def Let_def)
  ultimately show ?case by (simp add: Let_def)
next
  case (2 a)
  have "unat a * 16 div 64 * 64 + unat a * 16 mod 64 = unat a * 16" by (rule div_mult_mod_eq)
  then show ?case by (simp only: b64_digits.simps b64_groups.simps Let_def) simp
qed simp

lemma b64_body_pad:
  assumes "(length s + p) mod 4 = 0" "p \<le> 2" "CHR ''='' \<notin> set s" "s = [] \<Longrightarrow> p = 0"
  shows "b64_body (s @ replicate p CHR ''='') = s"
proof -
  consider "p = 0" | "p = 1" | "p = 2" using assms(2) by linarith
  then show ?thesis
  proof cases
    case 1
    moreover have "s \<noteq> [] \<Longrightarrow> last s \<noteq> CHR ''=''" using assms(3) last_in_set [of s] by metis
    ultimately show ?thesis by (auto simp: b64_body_def)
  next
    case 2
    then have "s \<noteq> []" using assms(4) by auto
    moreover from this have "last s \<noteq> CHR ''=''" using assms(3) last_in_set [of s] by metis
    ultimately show ?thesis using 2 assms(1) by (auto simp: b64_body_def butlast_append)
  next
    case 3
    then show ?thesis using assms(1) by (simp add: b64_body_def numeral_2_eq_2 butlast_append)
  qed
qed

lemma atob_btoa: "atob (btoa bs) = Inr bs"
proof -
  let ?d = "b64_digits bs" and ?p = "(3 - length bs mod 3) mod 3"
  have c: "of_char c \<notin> {9, 10, 12, 13, 32 :: nat} \<and> c \<noteq> CHR ''=''" if "c \<in> set (map ((!) B64) ?d)" for c
    using that b64_digits_bound B64_nth by auto
  have f: "filter (\<lambda>c. of_char c \<notin> {9, 10, 12, 13, 32 :: nat}) (btoa bs) = map ((!) B64) ?d @ replicate ?p CHR ''=''"
    unfolding btoa_eq b64_pad_def using c by (subst filter_True) (auto split: if_splits)
  have "b64_body (map ((!) B64) ?d @ replicate ?p CHR ''='') = map ((!) B64) ?d"
  proof (rule b64_body_pad)
    show "(length (map ((!) B64) ?d) + ?p) mod 4 = 0" using b64_digits_length(2) [of bs] by simp
    show "?p \<le> 2" by linarith
    show "CHR ''='' \<notin> set (map ((!) B64) ?d)" using c by blast
    show "?p = 0" if "map ((!) B64) ?d = []" using that by (cases bs rule: b64_digits.cases) (simp_all add: Let_def)
  qed
  moreover have "map (\<lambda>c. the (b64_pos c)) (map ((!) B64) ?d) = ?d"
    using b64_digits_bound by (auto simp: b64_pos_nth intro!: map_idI)
  moreover have "list_all (\<lambda>c. b64_pos c \<noteq> None) (map ((!) B64) ?d)"
    using b64_digits_bound by (auto simp: list_all_iff b64_pos_nth)
  ultimately show ?thesis
    unfolding atob_def f using b64_digits_length(1) [of bs] by (simp add: Let_def b64_groups_digits)
qed


section \<open>The vault text\<close>

lemma utf8_decode_char: "utf8_decode (utf8_char c @ bs) = map_option (\<lambda>s. c # s) (utf8_decode bs)"
proof -
  define n where "n = (of_char c :: nat)"
  have c: "char_of n = c" and n: "n < 256" by (simp_all add: n_def)
  have u: "utf8_char c = map of_nat (if n < 128 then [n] else [192 + n div 64, 128 + n mod 64])"
    by (simp only: utf8_char_nats n_def Let_def)
  have b: "unat (of_nat x :: byte) = x" if "x < 256" for x using that by (simp add: unat_of_nat)
  show ?thesis
  proof (cases "n < 128")
    case True
    then show ?thesis using u b [of n] c by simp
  next
    case False
    then have "192 + n div 64 < 256" "128 + n mod 64 < 256" "192 + n div 64 = 194 \<or> 192 + n div 64 = 195"
      using n by linarith+
    moreover have "n div 64 * 64 + n mod 64 = n" by (rule div_mult_mod_eq)
    ultimately show ?thesis using False u b [of "192 + n div 64"] b [of "128 + n mod 64"] c
      by (simp del: of_nat_add)
  qed
qed

lemma utf8_decode_utf8: "utf8_decode (utf8 s) = Some s"
  by (induction s) (simp_all add: utf8_def utf8_decode_char)

lemma decrypt_encrypt:
  assumes "aead W" "length salt = 32" "length iv = 12"
  shows "decrypt W (encrypt W salt iv data password) password = Inr data"
  using assms by (simp add: decrypt_def encrypt_def Let_def atob_btoa aead_def utf8_decode_utf8)

lemma omap_map: "(\<And>x. x \<in> set xs \<Longrightarrow> g (f x) = Some x) \<Longrightarrow> omap g (map f xs) = Some xs"
  by (induction xs) simp_all

lemma jsonAccount_accountJson: "jsonAccount (accountJson a) = Some a"
  by (simp add: jsonAccount_def accountJson_def)

lemma jsonVault_vaultJson: "jsonVault (vaultJson v) = Some v"
  by (simp add: jsonVault_def vaultJson_def omap_map jsonAccount_accountJson)

definition wf_vault :: "VaultData \<Rightarrow> bool" where
  "wf_vault v \<longleftrightarrow> vd_autoLock v < 10 ^ 21 \<and> (\<forall>a \<in> set (vd_accounts v). am_index a < 10 ^ 21)"

lemma wf_vaultJson: "wf_vault v \<Longrightarrow> wf_json (vaultJson v)"
  by (auto simp: wf_vault_def vaultJson_def accountJson_def)

lemma encrypt_nonempty:
  assumes "length salt = 32"
  shows "encrypt W salt iv data password \<noteq> []"
  using assms by (cases salt rule: b64_digits.cases) (auto simp: encrypt_def Let_def)

lemma load_save:
  assumes "aead W" "length salt = 32" "length iv = 12" "wf_vault data"
  shows "loadVault W password (saveVault W salt iv data password s) = Some data"
  using assms encrypt_nonempty [OF assms(2)] wf_vaultJson [OF assms(4)]
  by (simp add: loadVault_def saveVault_def decrypt_encrypt json_roundtrip jsonVault_vaultJson)

section \<open>The session\<close>

text \<open>At most one lock timer is scheduled, its handle is the one in \<open>lockTimer\<close>, and an open
  session has one. The vault object of the session is allocated.\<close>

definition session_inv :: "'a vault_state_scheme \<Rightarrow> bool" where
  "session_inv s \<longleftrightarrow>
    (vs_timers s = [] \<or> (\<exists>t. lockTimer s = Some t \<and> vs_timers s = [t])) \<and>
    (sessionPassword s \<noteq> None \<longleftrightarrow> sessionVault s \<noteq> None) \<and>
    (sessionPassword s \<noteq> None \<longrightarrow> vs_timers s \<noteq> []) \<and>
    (\<forall>v. sessionVault s = Some v \<longrightarrow> v < length (vs_heap s))"

named_theorems vault_defs

lemmas [vault_defs] = clearSession_def clearTimeout_def resetLockTimer_def setSession_def getSession_def
  isUnlocked_def fireLock_def persistSession_def addConnectedSite_def isConnectedSite_def saveVault_def Let_def

lemma session_inv_init: "session_inv (vault_init stored)"
  by (simp add: session_inv_def vault_init_def)

lemma session_inv_store: "session_inv s \<Longrightarrow> session_inv (saveVault W salt iv data password s)"
  by (simp add: session_inv_def vault_defs)

lemma session_inv_clear: "session_inv s \<Longrightarrow> session_inv (clearSession s)"
  by (auto simp: session_inv_def vault_defs split: option.splits)

lemma session_inv_set: "session_inv s \<Longrightarrow> v < length (vs_heap s) \<Longrightarrow> session_inv (setSession p v s)"
  by (auto simp: session_inv_def vault_defs split: option.splits)

lemma session_inv_fire: "session_inv s \<Longrightarrow> session_inv (fireLock t s)"
  by (auto simp: session_inv_def vault_defs split: option.splits)

lemma session_inv_persist:
  "session_inv s \<Longrightarrow> v < length (vs_heap s) \<Longrightarrow> session_inv (fst (persistSession v s))"
  by (auto simp: session_inv_def vault_defs split: option.splits)

lemma session_inv_connect: "session_inv s \<Longrightarrow> session_inv (addConnectedSite origin s)"
  by (auto simp: session_inv_def vault_defs split: option.splits)

lemma fireLock_locks:
  assumes "session_inv s" "isUnlocked s"
  shows "\<exists>t. vs_timers s = [t] \<and> \<not> isUnlocked (fireLock t s) \<and> getSession (fireLock t s) = None"
  using assms by (auto simp: session_inv_def vault_defs split: option.splits)

lemma getSession_isUnlocked:
  "getSession s = None \<longleftrightarrow> \<not> isUnlocked s \<or> sessionPassword s = Some []"
  by (auto simp: vault_defs split: option.splits if_splits)

lemma connected_after: "sessionVault s = Some v \<Longrightarrow> v < length (vs_heap s) \<Longrightarrow> 
  isConnectedSite x (addConnectedSite origin s) \<longleftrightarrow> x = origin \<or> isConnectedSite x s"
  by (auto simp: vault_defs split: option.splits)

section \<open>Sample data\<close>

definition sample_web :: webcrypto where
  "sample_web =
    \<lparr>pbkdf2 = (\<lambda>p s n. p @ s), aesEncrypt = (\<lambda>k iv pt. k @ pt),
     aesDecrypt = (\<lambda>k iv ct. if take (length k) ct = k then Some (drop (length k) ct) else None)\<rparr>"

lemma sample_web_aead: "aead sample_web"
  by (simp add: aead_def sample_web_def)

definition sample_vault :: VaultData where
  "sample_vault =
    \<lparr>vd_mnemonic = ''able about'', vd_accounts = [\<lparr>am_name = ''Akun 1'', am_address = ''grd1q'', am_derivationPath = ''garuda-sha256'', am_index = 0\<rparr>],
     vd_connectedSites = [''https://dex''], vd_network = ''regtest'', vd_autoLock = 30\<rparr>"

section \<open>Properties\<close>

text \<open>C15. Saving a vault and loading it with the same password returns the data that was saved, and
  a password under whose key AES-GCM rejects the stored cipher text loads nothing.\<close>

theorem vault_load_save:
  assumes "aead W" "length salt = 32" "length iv = 12" "wf_vault data"
  shows "loadVault W password (saveVault W salt iv data password s) = Some data \<and>
    (\<forall>other. aesDecrypt W (vault_deriveKey W other salt) iv
        (aesEncrypt W (vault_deriveKey W password salt) iv (utf8 (stringify (vaultJson data)))) = None \<longrightarrow>
      loadVault W other (saveVault W salt iv data password s) = None)"
proof (intro conjI allI impI)
  show "loadVault W password (saveVault W salt iv data password s) = Some data" by (rule load_save [OF assms])
next
  fix other
  assume "aesDecrypt W (vault_deriveKey W other salt) iv
    (aesEncrypt W (vault_deriveKey W password salt) iv (utf8 (stringify (vaultJson data)))) = None"
  then have "decrypt W (encrypt W salt iv (stringify (vaultJson data)) password) other = Inl (Error ''OperationError'')"
    using assms(2,3) by (simp add: decrypt_def encrypt_def Let_def atob_btoa)
  then show "loadVault W other (saveVault W salt iv data password s) = None"
    by (simp add: loadVault_def saveVault_def)
qed

theorem vault_load_save_witness:
  "loadVault sample_web ''pw'' (saveVault sample_web (replicate 32 1) (replicate 12 2) sample_vault ''pw'' (vault_init None)) = Some sample_vault \<and>
   loadVault sample_web ''px'' (saveVault sample_web (replicate 32 1) (replicate 12 2) sample_vault ''pw'' (vault_init None)) = None"
proof -
  have w: "wf_vault sample_vault" by (simp add: wf_vault_def sample_vault_def)
  have "utf8 ''px'' \<noteq> utf8 ''pw''" by (simp add: utf8_def utf8_char_def)
  then have "aesDecrypt sample_web (vault_deriveKey sample_web ''px'' (replicate 32 1)) (replicate 12 2)
    (aesEncrypt sample_web (vault_deriveKey sample_web ''pw'' (replicate 32 1)) (replicate 12 2) (utf8 (stringify (vaultJson sample_vault)))) = None"
    by (simp add: sample_web_def vault_deriveKey_def utf8_def utf8_char_def)
  then show ?thesis
    using vault_load_save [OF sample_web_aead _ _ w, of "replicate 32 1" "replicate 12 2" "''pw''" "vault_init None"] by simp
qed

end
