(* ===== verification/Background.thy ===== *)
theory Background
  imports Complex_Main Transaction Vault
begin

text \<open>
  The service worker of the browser extension,
  \<^verbatim>\<open>src/extension/src/background/index.ts\<close>: the message listener, the handlers of the wallet
  and of the \<open>window.garuda\<close> methods, the approval of pending requests.

  \<^item> An \<open>async\<close> handler runs in synchronous segments. A segment is a function from the state to
    the new state and a \<open>proc\<close>, what is left to do: \<open>Finish\<close> answers the message, \<open>Resume\<close>
    waits for storage or cryptography, \<open>Fetch\<close> waits for the reply of the node's API. Other
    messages and timers run between the segments. Awaiting a promise that is already resolved
    (\<open>deriveKey\<close>) does not let another message in and is no such point.
  \<^item> Parameters of a message have the types of the casts in the code; a JavaScript number is a
    rational. A product of numbers is rounded by \<open>e_round\<close>, sums of satoshi amounts are exact.
  \<^item> The replies of the API are any JSON value or failure. Entries of a list of unspent outputs
    are objects with the fields of \<open>UTXO\<close>; a list with another entry throws.
  \<^item> \<open>crypto.randomUUID\<close> and the random salt and nonce are the streams \<open>e_uuid\<close> and \<open>e_rand\<close>.
\<close>

section \<open>Messages\<close>

record order_params =
  op_assetId :: string
  op_side :: string
  op_price :: rat
  op_amount :: rat
  op_address :: string

record send_params =
  sp_from :: string
  sp_to :: string
  sp_amount :: rat
  sp_kind :: "string option"
  sp_memo :: "string option"

record token_params =
  tp_from :: string
  tp_to :: string
  tp_assetId :: string
  tp_amount :: rat

datatype pending_params =
    PAccounts string
  | POrder order_params
  | PSign string string   \<comment> \<open>message, address\<close>
  | PSend send_params
  | PToken token_params

record PendingRequest =
  pr_id :: string
  pr_params :: pending_params
  pr_origin :: string
  pr_tabId :: int
  pr_requestId :: string

fun methodOf :: "pending_params \<Rightarrow> string" where
  "methodOf (PAccounts _) = ''garuda_requestAccounts''"
| "methodOf (POrder _) = ''garuda_placeOrder''"
| "methodOf (PSign _ _) = ''garuda_signMessage''"
| "methodOf (PSend _) = ''garuda_sendTransaction''"
| "methodOf (PToken _) = ''garuda_sendToken''"

datatype call =
    Get_pending_approval string
  | Get_any_pending
  | Get_wallet_info
  | Wallet_hasVault
  | Wallet_create string string "string option"   \<comment> \<open>mnemonic, password, account name\<close>
  | Wallet_unlock string
  | Wallet_lock
  | Wallet_isUnlocked
  | Wallet_getAccounts
  | Wallet_addAccount
  | Wallet_exportMnemonic string
  | Wallet_getBalance "string option"
  | Wallet_getAddressInfo "string option"
  | Wallet_getAssetList
  | Wallet_sendNative string rat                  \<comment> \<open>recipient, satoshi\<close>
  | Wallet_sendToken string rat string            \<comment> \<open>recipient, amount, asset\<close>
  | Garuda_requestAccounts
  | Garuda_getAccounts
  | Garuda_placeOrder order_params
  | Garuda_signMessage string string
  | Garuda_sendTransaction send_params
  | Garuda_sendToken token_params
  | Approval_response string bool
  | Unknown string

record message =
  m_call :: call
  m_id :: "string option"
  m_origin :: "string option"

record sender =
  s_origin :: "string option"
  s_tab :: "(int \<times> string option) option"   \<comment> \<open>tab id and url\<close>

datatype result_value =
    RNull
  | RBool bool
  | RStr string
  | RStrs "string list"
  | RAddress "string option"
  | RAccount AccountMeta
  | RAccounts "AccountMeta list"
  | RInfo "(string \<times> string) list"
  | RPending string pending_params string string   \<comment> \<open>method, parameters, origin, id\<close>
  | RServer json
  | RTx string
  | RSignature string string

datatype response = Result result_value | Waiting | Failure js_error

section \<open>The API\<close>

datatype request =
    Connect "string option"
  | AddressInfo "string option"
  | Stablecoins
  | PeggedStablecoins
  | Stocks
  | Utxos string
  | PrepareToken string rat string string   \<comment> \<open>asset, amount, from, to\<close>
  | PrepareOrder order_params
  | Broadcast string

datatype reply = NetworkError js_error | Json json

fun truthy :: "json \<Rightarrow> bool" where
  "truthy JNull = False"
| "truthy (JBool b) = b"
| "truthy (JNum n k) = (n \<noteq> 0)"
| "truthy (JStr s) = (s \<noteq> [])"
| "truthy _ = True"

text \<open>\<open>j.k\<close>: a property of \<open>null\<close> throws, one that is missing is \<open>undefined\<close>.\<close>

fun getProp :: "json \<Rightarrow> string \<Rightarrow> json option result" where
  "getProp JNull k = Inl TypeError"
| "getProp (JObj kvs) k = Inr (map_of kvs k)"
| "getProp _ k = Inr None"

text \<open>\<open>a || b\<close> for a property \<open>a\<close>.\<close>

definition orElse :: "json option \<Rightarrow> json option \<Rightarrow> json option" where
  "orElse a b = (case a of Some v \<Rightarrow> if truthy v then Some v else b | None \<Rightarrow> b)"

fun jsText :: "json \<Rightarrow> string" where
  "jsText JNull = ''null''"
| "jsText (JBool b) = (if b then ''true'' else ''false'')"
| "jsText (JNum n k) = printNum n k"
| "jsText (JStr s) = s"
| "jsText (JArr vs) = join '','' (map (\<lambda>v. if v = JNull then [] else jsText v) vs)"
| "jsText (JObj _) = ''[object Object]''"

fun asInt :: "json \<Rightarrow> int option" where
  "asInt (JNum n 0) = Some n"
| "asInt _ = None"

definition asUtxo :: "json \<Rightarrow> UTXO option" where
  "asUtxo j =
    (case (Option.bind (field j ''txid'') asStr, Option.bind (field j ''vout'') asInt, Option.bind (field j ''value'') asInt) of
       (Some t, Some n, Some v) \<Rightarrow> Some \<lparr>txid = t, vout = n, utxo_value = v\<rparr>
     | _ \<Rightarrow> None)"

fun utxoArray :: "json option \<Rightarrow> UTXO list result" where
  "utxoArray (Some (JArr vs)) = (case omap asUtxo vs of Some us \<Rightarrow> Inr us | None \<Rightarrow> Inl TypeError)"
| "utxoArray (Some (JStr s)) = (if s = [] then Inr [] else Inl TypeError)"
| "utxoArray _ = Inr []"

definition utxosOf :: "json \<Rightarrow> UTXO list result" where
  "utxosOf utxoRes = rbind (getProp utxoRes ''utxos'') (\<lambda>u. utxoArray (orElse u (orElse (Some utxoRes) (Some (JArr [])))))"

section \<open>Payments\<close>

definition FEE :: int where
  "FEE = 1000"

definition DUST :: int where
  "DUST = 546"

text \<open>The loop that takes outputs until the target is reached.\<close>

fun collectUtxos :: "rat \<Rightarrow> UTXO list \<Rightarrow> UTXO list \<Rightarrow> int \<Rightarrow> UTXO list \<times> int" where
  "collectUtxos target [] selected collected = (selected, collected)"
| "collectUtxos target (u # us) selected collected =
    (let selected' = selected @ [u]; collected' = collected + utxo_value u
     in if of_int collected' \<ge> target then (selected', collected')
        else collectUtxos target us selected' collected')"

record NumOutput =
  no_address :: "string option"
  no_opreturn :: "string option"
  no_value :: rat

abbreviation payTo :: "string \<Rightarrow> rat \<Rightarrow> NumOutput" where
  "payTo a v \<equiv> \<lparr>no_address = Some a, no_opreturn = None, no_value = v\<rparr>"

abbreviation opReturn :: "string \<Rightarrow> NumOutput" where
  "opReturn h \<equiv> \<lparr>no_address = None, no_opreturn = Some h, no_value = 0\<rparr>"

definition nativePayment :: "rat \<Rightarrow> string \<Rightarrow> string \<Rightarrow> string \<Rightarrow> UTXO list \<Rightarrow> (UTXO list \<times> NumOutput list) result" where
  "nativePayment amtSat to changeAddr short utxos =
    (if utxos = [] then Inl (Error ''Tidak ada UTXO tersedia'')
     else let (selected, collected) = collectUtxos (amtSat + of_int FEE) utxos [] 0
          in if of_int collected < amtSat + of_int FEE then Inl (Error short)
             else let change = of_int collected - amtSat - of_int FEE
                  in Inr (selected, [payTo to amtSat] @ (if change > of_int DUST then [payTo changeAddr change] else [])))"

definition tokenPayment :: "string \<Rightarrow> string \<Rightarrow> UTXO list \<Rightarrow> (UTXO list \<times> NumOutput list) result" where
  "tokenPayment opreturn_data changeAddr utxos =
    (if utxos = [] then Inl (Error ''Tidak ada UTXO (butuh GRD untuk fee)'')
     else let (selected, collected) = collectUtxos (of_int (FEE + DUST)) utxos [] 0
          in if collected < FEE then Inl (Error ''Saldo GRD tidak cukup untuk fee'')
             else let change = collected - FEE
                  in Inr (selected, [opReturn opreturn_data] @ (if change > DUST then [payTo changeAddr (of_int change)] else [])))"

definition orderPayment :: "string \<Rightarrow> string \<Rightarrow> UTXO list \<Rightarrow> (UTXO list \<times> NumOutput list) result" where
  "orderPayment opreturn_data changeAddr utxos =
    (if utxos = [] then Inl (Error ''Tidak ada UTXO'')
     else let totalIn = sum_list (map utxo_value utxos); change = totalIn - FEE
          in Inr (utxos, [opReturn opreturn_data] @ (if change > DUST then [payTo changeAddr (of_int change)] else [])))"

text \<open>\<open>BigInt(value)\<close> throws on a number that is not an integer; the output scripts come first.\<close>

definition toBigInt :: "rat \<Rightarrow> int result" where
  "toBigInt x = (if x = of_int \<lfloor>x\<rfloor> then Inr \<lfloor>x\<rfloor> else Inl RangeError)"

definition numOutput :: "int \<Rightarrow> NumOutput \<Rightarrow> TxOutput" where
  "numOutput v out = \<lparr>out_address = no_address out, out_opreturn = no_opreturn out, out_value = v\<rparr>"

definition signTx :: "crypto \<Rightarrow> UTXO list \<times> NumOutput list \<Rightarrow> ext_DerivedKey \<Rightarrow> string result" where
  "signTx C tx key =
    rbind (rmap (\<lambda>out. ext_outScript (numOutput 0 out)) (snd tx)) (\<lambda>_.
    rbind (rmap (\<lambda>out. toBigInt (no_value out)) (snd tx)) (\<lambda>values.
      ext_buildAndSignTx C (fst tx) (map2 numOutput values (snd tx)) (ek_privateKey key) (ek_publicKey key)))"

section \<open>State and segments\<close>

record env =
  e_crypto :: crypto
  e_web :: webcrypto
  e_rand :: "nat \<Rightarrow> byte list \<times> byte list"   \<comment> \<open>salt and nonce of a call\<close>
  e_uuid :: "nat \<Rightarrow> string"
  e_round :: "rat \<Rightarrow> rat"

record bg = vault_state +
  pendingRequests :: "(string \<times> PendingRequest) list"
  badge :: string
  popup :: string
  approvalTimers :: "string list"
  tabMessages :: "(int \<times> string \<times> result_value result) list"   \<comment> \<open>tab, request, outcome\<close>
  draws :: nat
  uuids :: nat

datatype proc =
    Finish response
  | Resume "bg \<Rightarrow> bg \<times> proc"
  | Fetch request "reply \<Rightarrow> bg \<Rightarrow> bg \<times> proc"

type_synonym segment = "bg \<Rightarrow> bg \<times> proc"

definition bg_init :: "string option \<Rightarrow> bg" where
  "bg_init stored = vault_state.extend (vault_init stored)
    \<lparr>pendingRequests = [], badge = [], popup = ''popup.html'', approvalTimers = [], tabMessages = [], draws = 0, uuids = 0\<rparr>"

definition fail :: "js_error \<Rightarrow> segment" where
  "fail e s = (s, Finish (Failure (if e = Error [] then Error ''Unknown error'' else e)))"

definition answer :: "result_value \<Rightarrow> segment" where
  "answer v s = (s, Finish (Result v))"

definition withSession :: "(nat \<Rightarrow> segment) \<Rightarrow> segment" where
  "withSession k s = (case getSession s of None \<Rightarrow> fail (Error ''Wallet terkunci'') s | Some (_, v) \<Rightarrow> k v s)"

text \<open>\<open>await saveVault(data, password)\<close>: the text is made from the data now and written later.\<close>

definition saving :: "env \<Rightarrow> VaultData \<Rightarrow> string \<Rightarrow> segment \<Rightarrow> segment" where
  "saving E data password k s =
    (case e_rand E (draws s) of (salt, iv) \<Rightarrow>
      (s\<lparr>draws := draws s + 1\<rparr>, Resume (\<lambda>s1. (saveVault (e_web E) salt iv data password s1, Resume k))))"

definition loading :: "env \<Rightarrow> string \<Rightarrow> (VaultData option \<Rightarrow> segment) \<Rightarrow> segment" where
  "loading E password k s = (s, Resume (\<lambda>s1. (s1, Resume (k (loadVault (e_web E) password s1)))))"

definition alloc :: "VaultData \<Rightarrow> bg \<Rightarrow> bg \<times> nat" where
  "alloc vault s = (s\<lparr>vs_heap := vs_heap s @ [vault]\<rparr>, length (vs_heap s))"

definition sendResultToTab :: "int \<Rightarrow> string \<Rightarrow> result_value result \<Rightarrow> bg \<Rightarrow> bg" where
  "sendResultToTab tabId requestId outcome s =
    (if tabId < 0 then s else s\<lparr>tabMessages := tabMessages s @ [(tabId, requestId, outcome)]\<rparr>)"

definition showApprovalPopup :: "string \<Rightarrow> bg \<Rightarrow> bg" where
  "showApprovalPopup approvalId s =
    s\<lparr>badge := ''1'', popup := ''popup.html?approval='' @ approvalId, approvalTimers := approvalId # approvalTimers s\<rparr>"

text \<open>The callback of its \<open>setTimeout\<close>.\<close>

definition approvalTimeout :: "string \<Rightarrow> bg \<Rightarrow> bg" where
  "approvalTimeout approvalId s =
    (if approvalId \<notin> set (approvalTimers s) then s
     else let s1 = s\<lparr>approvalTimers := removeAll approvalId (approvalTimers s)\<rparr>
          in case map_of (pendingRequests s1) approvalId of
               None \<Rightarrow> s1
             | Some pending \<Rightarrow>
                 sendResultToTab (pr_tabId pending) (pr_requestId pending) (Inl (Error ''Request timeout''))
                   (s1\<lparr>pendingRequests := mdelete approvalId (pendingRequests s1), badge := [], popup := ''popup.html''\<rparr>))"

section \<open>Wallet handlers\<close>

definition firstAddress :: "VaultData \<Rightarrow> string option" where
  "firstAddress vault = (case vd_accounts vault of [] \<Rightarrow> None | a # _ \<Rightarrow> Some (am_address a))"

definition wallet_hasVault :: segment where
  "wallet_hasVault s = (s, Resume (\<lambda>s1. answer (RBool (hasVault s1)) s1))"

definition wallet_create :: "env \<Rightarrow> string \<Rightarrow> string \<Rightarrow> string option \<Rightarrow> segment" where
  "wallet_create E mnemonic password accountName s =
    (case ext_deriveKey (e_crypto E) mnemonic 0 0 of
       Inl e \<Rightarrow> fail e s
     | Inr key \<Rightarrow>
         (let name = (case accountName of Some n \<Rightarrow> if n = [] then ''Akun 1'' else n | None \<Rightarrow> ''Akun 1'');
              vault = \<lparr>vd_mnemonic = mnemonic,
                vd_accounts = [\<lparr>am_name = name, am_address = ek_address key, am_derivationPath = ek_derivationPath key, am_index = 0\<rparr>],
                vd_connectedSites = [], vd_network = ''regtest'', vd_autoLock = 30\<rparr>;
              (s1, v) = alloc vault s
          in saving E vault password (\<lambda>s2. answer (RAddress (Some (ek_address key))) (setSession password v s2)) s1))"

definition wallet_unlock :: "env \<Rightarrow> string \<Rightarrow> segment" where
  "wallet_unlock E password =
    loading E password (\<lambda>loaded s.
      case loaded of
        None \<Rightarrow> fail (Error ''Password salah'') s
      | Some vault \<Rightarrow> (case alloc vault s of (s1, v) \<Rightarrow>
          answer (RAddress (firstAddress vault)) (setSession password v s1)))"

definition wallet_lock :: segment where
  "wallet_lock s = answer (RBool True) (clearSession s)"

definition wallet_getAccounts :: segment where
  "wallet_getAccounts = withSession (\<lambda>v s. answer (RAccounts (vd_accounts (vs_heap s ! v))) s)"

definition wallet_addAccount :: "env \<Rightarrow> segment" where
  "wallet_addAccount E =
    withSession (\<lambda>v s.
      let vault = vs_heap s ! v; nextIndex = length (vd_accounts vault)
      in case ext_deriveKey (e_crypto E) (vd_mnemonic vault) 0 nextIndex of
           Inl e \<Rightarrow> fail e s
         | Inr key \<Rightarrow>
             (let newAccount = \<lparr>am_name = ''Akun '' @ toString10 (nextIndex + 1), am_address = ek_address key,
                    am_derivationPath = ek_derivationPath key, am_index = nextIndex\<rparr>;
                  s1 = s\<lparr>vs_heap := (vs_heap s)[v := vault\<lparr>vd_accounts := vd_accounts vault @ [newAccount]\<rparr>]\<rparr>
              in case persistSession v s1 of
                   (s2, None) \<Rightarrow> answer (RAccount newAccount) s2
                 | (s2, Some (data, password)) \<Rightarrow> saving E data password (answer (RAccount newAccount)) s2))"

definition wallet_exportMnemonic :: "env \<Rightarrow> string \<Rightarrow> segment" where
  "wallet_exportMnemonic E password =
    withSession (\<lambda>v. loading E password (\<lambda>verified s.
      case verified of
        None \<Rightarrow> fail (Error ''Password salah'') s
      | Some _ \<Rightarrow> answer (RStr (vd_mnemonic (vs_heap s ! v))) s))"

definition fetching :: "request \<Rightarrow> (json \<Rightarrow> segment) \<Rightarrow> (js_error \<Rightarrow> segment) \<Rightarrow> segment" where
  "fetching q k failed s = (s, Fetch q (\<lambda>r. case r of NetworkError e \<Rightarrow> failed e | Json j \<Rightarrow> k j))"

definition addressOr :: "string option \<Rightarrow> VaultData \<Rightarrow> string option" where
  "addressOr address vault =
    (case address of Some a \<Rightarrow> if a = [] then firstAddress vault else Some a | None \<Rightarrow> firstAddress vault)"

definition wallet_getBalance :: "string option \<Rightarrow> segment" where
  "wallet_getBalance address =
    withSession (\<lambda>v s. fetching (Connect (addressOr address (vs_heap s ! v))) (\<lambda>res. answer (RServer res)) fail s)"

definition wallet_getAddressInfo :: "string option \<Rightarrow> segment" where
  "wallet_getAddressInfo address =
    withSession (\<lambda>v s. fetching (AddressInfo (addressOr address (vs_heap s ! v))) (\<lambda>res. answer (RServer res)) fail s)"

text \<open>One pass of \<open>for (const s of (sc || [])) results.push(...)\<close>; the flag says that it threw.\<close>

definition assetEntry :: "string \<Rightarrow> json \<Rightarrow> json result" where
  "assetEntry tipe s =
    rbind (getProp s ''asset_id'') (\<lambda>a. rbind (getProp s ''assetId'') (\<lambda>b. rbind (getProp s ''symbol'') (\<lambda>sym. rbind (getProp s ''name'') (\<lambda>n.
      Inr (JObj ([(k, v). (k, Some v) \<leftarrow> [(''assetId'', orElse a b), (''symbol'', sym), (''name'', n)]] @ [(''tipe'', JStr tipe)]))))))"

fun pushAssets :: "string \<Rightarrow> json list \<Rightarrow> json list \<Rightarrow> json list \<times> bool" where
  "pushAssets tipe [] results = (results, False)"
| "pushAssets tipe (s # ss) results =
    (case assetEntry tipe s of Inl _ \<Rightarrow> (results, True) | Inr e \<Rightarrow> pushAssets tipe ss (results @ [e]))"

fun iterate :: "json \<Rightarrow> json list option" where
  "iterate (JArr vs) = Some vs"
| "iterate (JStr s) = Some (map (\<lambda>c. JStr [c]) s)"
| "iterate v = (if truthy v then None else Some [])"

definition assetsFrom :: "request \<Rightarrow> string \<Rightarrow> json list \<Rightarrow> (json list \<Rightarrow> segment) \<Rightarrow> segment" where
  "assetsFrom q tipe results k =
    (let handle = (\<lambda>j. case iterate j of
           None \<Rightarrow> answer (RServer (JArr results))
         | Some ss \<Rightarrow> (case pushAssets tipe ss results of
             (results', True) \<Rightarrow> answer (RServer (JArr results'))
           | (results', False) \<Rightarrow> k results'))
     in fetching q handle (\<lambda>_. handle (JArr [])))"

definition wallet_getAssetList :: segment where
  "wallet_getAssetList =
    assetsFrom Stablecoins ''STABLECOIN'' [] (\<lambda>r1.
    assetsFrom PeggedStablecoins ''STABLECOIN_PEGGED'' r1 (\<lambda>r2.
    assetsFrom Stocks ''SAHAM'' r2 (\<lambda>r3. answer (RServer (JArr r3)))))"

text \<open>Sign the payment, broadcast it and hand the reply on; \<open>failed\<close> is where an exception goes.\<close>

definition signAndBroadcast ::
  "env \<Rightarrow> ext_DerivedKey \<Rightarrow> (js_error \<Rightarrow> segment) \<Rightarrow> (json \<Rightarrow> segment) \<Rightarrow> (UTXO list \<times> NumOutput list) result \<Rightarrow> segment" where
  "signAndBroadcast E key failed k payment =
    (case rbind payment (\<lambda>tx. signTx (e_crypto E) tx key) of
       Inl e \<Rightarrow> failed e
     | Inr rawHex \<Rightarrow> (\<lambda>s. (s, Resume (fetching (Broadcast rawHex) k failed))))"

definition withKey ::
  "env \<Rightarrow> (js_error \<Rightarrow> segment) \<Rightarrow> string \<Rightarrow> AccountMeta option \<Rightarrow> (AccountMeta \<Rightarrow> ext_DerivedKey \<Rightarrow> segment) \<Rightarrow> segment" where
  "withKey E failed mnemonic account k =
    (case account of
       None \<Rightarrow> failed TypeError
     | Some a \<Rightarrow> (case ext_deriveKey (e_crypto E) mnemonic 0 (am_index a) of Inl e \<Rightarrow> failed e | Inr key \<Rightarrow> k a key))"

definition firstAccount :: "VaultData \<Rightarrow> AccountMeta option" where
  "firstAccount vault = (case vd_accounts vault of [] \<Rightarrow> None | a # _ \<Rightarrow> Some a)"

text \<open>\<open>prep.error || !prep.opreturn_data\<close>; the data of a prepared transfer is a string.\<close>

definition preparedData :: "json \<Rightarrow> string result" where
  "preparedData prep =
    rbind (getProp prep ''error'') (\<lambda>err. rbind (getProp prep ''opreturn_data'') (\<lambda>d.
      case orElse err None of
        Some e \<Rightarrow> Inl (Error (jsText e))
      | None \<Rightarrow> (case orElse d None of
          None \<Rightarrow> Inl (Error ''Gagal prepare transfer'')
        | Some (JStr h) \<Rightarrow> Inr h
        | Some _ \<Rightarrow> Inl TypeError)))"

definition wallet_sendNative :: "env \<Rightarrow> string \<Rightarrow> rat \<Rightarrow> segment" where
  "wallet_sendNative E to amtSat =
    withSession (\<lambda>v s.
      let vault = vs_heap s ! v
      in withKey E fail (vd_mnemonic vault) (firstAccount vault) (\<lambda>account key.
           fetching (Utxos (am_address account)) (\<lambda>utxoRes.
             signAndBroadcast E key fail (\<lambda>res. answer (RServer res))
               (rbind (utxosOf utxoRes) (nativePayment amtSat to (am_address account) ''Saldo tidak cukup''))) fail) s)"

definition tokenTransfer ::
  "env \<Rightarrow> (js_error \<Rightarrow> segment) \<Rightarrow> (json \<Rightarrow> segment) \<Rightarrow> AccountMeta \<Rightarrow> ext_DerivedKey \<Rightarrow> string \<Rightarrow> rat \<Rightarrow> string \<Rightarrow> segment" where
  "tokenTransfer E failed k account key assetId amt to =
    fetching (PrepareToken assetId amt (am_address account) to) (\<lambda>prep.
      case preparedData prep of
        Inl e \<Rightarrow> failed e
      | Inr opreturn_data \<Rightarrow>
          fetching (Utxos (am_address account)) (\<lambda>utxoRes.
            signAndBroadcast E key failed k (rbind (utxosOf utxoRes) (tokenPayment opreturn_data (am_address account)))) failed)
      failed"

definition wallet_sendToken :: "env \<Rightarrow> string \<Rightarrow> rat \<Rightarrow> string \<Rightarrow> segment" where
  "wallet_sendToken E to amt assetId =
    withSession (\<lambda>v s.
      let vault = vs_heap s ! v
      in withKey E fail (vd_mnemonic vault) (firstAccount vault) (\<lambda>account key.
           tokenTransfer E fail (\<lambda>res. answer (RServer res)) account key assetId amt to) s)"

section \<open>Requests of pages\<close>

definition addPending :: "env \<Rightarrow> pending_params \<Rightarrow> string \<Rightarrow> int \<Rightarrow> string \<Rightarrow> segment" where
  "addPending E params origin tabId requestId s =
    (let approvalId = e_uuid E (uuids s);
         s1 = s\<lparr>uuids := uuids s + 1,
           pendingRequests := mput approvalId \<lparr>pr_id = approvalId, pr_params = params, pr_origin = origin,
             pr_tabId = tabId, pr_requestId = requestId\<rparr> (pendingRequests s)\<rparr>
     in (showApprovalPopup approvalId s1, Finish Waiting))"

definition garuda_requestAccounts :: "env \<Rightarrow> string \<Rightarrow> int \<Rightarrow> string \<Rightarrow> segment" where
  "garuda_requestAccounts E origin tabId requestId s =
    (case getSession s of
       Some (_, v) \<Rightarrow>
         if isConnectedSite origin s then answer (RStrs (map am_address (vd_accounts (vs_heap s ! v)))) s
         else addPending E (PAccounts origin) origin tabId requestId s
     | None \<Rightarrow> addPending E (PAccounts origin) origin tabId requestId s)"

definition garuda_getAccounts :: "string \<Rightarrow> segment" where
  "garuda_getAccounts origin s =
    (case getSession s of
       None \<Rightarrow> answer (RStrs []) s
     | Some (_, v) \<Rightarrow>
         if \<not> isConnectedSite origin s then answer (RStrs []) s
         else answer (RStrs (map am_address (vd_accounts (vs_heap s ! v)))) s)"

definition whenConnected :: "string \<Rightarrow> segment \<Rightarrow> segment" where
  "whenConnected origin k s = (if \<not> isConnectedSite origin s then fail (Error ''Site tidak terhubung'') s else k s)"

definition garuda_placeOrder :: "env \<Rightarrow> order_params \<Rightarrow> string \<Rightarrow> int \<Rightarrow> string \<Rightarrow> segment" where
  "garuda_placeOrder E params origin tabId requestId =
    withSession (\<lambda>_. whenConnected origin (addPending E (POrder params) origin tabId requestId))"

definition garuda_signMessage :: "env \<Rightarrow> string \<Rightarrow> string \<Rightarrow> string \<Rightarrow> int \<Rightarrow> string \<Rightarrow> segment" where
  "garuda_signMessage E msg address origin tabId requestId =
    withSession (\<lambda>_. addPending E (PSign msg address) origin tabId requestId)"

definition garuda_sendTransaction :: "env \<Rightarrow> send_params \<Rightarrow> string \<Rightarrow> int \<Rightarrow> string \<Rightarrow> segment" where
  "garuda_sendTransaction E params origin tabId requestId =
    withSession (\<lambda>_. whenConnected origin (
      if sp_from params = [] \<or> sp_to params = [] \<or> sp_amount params \<le> 0 then fail (Error ''Parameter tidak valid'')
      else addPending E (PSend params) origin tabId requestId))"

definition garuda_sendToken :: "env \<Rightarrow> token_params \<Rightarrow> string \<Rightarrow> int \<Rightarrow> string \<Rightarrow> segment" where
  "garuda_sendToken E params origin tabId requestId =
    withSession (\<lambda>_. whenConnected origin (
      if tp_from params = [] \<or> tp_to params = [] \<or> tp_assetId params = [] \<or> tp_amount params = 0 then fail (Error ''Parameter tidak valid'')
      else addPending E (PToken params) origin tabId requestId))"

section \<open>Approved requests\<close>

definition tell :: "PendingRequest \<Rightarrow> result_value \<Rightarrow> segment" where
  "tell pending v s = answer (RStr ''ok'') (sendResultToTab (pr_tabId pending) (pr_requestId pending) (Inr v) s)"

definition tellError :: "PendingRequest \<Rightarrow> js_error \<Rightarrow> segment" where
  "tellError pending e s =
    answer (RStr ''ok'') (sendResultToTab (pr_tabId pending) (pr_requestId pending) (Inl (if e = Error [] then Error ''Error'' else e)) s)"

text \<open>\<open>accounts.find(a => a.address === address) || accounts[0]\<close>\<close>

definition accountFor :: "string \<Rightarrow> VaultData \<Rightarrow> AccountMeta option" where
  "accountFor address vault =
    (case find (\<lambda>a. am_address a = address) (vd_accounts vault) of Some a \<Rightarrow> Some a | None \<Rightarrow> firstAccount vault)"

definition approvedAccounts :: "env \<Rightarrow> PendingRequest \<Rightarrow> nat \<Rightarrow> segment" where
  "approvedAccounts E pending v s =
    (let s1 = addConnectedSite (pr_origin pending) s;
         finish = (\<lambda>s3. tell pending (RStrs (map am_address (vd_accounts (vs_heap s3 ! v)))) s3)
     in case persistSession v s1 of
          (s2, None) \<Rightarrow> finish s2
        | (s2, Some (data, password)) \<Rightarrow> saving E data password finish s2)"

text \<open>\<open>orderRes.utxos\<close> and \<open>orderRes.opreturn_data\<close>; missing data is an absent output script.\<close>

definition orderTx :: "json \<Rightarrow> string \<Rightarrow> (UTXO list \<times> NumOutput list) result" where
  "orderTx orderRes address =
    rbind (getProp orderRes ''utxos'') (\<lambda>u. rbind (utxoArray (orElse u None)) (\<lambda>utxos.
      if utxos = [] then Inl (Error ''Tidak ada UTXO'')
      else rbind (getProp orderRes ''opreturn_data'') (\<lambda>d.
        case d of Some (JStr h) \<Rightarrow> orderPayment h address utxos | _ \<Rightarrow> Inl TypeError)))"

definition approvedOrder :: "env \<Rightarrow> PendingRequest \<Rightarrow> order_params \<Rightarrow> nat \<Rightarrow> segment" where
  "approvedOrder E pending params v =
    fetching (PrepareOrder params) (\<lambda>orderRes.
      case getProp orderRes ''error'' of
        Inl e \<Rightarrow> tellError pending e
      | Inr err \<Rightarrow>
          (case orElse err None of
             Some e \<Rightarrow> tellError pending (Error (jsText e))
           | None \<Rightarrow> (\<lambda>s.
               let vault = vs_heap s ! v
               in withKey E (tellError pending) (vd_mnemonic vault) (accountFor (op_address params) vault) (\<lambda>account key.
                    signAndBroadcast E key (tellError pending) (\<lambda>res. tell pending (RServer res))
                      (orderTx orderRes (op_address params))) s)))
      (tellError pending)"

text \<open>The reply of a broadcast: an error is thrown, else the id of the transaction is told.\<close>

definition broadcastTx :: "PendingRequest \<Rightarrow> json \<Rightarrow> segment" where
  "broadcastTx pending res =
    (case rbind (getProp res ''error'') (\<lambda>err. rbind (getProp res ''txid'') (\<lambda>t. rbind (getProp res ''hash'') (\<lambda>h.
            case orElse err None of Some e \<Rightarrow> Inl (Error (jsText e))
            | None \<Rightarrow> Inr (case orElse t (orElse h None) of Some x \<Rightarrow> jsText x | None \<Rightarrow> [])))) of
       Inl e \<Rightarrow> tellError pending e
     | Inr i \<Rightarrow> tell pending (RTx i))"

definition memoOutput :: "string option \<Rightarrow> NumOutput list" where
  "memoOutput memo = (case memo of None \<Rightarrow> [] | Some m \<Rightarrow> if m = [] then [] else [opReturn (toHex (utf8 m))])"

definition amountSat :: "env \<Rightarrow> rat \<Rightarrow> rat" where
  "amountSat E amount = of_int \<lfloor>e_round E (amount * 100000000) + 1 / 2\<rfloor>"

definition approvedSend :: "env \<Rightarrow> PendingRequest \<Rightarrow> send_params \<Rightarrow> nat \<Rightarrow> segment" where
  "approvedSend E pending params v s =
    (let vault = vs_heap s ! v
     in withKey E (tellError pending) (vd_mnemonic vault) (accountFor (sp_from params) vault) (\<lambda>account key.
          fetching (Utxos (am_address account)) (\<lambda>utxoRes.
            signAndBroadcast E key (tellError pending) (broadcastTx pending)
              (rbind (utxosOf utxoRes) (\<lambda>utxos.
                rbind (nativePayment (amountSat E (sp_amount params)) (sp_to params) (am_address account) ''Saldo GRD tidak cukup'' utxos)
                  (\<lambda>(selected, outputs). Inr (selected, outputs @ memoOutput (sp_memo params))))))
            (tellError pending)) s)"

definition approvedToken :: "env \<Rightarrow> PendingRequest \<Rightarrow> token_params \<Rightarrow> nat \<Rightarrow> segment" where
  "approvedToken E pending params v s =
    (let vault = vs_heap s ! v
     in withKey E (tellError pending) (vd_mnemonic vault) (accountFor (tp_from params) vault) (\<lambda>account key.
          tokenTransfer E (tellError pending) (broadcastTx pending) account key (tp_assetId params) (tp_amount params) (tp_to params)) s)"

definition signedPayload :: "string \<Rightarrow> byte list" where
  "signedPayload msg =
    (let msgBytes = utf8 msg
     in utf8 (CHR 0x18 # ''GarudaChain Signed Message:'' @ [CHR 0x0A]) @ [of_nat (length msgBytes)] @ msgBytes)"

definition approvedSign :: "env \<Rightarrow> PendingRequest \<Rightarrow> string \<Rightarrow> string \<Rightarrow> nat \<Rightarrow> segment" where
  "approvedSign E pending msg address v s =
    (let vault = vs_heap s ! v
     in withKey E (tellError pending) (vd_mnemonic vault) (accountFor address vault) (\<lambda>account key.
          (\<lambda>s1. (s1, Resume (case signDER (e_crypto E) (sha256d (e_crypto E) (signedPayload msg)) (ek_privateKey key) of
              Inl e \<Rightarrow> tellError pending e
            | Inr sig \<Rightarrow> tell pending (RSignature (toHex sig) address))))) s)"

definition handleApproved :: "env \<Rightarrow> PendingRequest \<Rightarrow> segment" where
  "handleApproved E pending s =
    (case getSession s of
       None \<Rightarrow> tellError pending (Error ''Wallet terkunci'') s
     | Some (_, v) \<Rightarrow>
         (case pr_params pending of
            PAccounts _ \<Rightarrow> approvedAccounts E pending v s
          | POrder params \<Rightarrow> approvedOrder E pending params v s
          | PSend params \<Rightarrow> approvedSend E pending params v s
          | PToken params \<Rightarrow> approvedToken E pending params v s
          | PSign msg address \<Rightarrow> approvedSign E pending msg address v s))"

definition approval_response :: "env \<Rightarrow> string \<Rightarrow> bool \<Rightarrow> segment" where
  "approval_response E i approved s =
    (case map_of (pendingRequests s) i of
       None \<Rightarrow> answer RNull s
     | Some pending \<Rightarrow>
         (let s1 = s\<lparr>pendingRequests := mdelete i (pendingRequests s), badge := [], popup := ''popup.html''\<rparr>
          in if approved then handleApproved E pending s1
             else tellError pending (Error ''Ditolak pengguna'') s1))"

section \<open>The listener\<close>

fun splitSlash :: "string \<Rightarrow> string \<Rightarrow> string list" where
  "splitSlash cur [] = [cur]"
| "splitSlash cur (c # s) = (if c = CHR ''/'' then cur # splitSlash [] s else splitSlash (cur @ [c]) s)"

definition originOf :: "message \<Rightarrow> sender \<Rightarrow> string" where
  "originOf m sd =
    (let truthyStr = (\<lambda>a. case a of Some x \<Rightarrow> x \<noteq> [] | None \<Rightarrow> False);
         url = Option.bind (s_tab sd) snd
     in if truthyStr (m_origin m) then the (m_origin m)
        else if truthyStr (s_origin sd) then the (s_origin sd)
        else case url of Some u \<Rightarrow> join ''/'' (take 3 (splitSlash [] u)) | None \<Rightarrow> [])"

definition tabIdOf :: "sender \<Rightarrow> int" where
  "tabIdOf sd = (case s_tab sd of Some (t, _) \<Rightarrow> if t = 0 then -1 else t | None \<Rightarrow> -1)"

definition handleMessage :: "env \<Rightarrow> message \<Rightarrow> sender \<Rightarrow> segment" where
  "handleMessage E m sd =
    (let origin = originOf m sd; tabId = tabIdOf sd; requestId = (case m_id m of Some i \<Rightarrow> i | None \<Rightarrow> [])
     in case m_call m of
       Wallet_hasVault \<Rightarrow> wallet_hasVault
     | Wallet_create mnemonic password name \<Rightarrow> wallet_create E mnemonic password name
     | Wallet_unlock password \<Rightarrow> wallet_unlock E password
     | Wallet_lock \<Rightarrow> wallet_lock
     | Wallet_isUnlocked \<Rightarrow> (\<lambda>s. answer (RBool (isUnlocked s)) s)
     | Wallet_getAccounts \<Rightarrow> wallet_getAccounts
     | Wallet_addAccount \<Rightarrow> wallet_addAccount E
     | Wallet_exportMnemonic password \<Rightarrow> wallet_exportMnemonic E password
     | Wallet_getBalance a \<Rightarrow> wallet_getBalance a
     | Wallet_getAddressInfo a \<Rightarrow> wallet_getAddressInfo a
     | Wallet_getAssetList \<Rightarrow> wallet_getAssetList
     | Wallet_sendNative to amt \<Rightarrow> wallet_sendNative E to amt
     | Wallet_sendToken to amt asset \<Rightarrow> wallet_sendToken E to amt asset
     | Garuda_requestAccounts \<Rightarrow> garuda_requestAccounts E origin tabId requestId
     | Garuda_getAccounts \<Rightarrow> garuda_getAccounts origin
     | Garuda_placeOrder p \<Rightarrow> garuda_placeOrder E p origin tabId requestId
     | Garuda_signMessage msg a \<Rightarrow> garuda_signMessage E msg a origin tabId requestId
     | Garuda_sendTransaction p \<Rightarrow> garuda_sendTransaction E p origin tabId requestId
     | Garuda_sendToken p \<Rightarrow> garuda_sendToken E p origin tabId requestId
     | Approval_response i ok \<Rightarrow> approval_response E i ok
     | Unknown name \<Rightarrow> fail (Error (''Unknown method: '' @ name))
     | Get_pending_approval _ \<Rightarrow> fail (Error ''Unknown method: get_pending_approval'')
     | Get_any_pending \<Rightarrow> fail (Error ''Unknown method: get_any_pending'')
     | Get_wallet_info \<Rightarrow> fail (Error ''Unknown method: get_wallet_info''))"

definition describe :: "PendingRequest \<Rightarrow> result_value" where
  "describe p = RPending (methodOf (pr_params p)) (pr_params p) (pr_origin p) (pr_id p)"

definition onMessage :: "env \<Rightarrow> message \<Rightarrow> sender \<Rightarrow> segment" where
  "onMessage E m sd s =
    (case m_call m of
       Get_pending_approval i \<Rightarrow>
         (case map_of (pendingRequests s) i of
            Some p \<Rightarrow> answer (RPending (methodOf (pr_params p)) (pr_params p) (pr_origin p) i) s
          | None \<Rightarrow> answer RNull s)
     | Get_any_pending \<Rightarrow>
         (case pendingRequests s of (_, p) # _ \<Rightarrow> answer (describe p) s | [] \<Rightarrow> answer RNull s)
     | Get_wallet_info \<Rightarrow>
         (case getSession s of
            None \<Rightarrow> answer RNull s
          | Some (_, v) \<Rightarrow>
              (let accounts = vd_accounts (vs_heap s ! v)
               in if accounts = [] then answer RNull s
                  else answer (RInfo (map (\<lambda>a. (am_name a, am_address a)) accounts)) s))
     | _ \<Rightarrow> handleMessage E m sd s)"

section \<open>Runs\<close>

text \<open>The worker with its unfinished handlers, and what it received, asked and answered so far.\<close>

record worker =
  w_bg :: bg
  w_tasks :: "(nat \<times> proc) list"
  w_received :: "(nat \<times> message \<times> sender) list"
  w_asked :: "(nat \<times> request) list"
  w_answered :: "(nat \<times> response) list"

definition worker_init :: "string option \<Rightarrow> worker" where
  "worker_init stored = \<lparr>w_bg = bg_init stored, w_tasks = [], w_received = [], w_asked = [], w_answered = []\<rparr>"

definition settle :: "nat \<Rightarrow> bg \<times> proc \<Rightarrow> worker \<Rightarrow> worker" where
  "settle t r w =
    (let w1 = w\<lparr>w_bg := fst r\<rparr>
     in case snd r of
          Finish a \<Rightarrow> w1\<lparr>w_tasks := mdelete t (w_tasks w), w_answered := w_answered w @ [(t, a)]\<rparr>
        | Resume f \<Rightarrow> w1\<lparr>w_tasks := mput t (Resume f) (w_tasks w)\<rparr>
        | Fetch q k \<Rightarrow> w1\<lparr>w_tasks := mput t (Fetch q k) (w_tasks w), w_asked := w_asked w @ [(t, q)]\<rparr>)"

definition receive :: "env \<Rightarrow> message \<Rightarrow> sender \<Rightarrow> worker \<Rightarrow> worker" where
  "receive E m sd w =
    (let t = length (w_received w)
     in settle t (onMessage E m sd (w_bg w)) (w\<lparr>w_received := w_received w @ [(t, m, sd)]\<rparr>))"

inductive step :: "env \<Rightarrow> worker \<Rightarrow> worker \<Rightarrow> bool" for E where
  Receive: "step E w (receive E m sd w)"
| Resumed: "map_of (w_tasks w) t = Some (Resume f) \<Longrightarrow> step E w (settle t (f (w_bg w)) w)"
| Replied: "map_of (w_tasks w) t = Some (Fetch q k) \<Longrightarrow> step E w (settle t (k r (w_bg w)) w)"
| Locked: "step E w (w\<lparr>w_bg := fireLock n (w_bg w)\<rparr>)"
| Expired: "step E w (w\<lparr>w_bg := approvalTimeout i (w_bg w)\<rparr>)"

inductive reach :: "env \<Rightarrow> string option \<Rightarrow> worker \<Rightarrow> bool" for E stored where
  init: "reach E stored (worker_init stored)"
| step: "reach E stored w \<Longrightarrow> step E w w' \<Longrightarrow> reach E stored w'"

end
