(* ===== verification/Worker.thy ===== *)
theory Worker imports Background begin

text \<open>
  What the background worker of the extension guarantees while its handlers interleave.

  A handler of \<^verbatim>\<open>extension/src/background/index.ts\<close> is a process that stops at every \<open>await\<close>
  (\<open>proc\<close> of the theory Background); between two stops, other messages, replies and timers run.
  The locale \<open>interference\<close> holds the rely and guarantee reasoning for one process, and
  \<open>worker_rules\<close> lists what a change to the worker's state must satisfy, once for each kind of
  change the code makes, so that every handler keeps an invariant. The interpretations \<open>life\<close>
  (sessions, timers and pending requests), \<open>conn\<close> (connected sites) and \<open>pend\<close> (origin of the
  pending requests) discharge these rules for the worker. The history lemmas follow a
  transaction that is broadcast back to the message that caused it. The payment lemmas are about
  the balance of the transactions. The properties at the end rest on these facts.
\<close>

section \<open>Segments under interference\<close>

text \<open>Between two segments of a handler the other handlers and the timers may take any steps
  that satisfy the rely condition \<open>R\<close>. A handler is safe if every segment of it keeps the
  invariant \<open>I\<close> and satisfies the guarantee \<open>G\<close>. The first segment, which the message \<open>m\<close>
  starts, satisfies \<open>Q m\<close>, so that \<open>Q\<close> tells what a message can do at once.\<close>

inductive safe :: "(bg \<Rightarrow> bool) \<Rightarrow> (bg \<Rightarrow> bg \<Rightarrow> bool) \<Rightarrow> (bg \<Rightarrow> bg \<Rightarrow> bool) \<Rightarrow> bg \<Rightarrow> proc \<Rightarrow> bool" for I R G where
  Finish: "safe I R G s (Finish r)"
| Resume: "(\<And>s'. R s s' \<Longrightarrow> I s' \<Longrightarrow> I (fst (f s')) \<and> G s' (fst (f s')) \<and> safe I R G (fst (f s')) (snd (f s'))) \<Longrightarrow>
    safe I R G s (Resume f)"
| Fetch: "(\<And>r s'. R s s' \<Longrightarrow> I s' \<Longrightarrow> I (fst (k r s')) \<and> G s' (fst (k r s')) \<and> safe I R G (fst (k r s')) (snd (k r s'))) \<Longrightarrow>
    safe I R G s (Fetch q k)"

inductive_simps safe_Resume: "safe I R G s (Resume f)"
inductive_simps safe_Fetch: "safe I R G s (Fetch q k)"

definition good :: "(bg \<Rightarrow> bool) \<Rightarrow> (bg \<Rightarrow> bg \<Rightarrow> bool) \<Rightarrow> (bg \<Rightarrow> bg \<Rightarrow> bool) \<Rightarrow> (bg \<Rightarrow> bg \<Rightarrow> bool) \<Rightarrow> bg \<Rightarrow> bg \<times> proc \<Rightarrow> bool" where
  "good I R G Q s r \<longleftrightarrow> I (fst r) \<and> Q s (fst r) \<and> safe I R G (fst r) (snd r)"

lemma settle_bg: "w_bg (settle t r w) = fst r"
  by (simp add: settle_def Let_def split: proc.split)

lemma receive_bg: "w_bg (receive E m sd w) = fst (onMessage E m sd (w_bg w))"
  by (simp add: receive_def Let_def settle_bg)

locale interference =
  fixes I :: "bg \<Rightarrow> bool" and R G :: "bg \<Rightarrow> bg \<Rightarrow> bool" and Q :: "message \<Rightarrow> sender \<Rightarrow> bg \<Rightarrow> bg \<Rightarrow> bool"
  assumes G_refl: "G s s"
    and G_trans: "G s t \<Longrightarrow> G t u \<Longrightarrow> G s u"
    and R_trans: "R s t \<Longrightarrow> R t u \<Longrightarrow> R s u"
    and G_Q: "G s t \<Longrightarrow> Q m sd s t"
    and Q_R: "Q m sd s t \<Longrightarrow> R s t"
    and Q_G: "Q m sd s t \<Longrightarrow> G t u \<Longrightarrow> Q m sd s u"
begin

lemma G_R: "G s t \<Longrightarrow> R s t"
  using G_Q Q_R by blast

lemma R_refl: "R s s"
  by (rule G_R [OF G_refl])

lemma safe_mono: "safe I R G s p \<Longrightarrow> R s s' \<Longrightarrow> safe I R G s' p"
  by (cases p) (auto simp: safe_Resume safe_Fetch intro: safe.intros R_trans)

lemma good_weaken: "good I R G G s r \<Longrightarrow> good I R G (Q m sd) s r"
  by (auto simp: good_def intro: G_Q)

definition cont :: "bg \<Rightarrow> segment \<Rightarrow> bool" where
  "cont s k \<longleftrightarrow> (\<forall>s'. R s s' \<longrightarrow> I s' \<longrightarrow> good I R G G s' (k s'))"

lemma cont_mono: "cont s k \<Longrightarrow> R s s' \<Longrightarrow> cont s' k"
  by (auto simp: cont_def intro: R_trans)

lemma contD: "cont s k \<Longrightarrow> I s \<Longrightarrow> good I R G G s (k s)"
  by (simp add: cont_def R_refl)

lemma cont_I: "(\<And>s'. R s s' \<Longrightarrow> I s' \<Longrightarrow> good I R G G s' (k s')) \<Longrightarrow> cont s k"
  by (simp add: cont_def)

lemma safe_resume: "cont s f \<Longrightarrow> safe I R G s (Resume f)"
  by (auto simp: cont_def good_def intro: safe.Resume)

lemma safe_fetch: "(\<And>r. cont s (k r)) \<Longrightarrow> safe I R G s (Fetch q k)"
  by (auto simp: cont_def good_def intro: safe.Fetch)

lemma good_step: "I s' \<Longrightarrow> P s s' \<Longrightarrow> safe I R G s' p \<Longrightarrow> good I R G P s (s', p)"
  by (simp add: good_def)

lemma good_from: "G s s' \<Longrightarrow> good I R G G s' r \<Longrightarrow> good I R G G s r"
  by (auto simp: good_def intro: G_trans)

lemma good_from_Q: "Q m sd s s' \<Longrightarrow> good I R G G s' r \<Longrightarrow> good I R G (Q m sd) s r"
  by (auto simp: good_def intro: Q_G)

lemma cont_fail: "cont s (fail e)"
  by (auto simp: cont_def fail_def intro: good_step G_refl safe.Finish)

lemma cont_answer: "cont s (answer v)"
  by (auto simp: cont_def answer_def intro: good_step G_refl safe.Finish)

lemma cont_pause: "cont s f \<Longrightarrow> cont s (\<lambda>s'. (s', Resume f))"
  by (rule cont_I) (auto intro!: good_step G_refl safe_resume intro: cont_mono)

lemma cont_fetching: "(\<And>j. cont s (k j)) \<Longrightarrow> (\<And>e. cont s (failed e)) \<Longrightarrow> cont s (fetching q k failed)"
proof (rule cont_I)
  fix s' assume k: "\<And>j. cont s (k j)" "\<And>e. cont s (failed e)" and s': "R s s'" "I s'"
  have "cont s' (k j)" "cont s' (failed e)" for j e using k s'(1) by (auto intro: cont_mono [where s = s])
  then show "good I R G G s' (fetching q k failed s')"
    unfolding fetching_def using s'(2) by (intro good_step G_refl safe_fetch) (simp_all split: reply.split)
qed

lemma cont_withKey:
  "(\<And>e. cont s (failed e)) \<Longrightarrow> (\<And>a key. cont s (k a key)) \<Longrightarrow> cont s (withKey E failed mnemonic account k)"
  by (simp add: withKey_def split: option.split sum.split)

lemma cont_signAndBroadcast:
  "(\<And>e. cont s (failed e)) \<Longrightarrow> (\<And>j. cont s (k j)) \<Longrightarrow> cont s (signAndBroadcast E key failed k payment)"
  by (auto simp: signAndBroadcast_def split: sum.split intro!: cont_pause cont_fetching)

lemma cont_tokenTransfer:
  "(\<And>e. cont s (failed e)) \<Longrightarrow> (\<And>j. cont s (k j)) \<Longrightarrow> cont s (tokenTransfer E failed k account key assetId amt to)"
  by (auto simp: tokenTransfer_def split: sum.split intro!: cont_fetching cont_signAndBroadcast)

lemma cont_assetsFrom: "(\<And>r. cont s (k r)) \<Longrightarrow> cont s (assetsFrom q tipe results k)"
  by (auto simp: assetsFrom_def Let_def split: option.split prod.split bool.split intro!: cont_fetching cont_answer)

lemma cont_loading: "(\<And>v. cont s (k v)) \<Longrightarrow> cont s (loading E password k)"
  unfolding loading_def
  by (rule cont_pause, rule cont_I) (auto intro!: good_step G_refl safe_resume intro: cont_mono)

lemmas cont_rules = cont_fail cont_answer cont_pause cont_fetching cont_withKey cont_signAndBroadcast
  cont_tokenTransfer cont_assetsFrom cont_loading

end

text \<open>The request that a message of a page asks the user to approve.\<close>

definition pendingOf :: "message \<Rightarrow> sender \<Rightarrow> pending_params option" where
  "pendingOf m sd =
    (case m_call m of
       Garuda_requestAccounts \<Rightarrow> Some (PAccounts (originOf m sd))
     | Garuda_placeOrder p \<Rightarrow> Some (POrder p)
     | Garuda_signMessage msg a \<Rightarrow> Some (PSign msg a)
     | Garuda_sendTransaction p \<Rightarrow> Some (PSend p)
     | Garuda_sendToken p \<Rightarrow> Some (PToken p)
     | _ \<Rightarrow> None)"

abbreviation decided :: "string \<Rightarrow> bg \<Rightarrow> bg" where
  "decided i s \<equiv> s\<lparr>pendingRequests := mdelete i (pendingRequests s), badge := [], popup := ''popup.html''\<rparr>"

text \<open>What the segments of the worker do to the state, update by update. A site is connected
  and a request is added only in the first segment of a message.\<close>

locale worker_rules = interference +
  fixes E :: env and stored :: "string option"
  assumes I_init: "I (bg_init stored)"
    and I_session: "I s \<Longrightarrow> session_inv s"
    and R_heap: "R s t \<Longrightarrow> length (vs_heap s) \<le> length (vs_heap t)"
    and upd_draw: "I s \<Longrightarrow> I (s\<lparr>draws := draws s + 1\<rparr>) \<and> G s (s\<lparr>draws := draws s + 1\<rparr>)"
    and upd_save: "I s \<Longrightarrow> I (saveVault W salt iv data p s) \<and> G s (saveVault W salt iv data p s)"
    and upd_alloc: "I s \<Longrightarrow> I (fst (alloc vault s)) \<and> G s (fst (alloc vault s))"
    and upd_set: "I s \<Longrightarrow> v < length (vs_heap s) \<Longrightarrow> I (setSession p v s) \<and> G s (setSession p v s)"
    and upd_clear: "I s \<Longrightarrow> I (clearSession s) \<and> G s (clearSession s)"
    and upd_account: "I s \<Longrightarrow> v < length (vs_heap s) \<Longrightarrow>
      I (s\<lparr>vs_heap := (vs_heap s)[v := (vs_heap s ! v)\<lparr>vd_accounts := as\<rparr>]\<rparr>) \<and>
      G s (s\<lparr>vs_heap := (vs_heap s)[v := (vs_heap s ! v)\<lparr>vd_accounts := as\<rparr>]\<rparr>)"
    and upd_persist: "I s \<Longrightarrow> v < length (vs_heap s) \<Longrightarrow> I (fst (persistSession v s)) \<and> G s (fst (persistSession v s))"
    and upd_connect: "I s \<Longrightarrow> m_call m = Approval_response i True \<Longrightarrow> map_of (pendingRequests s) i = Some req \<Longrightarrow>
      pr_params req = PAccounts origin \<Longrightarrow> I (addConnectedSite (pr_origin req) (decided i s)) \<and>
      Q m sd s (addConnectedSite (pr_origin req) (decided i s))"
    and upd_pending: "I s \<Longrightarrow> pendingOf m sd = Some params \<Longrightarrow>
      I (fst (addPending E params (originOf m sd) (tabIdOf sd) i s)) \<and> Q m sd s (fst (addPending E params (originOf m sd) (tabIdOf sd) i s))"
    and upd_answered: "I s \<Longrightarrow> I (decided i s) \<and> G s (decided i s)"
    and upd_tab: "I s \<Longrightarrow> I (sendResultToTab tab i out s) \<and> G s (sendResultToTab tab i out s)"
    and upd_lock: "I s \<Longrightarrow> I (fireLock n s) \<and> R s (fireLock n s)"
    and upd_expire: "I s \<Longrightarrow> I (approvalTimeout i s) \<and> R s (approvalTimeout i s)"
begin

lemma cont_tell: "cont s (tell pending v)" "cont s (tellError pending e)"
  using upd_tab by (auto simp: cont_def tell_def tellError_def answer_def intro!: good_step safe.Finish)

lemma cont_saving:
  assumes "cont s k"
  shows "cont s (saving E data password k)"
proof (rule cont_I)
  fix s1 assume 1: "R s s1" "I s1"
  obtain salt iv where r: "e_rand E (draws s1) = (salt, iv)" by fastforce
  let ?s2 = "s1\<lparr>draws := draws s1 + 1\<rparr>"
  have 2: "I ?s2" "G s1 ?s2" using upd_draw 1 by blast+
  have "cont ?s2 (\<lambda>s3. (saveVault (e_web E) salt iv data password s3, Resume k))"
  proof (rule cont_I)
    fix s3 assume 3: "R ?s2 s3" "I s3"
    have 4: "I (saveVault (e_web E) salt iv data password s3)" "G s3 (saveVault (e_web E) salt iv data password s3)"
      using upd_save 3 by blast+
    have "R s (saveVault (e_web E) salt iv data password s3)"
      using 1(1) 2(2) 3(1) 4(2) G_R R_trans by blast
    with 4 assms show "good I R G G s3 (saveVault (e_web E) salt iv data password s3, Resume k)"
      by (intro good_step safe_resume) (auto intro: cont_mono)
  qed
  with 2 r show "good I R G G s1 (saving E data password k s1)"
    by (auto simp: saving_def intro!: good_step safe_resume)
qed

lemma good_withSession:
  assumes "I s" "\<And>v. v < length (vs_heap s) \<Longrightarrow> good I R G G s (k v s)"
  shows "good I R G G s (withSession k s)"
proof (cases "getSession s")
  case None
  then show ?thesis using contD [OF cont_fail] assms(1) by (simp add: withSession_def)
next
  case (Some pv)
  then obtain p v where pv: "pv = (p, v)" "sessionVault s = Some v" by (auto simp: vault_defs split: option.splits if_splits)
  then have "v < length (vs_heap s)" using I_session [OF assms(1)] by (auto simp: session_inv_def)
  then show ?thesis using assms(2) Some pv by (simp add: withSession_def)
qed

lemma good_persisting:
  assumes "I s" "v < length (vs_heap s)" "\<And>s'. R s s' \<Longrightarrow> cont s' k"
  shows "good I R G G s (case persistSession v s of (s2, None) \<Rightarrow> k s2 | (s2, Some (data, password)) \<Rightarrow> saving E data password k s2)"
proof -
  obtain s2 x where p: "persistSession v s = (s2, x)" by fastforce
  with upd_persist [OF assms(1,2)] have 2: "I s2" "G s s2" by auto
  have k: "cont s2 k" using assms(3) 2(2) G_R by blast
  show ?thesis
  proof (cases x)
    case None
    then show ?thesis using p contD [OF k 2(1)] good_from [OF 2(2)] by simp
  next
    case (Some dp)
    then show ?thesis using p contD [OF cont_saving [OF k] 2(1)] good_from [OF 2(2)] by (cases dp) simp
  qed
qed

lemma cont_setSession:
  assumes "v < length (vs_heap s)"
  shows "cont s (\<lambda>s'. answer x (setSession p v s'))"
proof (rule cont_I)
  fix s' assume "R s s'" "I s'"
  moreover from this have "v < length (vs_heap s')" using R_heap [of s s'] assms by simp
  ultimately show "good I R G G s' (answer x (setSession p v s'))"
    using upd_set by (auto simp: answer_def intro!: good_step safe.Finish)
qed

lemma good_create: "I s \<Longrightarrow> good I R G G s (wallet_create E mnemonic password name s)"
proof (cases "ext_deriveKey (e_crypto E) mnemonic 0 0")
  case (Inl e)
  moreover assume "I s"
  ultimately show ?thesis using contD [OF cont_fail] by (simp add: wallet_create_def)
next
  case (Inr key)
  assume "I s"
  have "good I R G G s (saving E vault password (\<lambda>s2. answer x (setSession password v s2)) s1)"
    if "alloc vault s = (s1, v)" for vault x s1 v
  proof -
    have s1: "I s1" "G s s1" using upd_alloc [OF \<open>I s\<close>, of vault] that by auto
    have "v < length (vs_heap s1)" using that by (auto simp: alloc_def)
    from contD [OF cont_saving [OF cont_setSession [OF this]] s1(1)] show ?thesis by (rule good_from [OF s1(2)])
  qed
  with Inr show ?thesis by (simp add: wallet_create_def Let_def split: prod.split)
qed

lemma good_unlock: "I s \<Longrightarrow> good I R G G s (wallet_unlock E password s)"
  unfolding wallet_unlock_def
proof (rule contD [OF cont_loading])
  fix loaded
  show "cont s (\<lambda>s. case loaded of None \<Rightarrow> fail (Error ''Password salah'') s
      | Some vault \<Rightarrow> (case alloc vault s of (s1, v) \<Rightarrow> answer (RAddress (firstAddress vault)) (setSession password v s1)))"
  proof (cases loaded)
    case (Some vault)
    have "good I R G G s' (answer x (setSession password v s1))" if "I s'" "alloc vault s' = (s1, v)" for s' s1 v x
    proof -
      have s1: "I s1" "G s' s1" using upd_alloc [OF that(1), of vault] that(2) by auto
      have "v < length (vs_heap s1)" using that by (auto simp: alloc_def)
      from contD [OF cont_setSession [OF this] s1(1)] show ?thesis by (rule good_from [OF s1(2)])
    qed
    then show ?thesis using Some by (auto intro!: cont_I split: prod.split)
  qed (simp add: cont_fail)
qed

lemma good_addAccount: "I s \<Longrightarrow> good I R G G s (wallet_addAccount E s)"
  unfolding wallet_addAccount_def
proof (rule good_withSession, assumption)
  fix v assume s: "I s" "v < length (vs_heap s)"
  have "good I R G G s (case persistSession v s1 of (s2, None) \<Rightarrow> answer x s2 | (s2, Some (data, password)) \<Rightarrow> saving E data password (answer x) s2)"
    if "s1 = s\<lparr>vs_heap := (vs_heap s)[v := (vs_heap s ! v)\<lparr>vd_accounts := as\<rparr>]\<rparr>" for as x s1
  proof -
    have 1: "I s1" "G s s1" using upd_account [OF s] that by auto
    moreover have "v < length (vs_heap s1)" using s(2) that by simp
    ultimately show ?thesis by (intro good_from [OF 1(2)] good_persisting cont_answer)
  qed
  then show "good I R G G s (let vault = vs_heap s ! v; nextIndex = length (vd_accounts vault)
      in case ext_deriveKey (e_crypto E) (vd_mnemonic vault) 0 nextIndex of Inl e \<Rightarrow> fail e s
         | Inr key \<Rightarrow> (let newAccount = \<lparr>am_name = ''Akun '' @ toString10 (nextIndex + 1), am_address = ek_address key,
                    am_derivationPath = ek_derivationPath key, am_index = nextIndex\<rparr>;
                  s1 = s\<lparr>vs_heap := (vs_heap s)[v := vault\<lparr>vd_accounts := vd_accounts vault @ [newAccount]\<rparr>]\<rparr>
              in case persistSession v s1 of (s2, None) \<Rightarrow> answer (RAccount newAccount) s2
                 | (s2, Some (data, password)) \<Rightarrow> saving E data password (answer (RAccount newAccount)) s2))"
    using contD [OF cont_fail s(1)] by (auto simp: Let_def split: sum.split)
qed

lemma good_pending:
  "I s \<Longrightarrow> pendingOf m sd = Some params \<Longrightarrow> good I R G (Q m sd) s (addPending E params (originOf m sd) (tabIdOf sd) i s)"
  using upd_pending [of s m sd params i] by (auto simp: addPending_def Let_def intro!: good_step safe.Finish)

lemma good_withSession_Q:
  assumes "I s" "good I R G (Q m sd) s (k s)"
  shows "good I R G (Q m sd) s (withSession (\<lambda>_. k) s)"
  using assms good_weaken [OF contD [OF cont_fail assms(1)]] by (auto simp: withSession_def split: option.split)

lemma good_whenConnected:
  assumes "I s" "good I R G (Q m sd) s (k s)"
  shows "good I R G (Q m sd) s (whenConnected origin k s)"
  using assms good_weaken [OF contD [OF cont_fail assms(1)]] by (simp add: whenConnected_def)

lemma good_spending: "I s \<Longrightarrow> good I R G G s (wallet_sendNative E to amt s)"
  "I s \<Longrightarrow> good I R G G s (wallet_sendToken E to amt asset s)"
  by (auto simp: wallet_sendNative_def wallet_sendToken_def Let_def
      intro!: good_withSession contD [where k = "withKey _ _ _ _ _"] cont_rules)

lemma good_reading: 
  "I s \<Longrightarrow> good I R G G s (wallet_hasVault s)"
  "I s \<Longrightarrow> good I R G G s (wallet_getAccounts s)"
  "I s \<Longrightarrow> good I R G G s (wallet_exportMnemonic E password s)"
  "I s \<Longrightarrow> good I R G G s (wallet_getBalance a s)"
  "I s \<Longrightarrow> good I R G G s (wallet_getAddressInfo a s)"
  "I s \<Longrightarrow> good I R G G s (wallet_getAssetList s)"
proof -
  assume s: "I s"
  have rd: "cont s (\<lambda>s'. answer (f s') s')" for s f
    by (auto simp: cont_def answer_def intro!: good_step G_refl safe.Finish)
  have chk: "cont s (\<lambda>s. case x of None \<Rightarrow> fail e s | Some _ \<Rightarrow> answer (f s) s)" for s x e f
    by (cases x) (simp_all add: rd cont_fail)
  show "good I R G G s (wallet_hasVault s)" unfolding wallet_hasVault_def
    by (rule contD [OF cont_pause [OF rd] s])
  show "good I R G G s (wallet_getAccounts s)" unfolding wallet_getAccounts_def
    by (rule good_withSession [OF s]) (rule contD [OF cont_answer s])
  show "good I R G G s (wallet_exportMnemonic E password s)" unfolding wallet_exportMnemonic_def
    by (intro good_withSession [OF s] contD [OF cont_loading s] chk)
  show "good I R G G s (wallet_getBalance a s)" "good I R G G s (wallet_getAddressInfo a s)"
    unfolding wallet_getBalance_def wallet_getAddressInfo_def
    by (intro good_withSession [OF s] contD [OF cont_fetching s] cont_answer cont_fail)+
  show "good I R G G s (wallet_getAssetList s)" unfolding wallet_getAssetList_def
    by (intro contD [OF _ s] cont_assetsFrom cont_answer)
qed

lemma good_page:
  assumes s: "I s" and p: "pendingOf m sd = Some params"
  shows "good I R G (Q m sd) s (withSession (\<lambda>_. addPending E params (originOf m sd) (tabIdOf sd) i) s)"
    "good I R G (Q m sd) s (withSession (\<lambda>_. whenConnected (originOf m sd) (addPending E params (originOf m sd) (tabIdOf sd) i)) s)"
    "good I R G (Q m sd) s (withSession (\<lambda>_. whenConnected (originOf m sd)
       (if bad then fail e else addPending E params (originOf m sd) (tabIdOf sd) i)) s)"
  by (intro good_withSession_Q [OF s] good_whenConnected [OF s];
      simp add: good_pending [OF s p] good_weaken [OF contD [OF cont_fail s]])+

lemma good_accounts:
  assumes s: "I s"
  shows "m_call m = Garuda_requestAccounts \<Longrightarrow>
      good I R G (Q m sd) s (garuda_requestAccounts E (originOf m sd) (tabIdOf sd) i s)"
    "good I R G (Q m sd) s (garuda_getAccounts origin s)"
proof -
  note ends = good_weaken [OF contD [OF cont_answer s]]
  assume "m_call m = Garuda_requestAccounts"
  then have "pendingOf m sd = Some (PAccounts (originOf m sd))" by (simp add: pendingOf_def)
  from good_pending [OF s this] show "good I R G (Q m sd) s (garuda_requestAccounts E (originOf m sd) (tabIdOf sd) i s)"
    by (auto simp: garuda_requestAccounts_def ends split: option.split)
next
  show "good I R G (Q m sd) s (garuda_getAccounts origin s)"
    using good_weaken [OF contD [OF cont_answer s]] by (auto simp: garuda_getAccounts_def split: option.split)
qed

lemma cont_keyed:
  assumes "\<And>vault acc key. cont s (k vault acc key)"
  shows "cont s (\<lambda>s. let vault = vs_heap s ! v in withKey E (tellError pending) (m vault) (a vault) (k vault) s)"
  unfolding Let_def by (rule cont_I, rule contD [OF cont_withKey]) (auto intro: cont_tell cont_mono [OF assms])

lemma cont_broadcastTx: "cont s (broadcastTx pending res)"
  by (auto simp: broadcastTx_def intro!: cont_tell split: sum.split)

lemma good_approvals:
  assumes s: "I s"
  shows "good I R G G s (approvedOrder E pending op v s)" "good I R G G s (approvedSend E pending sp v s)"
    "good I R G G s (approvedToken E pending tp v s)" "good I R G G s (approvedSign E pending msg a v s)"
proof -
  show "good I R G G s (approvedOrder E pending op v s)" unfolding approvedOrder_def
    by (rule contD [OF cont_fetching s]) (auto intro!: cont_tell cont_signAndBroadcast cont_keyed split: sum.split option.split)
  show "good I R G G s (approvedSend E pending sp v s)" unfolding approvedSend_def
    by (rule contD [OF cont_keyed s]) (intro cont_fetching cont_signAndBroadcast cont_tell cont_broadcastTx)
  show "good I R G G s (approvedToken E pending tp v s)" unfolding approvedToken_def
    by (rule contD [OF cont_keyed s]) (intro cont_tokenTransfer cont_tell cont_broadcastTx)
  show "good I R G G s (approvedSign E pending msg a v s)" unfolding approvedSign_def
    by (rule contD [OF cont_keyed s]) (intro cont_pause; auto intro!: cont_tell split: sum.split)
qed

lemma good_approved:
  assumes s: "I s" and m: "m_call m = Approval_response i True" and i: "map_of (pendingRequests s) i = Some p"
  shows "good I R G (Q m sd) s (handleApproved E p (decided i s))"
proof (cases "getSession (decided i s)")
  case None
  have 1: "I (decided i s)" "G s (decided i s)" using upd_answered s by blast+
  show ?thesis using good_weaken [OF good_from [OF 1(2) contD [OF cont_tell(2) 1(1)]]] None by (simp add: handleApproved_def)
next
  case (Some pv)
  have 1: "I (decided i s)" "G s (decided i s)" using upd_answered s by blast+
  obtain pw v where pv: "pv = (pw, v)" "sessionVault s = Some v"
    using Some by (cases pv) (auto simp: vault_defs split: option.splits if_splits)
  then have v: "v < length (vs_heap s)" using I_session [OF s] by (auto simp: session_inv_def)
  have "good I R G (Q m sd) s (approvedAccounts E p v (decided i s))" if "pr_params p = PAccounts og" for og
  proof -
    let ?s1 = "addConnectedSite (pr_origin p) (decided i s)"
    have 1: "I ?s1" "Q m sd s ?s1" using upd_connect [OF s m i that] by blast+
    have "v < length (vs_heap ?s1)" using v R_heap [OF Q_R [OF 1(2)]] by simp
    then have "good I R G G ?s1 (approvedAccounts E p v (decided i s))"
      using 1(1) cont_tell(1) unfolding approvedAccounts_def Let_def by (intro good_persisting) (auto simp: cont_def)
    then show ?thesis by (rule good_from_Q [OF 1(2)])
  qed
  then show ?thesis
    using Some pv good_weaken [OF good_from [OF 1(2) good_approvals(1) [OF 1(1)]]]
      good_weaken [OF good_from [OF 1(2) good_approvals(2) [OF 1(1)]]]
      good_weaken [OF good_from [OF 1(2) good_approvals(3) [OF 1(1)]]]
      good_weaken [OF good_from [OF 1(2) good_approvals(4) [OF 1(1)]]]
    by (simp add: handleApproved_def split: pending_params.split)
qed

lemma good_response:
  assumes s: "I s" and m: "m_call m = Approval_response i ok"
  shows "good I R G (Q m sd) s (approval_response E i ok s)"
proof (cases "map_of (pendingRequests s) i")
  case None
  then show ?thesis using contD [OF cont_answer s] by (simp add: approval_response_def good_weaken)
next
  case (Some p)
  have 1: "I (decided i s)" "G s (decided i s)" using upd_answered s by blast+
  show ?thesis
    using Some good_approved [OF s _ Some] m good_weaken [OF good_from [OF 1(2) contD [OF cont_tell(2) 1(1)]]]
    by (simp add: approval_response_def Let_def)
qed

lemma good_message:
  assumes s: "I s"
  shows "good I R G (Q m sd) s (onMessage E m sd s)"
proof -
  note ends = good_weaken [OF contD [OF cont_fail s]] good_weaken [OF contD [OF cont_answer s]]
  note all = good_create good_unlock good_addAccount good_spending good_reading
  have lock: "good I R G (Q m sd) s (wallet_lock s)"
    using upd_clear [OF s] by (auto simp: wallet_lock_def answer_def intro!: good_weaken good_step safe.Finish)
  have "good I R G (Q m sd) s (handleMessage E m sd s)"
    unfolding handleMessage_def Let_def garuda_placeOrder_def garuda_signMessage_def garuda_sendTransaction_def garuda_sendToken_def
    by (cases "m_call m")
       (simp_all add: good_weaken all s good_response lock ends good_accounts good_page [OF s] pendingOf_def)
  then show ?thesis
    unfolding onMessage_def Let_def
    by (auto intro: ends(2) split: call.split option.split list.split prod.split)
qed

definition calm :: "worker \<Rightarrow> bool" where
  "calm w \<longleftrightarrow> I (w_bg w) \<and> (\<forall>p \<in> snd ` set (w_tasks w). safe I R G (w_bg w) p)"

lemma calm_move: "calm w \<Longrightarrow> I s \<and> R (w_bg w) s \<Longrightarrow> calm (w\<lparr>w_bg := s\<rparr>)"
  by (auto simp: calm_def intro: safe_mono)

lemma calm_settle:
  assumes "good I R G R (w_bg w) r" "calm w"
  shows "calm (settle t r w)"
proof -
  obtain s p where r: "r = (s, p)" by fastforce
  with assms(1) have s: "I s" "R (w_bg w) s" "safe I R G s p" by (simp_all add: good_def)
  have old: "\<forall>p \<in> snd ` set (w_tasks w). safe I R G s p" using assms(2) s(2) by (auto simp: calm_def intro: safe_mono)
  show ?thesis
  proof (cases p)
    case (Finish a)
    then show ?thesis using old s(1) r by (auto simp: calm_def settle_def Let_def set_mdelete)
  next
    case (Resume f)
    then show ?thesis using old s r set_mput [of t "Resume f" "w_tasks w"] by (auto simp: calm_def settle_def Let_def)
  next
    case (Fetch q k)
    then show ?thesis using old s r set_mput [of t "Fetch q k" "w_tasks w"] by (auto simp: calm_def settle_def Let_def)
  qed
qed

lemma calm_task: "calm w \<Longrightarrow> map_of (w_tasks w) t = Some p \<Longrightarrow> safe I R G (w_bg w) p"
  by (force simp: calm_def dest: map_of_SomeD)

lemma calm_step:
  assumes "calm w" "step E w w'"
  shows "calm w'"
proof -
  have I: "I (w_bg w)" using assms(1) by (simp add: calm_def)
  from assms(2) show ?thesis
  proof cases
    case (Receive m sd)
    show ?thesis unfolding Receive receive_def Let_def
      by (rule calm_settle) (use good_message [OF I, of m sd] assms(1) Q_R in \<open>auto simp: calm_def good_def\<close>)
  next
    case (Resumed t f)
    have "good I R G R (w_bg w) (f (w_bg w))"
      using calm_task [OF assms(1) Resumed(2)] I R_refl G_R by (auto simp: safe_Resume good_def)
    then show ?thesis unfolding Resumed(1) by (rule calm_settle [OF _ assms(1)])
  next
    case (Replied t q k r)
    have "good I R G R (w_bg w) (k r (w_bg w))"
      using calm_task [OF assms(1) Replied(2)] I R_refl G_R by (auto simp: safe_Fetch good_def)
    then show ?thesis unfolding Replied(1) by (rule calm_settle [OF _ assms(1)])
  next
    case (Locked n)
    then show ?thesis using calm_move [OF assms(1) upd_lock [OF I]] by simp
  next
    case (Expired i)
    then show ?thesis using calm_move [OF assms(1) upd_expire [OF I]] by simp
  qed
qed

lemma reach_calm: "reach E stored w \<Longrightarrow> calm w"
proof (induction rule: reach.induct)
  case init
  then show ?case by (simp add: calm_def worker_init_def I_init)
qed (rule calm_step)

lemma reach_inv: "reach E stored w \<Longrightarrow> I (w_bg w)"
  using reach_calm by (simp add: calm_def)

text \<open>A step of a reachable worker is the first segment of a message, a later segment or a timer.\<close>

lemma step_effect:
  assumes "reach E stored w" "step E w w'"
  shows "(\<exists>m sd. w' = receive E m sd w \<and> Q m sd (w_bg w) (w_bg w')) \<or> G (w_bg w) (w_bg w') \<or>
    (\<exists>n. w_bg w' = fireLock n (w_bg w)) \<or> (\<exists>i. w_bg w' = approvalTimeout i (w_bg w))"
proof -
  have calm: "calm w" and I: "I (w_bg w)" using reach_calm [OF assms(1)] by (simp_all add: calm_def)
  from assms(2) show ?thesis
  proof cases
    case (Receive m sd)
    then show ?thesis using good_message [OF I, of m sd] by (auto simp: good_def receive_bg)
  next
    case (Resumed t f)
    then show ?thesis using calm_task [OF calm Resumed(2)] I R_refl by (auto simp: safe_Resume settle_bg)
  next
    case (Replied t q k r)
    then show ?thesis using calm_task [OF calm Replied(2)] I R_refl by (auto simp: safe_Fetch settle_bg)
  qed auto
qed

lemma step_R:
  assumes "reach E stored w" "step E w w'"
  shows "R (w_bg w) (w_bg w')"
  using step_effect [OF assms] Q_R G_R upd_lock upd_expire reach_inv [OF assms(1)] by metis

lemma steps_R: "(step E)\<^sup>*\<^sup>* w w' \<Longrightarrow> reach E stored w \<Longrightarrow> reach E stored w' \<and> R (w_bg w) (w_bg w')"
  by (induction rule: rtranclp_induct) (auto simp: R_refl intro: reach.step R_trans dest: step_R)

end


section \<open>Invariants of the worker\<close>

text \<open>Every pending request is stored under its own id, which was drawn before, and its timeout is
  scheduled.\<close>

definition pending_inv :: "env \<Rightarrow> bg \<Rightarrow> bool" where
  "pending_inv E s \<longleftrightarrow> distinct (map fst (pendingRequests s)) \<and>
    (\<forall>(k, p) \<in> set (pendingRequests s). pr_id p = k \<and> k \<in> e_uuid E ` {..<uuids s} \<and> k \<in> set (approvalTimers s))"

definition bg_inv :: "env \<Rightarrow> bg \<Rightarrow> bool" where
  "bg_inv E s \<longleftrightarrow> session_inv s \<and> pending_inv E s"

text \<open>Vault objects are never freed, and an id that was drawn and is no longer pending never
  becomes pending again.\<close>

definition bg_grows :: "env \<Rightarrow> bg \<Rightarrow> bg \<Rightarrow> bool" where
  "bg_grows E s t \<longleftrightarrow> length (vs_heap s) \<le> length (vs_heap t) \<and> uuids s \<le> uuids t \<and>
    (inj (e_uuid E) \<longrightarrow> (\<forall>n < uuids s. e_uuid E n \<notin> fst ` set (pendingRequests s) \<longrightarrow> e_uuid E n \<notin> fst ` set (pendingRequests t)))"

lemma session_inv_bg:
  "session_inv (s\<lparr>draws := x\<rparr>) = session_inv s" "session_inv (s\<lparr>tabMessages := y\<rparr>) = session_inv s"
  "session_inv (s\<lparr>pendingRequests := z, badge := b, popup := p\<rparr>) = session_inv s"
  "session_inv (s\<lparr>approvalTimers := l\<rparr>) = session_inv s"
  "session_inv (s\<lparr>uuids := n, pendingRequests := z\<rparr>) = session_inv s"
  "session_inv (s\<lparr>badge := b, popup := p, approvalTimers := l\<rparr>) = session_inv s"
  "session_inv (s\<lparr>uuids := n\<rparr>) = session_inv s"
  by (simp_all add: session_inv_def)

lemma session_inv_heap: "session_inv s \<Longrightarrow> length (vs_heap s) \<le> length h \<Longrightarrow> session_inv (s\<lparr>vs_heap := h\<rparr>)"
  by (auto simp: session_inv_def)

lemma vault_frame:
  "pendingRequests (saveVault W salt iv data p s) = pendingRequests s" "uuids (saveVault W salt iv data p s) = uuids s"
  "approvalTimers (saveVault W salt iv data p s) = approvalTimers s" "vs_heap (saveVault W salt iv data p s) = vs_heap s"
  "pendingRequests (setSession p v s) = pendingRequests s" "uuids (setSession p v s) = uuids s"
  "approvalTimers (setSession p v s) = approvalTimers s" "vs_heap (setSession p v s) = vs_heap s"
  "pendingRequests (clearSession s) = pendingRequests s" "uuids (clearSession s) = uuids s"
  "approvalTimers (clearSession s) = approvalTimers s" "vs_heap (clearSession s) = vs_heap s"
  "pendingRequests (fireLock n s) = pendingRequests s" "uuids (fireLock n s) = uuids s"
  "approvalTimers (fireLock n s) = approvalTimers s" "vs_heap (fireLock n s) = vs_heap s"
  "pendingRequests (fst (persistSession v s)) = pendingRequests s" "uuids (fst (persistSession v s)) = uuids s"
  "approvalTimers (fst (persistSession v s)) = approvalTimers s" "vs_heap (fst (persistSession v s)) = vs_heap s"
  "pendingRequests (addConnectedSite x s) = pendingRequests s" "uuids (addConnectedSite x s) = uuids s"
  "approvalTimers (addConnectedSite x s) = approvalTimers s" "length (vs_heap (addConnectedSite x s)) = length (vs_heap s)"
  for s :: bg
  by (simp_all add: vault_defs split: option.split)

lemma tab_frame:
  "pendingRequests (sendResultToTab t i out s) = pendingRequests s" "uuids (sendResultToTab t i out s) = uuids s"
  "approvalTimers (sendResultToTab t i out s) = approvalTimers s" "vs_heap (sendResultToTab t i out s) = vs_heap s"
  "session_inv (sendResultToTab t i out s) = session_inv s"
  by (simp_all add: sendResultToTab_def session_inv_bg)

lemma pending_inv_cong:
  "pendingRequests t = pendingRequests s \<Longrightarrow> uuids t = uuids s \<Longrightarrow> approvalTimers t = approvalTimers s \<Longrightarrow>
    pending_inv E t = pending_inv E s"
  by (simp add: pending_inv_def)

lemma bg_grows_cong:
  "pendingRequests t = pendingRequests s \<Longrightarrow> uuids t = uuids s \<Longrightarrow> length (vs_heap s) \<le> length (vs_heap t) \<Longrightarrow> bg_grows E s t"
  by (simp add: bg_grows_def)

lemma bg_inv_frame:
  assumes "bg_inv E s" "session_inv t"
    and "pendingRequests t = pendingRequests s" "uuids t = uuids s" "approvalTimers t = approvalTimers s"
    and "length (vs_heap s) \<le> length (vs_heap t)"
  shows "bg_inv E t \<and> bg_grows E s t"
  using assms pending_inv_cong [OF assms(3,4,5)] bg_grows_cong [OF assms(3,4,6)] by (simp add: bg_inv_def)

lemma bg_inv_pending:
  assumes "bg_inv E s"
  shows "bg_inv E (fst (addPending E params origin tab i s)) \<and> bg_grows E s (fst (addPending E params origin tab i s))"
proof -
  let ?k = "e_uuid E (uuids s)" and ?t = "fst (addPending E params origin tab i s)"
  let ?p = "\<lparr>pr_id = ?k, pr_params = params, pr_origin = origin, pr_tabId = tab, pr_requestId = i\<rparr>"
  have t: "pendingRequests ?t = mput ?k ?p (pendingRequests s)" "uuids ?t = uuids s + 1" "approvalTimers ?t = ?k # approvalTimers s"
    "vs_heap ?t = vs_heap s" "session_inv ?t = session_inv s"
    by (simp_all add: addPending_def showApprovalPopup_def Let_def session_inv_bg)
  have s: "session_inv s" "distinct (map fst (pendingRequests s))"
    "\<forall>(k, p) \<in> set (pendingRequests s). pr_id p = k \<and> k \<in> e_uuid E ` {..<uuids s} \<and> k \<in> set (approvalTimers s)"
    using assms by (simp_all add: bg_inv_def pending_inv_def)
  have "\<forall>(k, p) \<in> set (mput ?k ?p (pendingRequests s)). pr_id p = k \<and> k \<in> e_uuid E ` {..<uuids s + 1} \<and> k \<in> set (?k # approvalTimers s)"
  proof (intro ballI, clarify)
    fix k p assume "(k, p) \<in> set (mput ?k ?p (pendingRequests s))"
    with set_mput [of ?k ?p "pendingRequests s"] consider "k = ?k" "p = ?p" | "(k, p) \<in> set (pendingRequests s)" by blast
    then show "pr_id p = k \<and> k \<in> e_uuid E ` {..<uuids s + 1} \<and> k \<in> set (?k # approvalTimers s)"
      using s(3) by cases (fastforce simp: lessThan_Suc)+
  qed
  then have "pending_inv E ?t" by (simp add: pending_inv_def t distinct_mput s(2))
  moreover have "bg_grows E s ?t" by (auto simp: bg_grows_def t keys_mput inj_eq)
  ultimately show ?thesis using s(1) t(5) by (simp add: bg_inv_def)
qed

lemma bg_inv_decided:
  assumes "bg_inv E s"
  shows "bg_inv E (decided i s) \<and> bg_grows E s (decided i s)"
  using assms
  by (auto simp: bg_inv_def bg_grows_def pending_inv_def session_inv_bg distinct_mdelete keys_mdelete set_mdelete)

lemma approvalTimeout_frame:
  assumes "i \<in> set (approvalTimers s)"
  shows "pendingRequests (approvalTimeout i s) = mdelete i (pendingRequests s)" "uuids (approvalTimeout i s) = uuids s"
    "approvalTimers (approvalTimeout i s) = removeAll i (approvalTimers s)" "vs_heap (approvalTimeout i s) = vs_heap s"
    "session_inv (approvalTimeout i s) = session_inv s"
proof -
  have "map_of (pendingRequests s) i = None \<Longrightarrow> mdelete i (pendingRequests s) = pendingRequests s"
    unfolding mdelete_def by (rule filter_True) (force simp: map_of_eq_None_iff)
  with assms show "pendingRequests (approvalTimeout i s) = mdelete i (pendingRequests s)" "uuids (approvalTimeout i s) = uuids s"
    "approvalTimers (approvalTimeout i s) = removeAll i (approvalTimers s)" "vs_heap (approvalTimeout i s) = vs_heap s"
    "session_inv (approvalTimeout i s) = session_inv s"
    by (simp_all add: approvalTimeout_def Let_def tab_frame session_inv_bg split: option.split)
qed

lemma bg_inv_expire:
  assumes "bg_inv E s"
  shows "bg_inv E (approvalTimeout i s) \<and> bg_grows E s (approvalTimeout i s)"
proof (cases "i \<in> set (approvalTimers s)")
  case True
  note t = approvalTimeout_frame [OF True]
  have "pending_inv E (approvalTimeout i s)"
    using assms unfolding bg_inv_def pending_inv_def t set_mdelete by (auto simp: distinct_mdelete)
  then show ?thesis using assms by (auto simp: bg_inv_def bg_grows_def t keys_mdelete)
qed (simp add: approvalTimeout_def assms bg_grows_def)

interpretation life: worker_rules "bg_inv E" "bg_grows E" "bg_grows E" "\<lambda>_ _. bg_grows E" E stored for E stored
proof
  show "bg_inv E (bg_init stored)"
    by (simp add: bg_inv_def pending_inv_def session_inv_def bg_init_def vault_init_def vault_state.defs)
  show "session_inv s" if "bg_inv E s" for s using that by (simp add: bg_inv_def)
  fix s assume s: "bg_inv E s"
  then have i: "session_inv s" by (simp add: bg_inv_def)
  note fr = bg_inv_frame [OF s]
  show "bg_inv E (s\<lparr>draws := draws s + 1\<rparr>) \<and> bg_grows E s (s\<lparr>draws := draws s + 1\<rparr>)"
    by (rule fr) (simp_all add: session_inv_bg i)
  show "bg_inv E (saveVault W salt iv data p s) \<and> bg_grows E s (saveVault W salt iv data p s)" for W salt iv data p
    by (rule fr) (simp_all add: session_inv_store i vault_frame)
  show "bg_inv E (fst (alloc vault s)) \<and> bg_grows E s (fst (alloc vault s))" for vault
    by (rule fr) (simp_all add: alloc_def session_inv_heap i)
  show "bg_inv E (setSession p v s) \<and> bg_grows E s (setSession p v s)" if "v < length (vs_heap s)" for p v
    by (rule fr) (simp_all add: session_inv_set i vault_frame that)
  show "bg_inv E (clearSession s) \<and> bg_grows E s (clearSession s)"
    by (rule fr) (simp_all add: session_inv_clear i vault_frame)
  show "bg_inv E (s\<lparr>vs_heap := (vs_heap s)[v := (vs_heap s ! v)\<lparr>vd_accounts := as\<rparr>]\<rparr>) \<and>
      bg_grows E s (s\<lparr>vs_heap := (vs_heap s)[v := (vs_heap s ! v)\<lparr>vd_accounts := as\<rparr>]\<rparr>)" for v as
    by (rule fr) (simp_all add: session_inv_heap i)
  show "bg_inv E (fst (persistSession v s)) \<and> bg_grows E s (fst (persistSession v s))" if "v < length (vs_heap s)" for v
    by (rule fr) (simp_all add: session_inv_persist i vault_frame that)
  show "bg_inv E (addConnectedSite (pr_origin p) (decided j s)) \<and> bg_grows E s (addConnectedSite (pr_origin p) (decided j s))" for p j
  proof -
    have d: "bg_inv E (decided j s)" "bg_grows E s (decided j s)" using bg_inv_decided [OF s] by blast+
    have "bg_inv E (addConnectedSite (pr_origin p) (decided j s)) \<and> bg_grows E (decided j s) (addConnectedSite (pr_origin p) (decided j s))"
      using d(1) by (intro bg_inv_frame) (simp_all add: session_inv_connect bg_inv_def vault_frame)
    then show ?thesis using d(2) by (auto simp: bg_grows_def vault_frame)
  qed
  show "bg_inv E (sendResultToTab tab j out s) \<and> bg_grows E s (sendResultToTab tab j out s)" for tab j out
    by (rule fr) (simp_all add: tab_frame i)
  show "bg_inv E (fireLock n s) \<and> bg_grows E s (fireLock n s)" for n
    by (rule fr) (simp_all add: session_inv_fire i vault_frame)
  show "bg_inv E (fst (addPending E params (originOf m sd) (tabIdOf sd) j s)) \<and> bg_grows E s (fst (addPending E params (originOf m sd) (tabIdOf sd) j s))"
    for params m sd j by (rule bg_inv_pending [OF s])
  show "bg_inv E (decided j s) \<and> bg_grows E s (decided j s)" for j by (rule bg_inv_decided [OF s])
  show "bg_inv E (approvalTimeout j s) \<and> bg_grows E s (approvalTimeout j s)" for j by (rule bg_inv_expire [OF s])
qed (auto simp: bg_grows_def)


section \<open>Connected sites\<close>

text \<open>Sites are added to a vault only by the approval of a request for the accounts.\<close>

definition sites :: "nat \<Rightarrow> bg \<Rightarrow> string set" where
  "sites v s = set (vd_connectedSites (vs_heap s ! v))"

definition heap_grows :: "bg \<Rightarrow> bg \<Rightarrow> bool" where
  "heap_grows s t \<longleftrightarrow> length (vs_heap s) \<le> length (vs_heap t)"

definition sites_kept :: "bg \<Rightarrow> bg \<Rightarrow> bool" where
  "sites_kept s t \<longleftrightarrow> heap_grows s t \<and> (\<forall>v < length (vs_heap s). sites v t = sites v s)"

definition newSites :: "message \<Rightarrow> bg \<Rightarrow> string set" where
  "newSites m s = {x. \<exists>i p origin. m_call m = Approval_response i True \<and> map_of (pendingRequests s) i = Some p \<and>
     pr_params p = PAccounts origin \<and> x = pr_origin p}"

definition sites_added :: "message \<Rightarrow> sender \<Rightarrow> bg \<Rightarrow> bg \<Rightarrow> bool" where
  "sites_added m sd s t \<longleftrightarrow> heap_grows s t \<and> (\<forall>v < length (vs_heap s). sites v t \<subseteq> sites v s \<union> newSites m s)"

lemma sites_kept_heap: "vs_heap t = vs_heap s \<Longrightarrow> sites_kept s t"
  by (simp add: sites_kept_def heap_grows_def sites_def)

lemma session_inv_vault:
  "session_inv s \<Longrightarrow> session_inv (fst (addPending E params origin tab i s))"
  "session_inv s \<Longrightarrow> session_inv (approvalTimeout i s)"
  by (simp_all add: addPending_def showApprovalPopup_def approvalTimeout_def Let_def session_inv_bg tab_frame split: option.split)

lemma heap_frame:
  "vs_heap (fst (addPending E params origin tab i s)) = vs_heap s" "vs_heap (approvalTimeout i s) = vs_heap s"
  by (simp_all add: addPending_def showApprovalPopup_def approvalTimeout_def Let_def tab_frame split: option.split)

interpretation conn: worker_rules session_inv heap_grows sites_kept sites_added E stored for E stored
proof
  show "session_inv (bg_init stored)"
    by (simp add: session_inv_def bg_init_def vault_init_def vault_state.defs)
  fix s :: bg assume s: "session_inv s"
  show "session_inv (s\<lparr>draws := draws s + 1\<rparr>) \<and> sites_kept s (s\<lparr>draws := draws s + 1\<rparr>)"
    by (simp add: session_inv_bg s sites_kept_heap)
  show "session_inv (saveVault W salt iv data p s) \<and> sites_kept s (saveVault W salt iv data p s)" for W salt iv data p
    by (simp add: session_inv_store s vault_frame sites_kept_heap)
  show "session_inv (fst (alloc vault s)) \<and> sites_kept s (fst (alloc vault s))" for vault
    by (simp add: alloc_def session_inv_heap s sites_kept_def heap_grows_def sites_def nth_append)
  show "session_inv (setSession p v s) \<and> sites_kept s (setSession p v s)" if "v < length (vs_heap s)" for p v
    by (simp add: session_inv_set s that vault_frame sites_kept_heap)
  show "session_inv (clearSession s) \<and> sites_kept s (clearSession s)"
    by (simp add: session_inv_clear s vault_frame sites_kept_heap)
  show "session_inv (s\<lparr>vs_heap := (vs_heap s)[v := (vs_heap s ! v)\<lparr>vd_accounts := as\<rparr>]\<rparr>) \<and>
      sites_kept s (s\<lparr>vs_heap := (vs_heap s)[v := (vs_heap s ! v)\<lparr>vd_accounts := as\<rparr>]\<rparr>)" if "v < length (vs_heap s)" for v as
    using that by (simp add: session_inv_heap s sites_kept_def heap_grows_def sites_def nth_list_update)
  show "session_inv (fst (persistSession v s)) \<and> sites_kept s (fst (persistSession v s))" if "v < length (vs_heap s)" for v
    by (simp add: session_inv_persist s that vault_frame sites_kept_heap)
  show "session_inv (addConnectedSite (pr_origin p) (decided i s)) \<and> sites_added m sd s (addConnectedSite (pr_origin p) (decided i s))"
    if "m_call m = Approval_response i True" "map_of (pendingRequests s) i = Some p" "pr_params p = PAccounts og" for m sd i p og
  proof
    show "session_inv (addConnectedSite (pr_origin p) (decided i s))" by (simp add: session_inv_connect session_inv_bg s)
    have n: "pr_origin p \<in> newSites m s" using that by (auto simp: newSites_def)
    have a: "sites v (addConnectedSite x t) \<subseteq> insert x (sites v t)" if "session_inv t" for v x and t :: bg
      using that by (auto simp: sites_def addConnectedSite_def session_inv_def Let_def nth_list_update split: option.splits if_splits)
    have "sites v (addConnectedSite (pr_origin p) (decided i s)) \<subseteq> sites v s \<union> newSites m s" for v
      using a [of "decided i s" v "pr_origin p"] n s by (auto simp: session_inv_bg sites_def)
    then show "sites_added m sd s (addConnectedSite (pr_origin p) (decided i s))"
      by (simp add: sites_added_def heap_grows_def vault_frame)
  qed
  show "session_inv (fst (addPending E params (originOf m sd) (tabIdOf sd) i s)) \<and> sites_added m sd s (fst (addPending E params (originOf m sd) (tabIdOf sd) i s))"
    for params m sd i by (simp add: session_inv_vault s sites_added_def heap_grows_def sites_def heap_frame)
  show "session_inv (decided i s) \<and> sites_kept s (decided i s)" for i
    by (simp add: session_inv_bg s sites_kept_heap)
  show "session_inv (sendResultToTab tab i out s) \<and> sites_kept s (sendResultToTab tab i out s)" for tab i out
    by (simp add: tab_frame s sites_kept_heap)
  show "session_inv (fireLock n s) \<and> heap_grows s (fireLock n s)" for n
    by (simp add: session_inv_fire s heap_grows_def vault_frame)
  show "session_inv (approvalTimeout i s) \<and> heap_grows s (approvalTimeout i s)" for i
    by (simp add: session_inv_vault s heap_grows_def heap_frame)
qed (auto simp: sites_kept_def sites_added_def heap_grows_def)

section \<open>Origin of pending requests\<close>

definition no_new_pending :: "bg \<Rightarrow> bg \<Rightarrow> bool" where
  "no_new_pending s t \<longleftrightarrow> heap_grows s t \<and> set (pendingRequests t) \<subseteq> set (pendingRequests s)"

definition asked_by :: "message \<Rightarrow> sender \<Rightarrow> PendingRequest \<Rightarrow> bool" where
  "asked_by m sd p \<longleftrightarrow> pendingOf m sd = Some (pr_params p) \<and> pr_origin p = originOf m sd \<and> pr_tabId p = tabIdOf sd"

definition pending_from :: "message \<Rightarrow> sender \<Rightarrow> bg \<Rightarrow> bg \<Rightarrow> bool" where
  "pending_from m sd s t \<longleftrightarrow> heap_grows s t \<and> (\<forall>kp \<in> set (pendingRequests t). kp \<in> set (pendingRequests s) \<or> asked_by m sd (snd kp))"

lemma no_new_pending_frame: "pendingRequests t = pendingRequests s \<Longrightarrow> length (vs_heap s) \<le> length (vs_heap t) \<Longrightarrow> no_new_pending s t"
  by (simp add: no_new_pending_def heap_grows_def)

interpretation pend: worker_rules session_inv heap_grows no_new_pending pending_from E stored for E stored
proof
  show "session_inv (bg_init stored)" by (rule conn.I_init)
  fix s :: bg assume s: "session_inv s"
  show "session_inv (fst (addPending E params (originOf m sd) (tabIdOf sd) i s)) \<and> pending_from m sd s (fst (addPending E params (originOf m sd) (tabIdOf sd) i s))"
    if "pendingOf m sd = Some params" for params m sd i
  proof (rule conjI [OF session_inv_vault(1) [OF s]])
    let ?p = "\<lparr>pr_id = e_uuid E (uuids s), pr_params = params, pr_origin = originOf m sd, pr_tabId = tabIdOf sd, pr_requestId = i\<rparr>"
    have "asked_by m sd ?p" using that by (simp add: asked_by_def)
    then show "pending_from m sd s (fst (addPending E params (originOf m sd) (tabIdOf sd) i s))"
      using set_mput [of "e_uuid E (uuids s)" ?p "pendingRequests s"]
      by (fastforce simp: pending_from_def heap_grows_def addPending_def showApprovalPopup_def Let_def)
  qed
  show "session_inv (addConnectedSite (pr_origin p) (decided i s)) \<and> pending_from m sd s (addConnectedSite (pr_origin p) (decided i s))"
    for m sd i p by (auto simp: session_inv_connect session_inv_bg s pending_from_def heap_grows_def vault_frame set_mdelete)
  show "session_inv (decided i s) \<and> no_new_pending s (decided i s)" for i
    by (auto simp: session_inv_bg s no_new_pending_def heap_grows_def set_mdelete)
qed (auto simp: conn.upd_lock conn.upd_expire no_new_pending_def pending_from_def heap_grows_def vault_frame tab_frame alloc_def
    session_inv_bg session_inv_store session_inv_set session_inv_clear session_inv_persist session_inv_heap heap_frame)


section \<open>What is asked of the API\<close>

inductive asks :: "(request \<Rightarrow> bool) \<Rightarrow> proc \<Rightarrow> bool" for P where
  Finish: "asks P (Finish r)"
| Resume: "(\<And>s. asks P (snd (f s))) \<Longrightarrow> asks P (Resume f)"
| Fetch: "P q \<Longrightarrow> (\<And>r s. asks P (snd (k r s))) \<Longrightarrow> asks P (Fetch q k)"

inductive_simps asks_simps: "asks P (Finish r)" "asks P (Resume f)" "asks P (Fetch q k)"

definition quiet :: "segment \<Rightarrow> bool" where
  "quiet k \<longleftrightarrow> (\<forall>s. asks (\<lambda>q. \<forall>h. q \<noteq> Broadcast h) (snd (k s)))"

lemma quiet_end: "quiet (fail e)" "quiet (answer v)" "quiet (tell p v)" "quiet (tellError p e)"
  by (simp_all add: quiet_def fail_def answer_def tell_def tellError_def asks_simps)

lemma quiet_answer: "quiet (\<lambda>s. answer (f s) (g s))" "quiet (\<lambda>s. tell p (f s) s)"
  by (simp_all add: quiet_def answer_def tell_def asks_simps)

lemma quiet_session: "(\<And>v. quiet (k v)) \<Longrightarrow> quiet (withSession k)"
  by (auto simp: quiet_def withSession_def fail_def asks_simps split: option.split)

lemma quiet_saving: "quiet k \<Longrightarrow> quiet (saving E data password k)"
  by (simp add: quiet_def saving_def asks_simps split: prod.split)

lemma quiet_loading: "(\<And>v. quiet (k v)) \<Longrightarrow> quiet (loading E password k)"
  by (simp add: quiet_def loading_def asks_simps)

lemma quiet_fetching: "\<forall>h. q \<noteq> Broadcast h \<Longrightarrow> (\<And>j. quiet (k j)) \<Longrightarrow> (\<And>e. quiet (f e)) \<Longrightarrow> quiet (fetching q k f)"
  by (auto simp: quiet_def fetching_def asks_simps split: reply.split)

lemma quiet_assets: "\<forall>h. q \<noteq> Broadcast h \<Longrightarrow> (\<And>r. quiet (k r)) \<Longrightarrow> quiet (assetsFrom q tipe results k)"
  unfolding assetsFrom_def Let_def
  by (rule quiet_fetching) (auto simp: quiet_end split: option.split prod.split bool.split)

lemma quiet_pending: "quiet (addPending E params origin tab i)"
  by (simp add: quiet_def addPending_def Let_def asks_simps)

lemma quiet_if: "quiet k \<Longrightarrow> quiet l \<Longrightarrow> quiet (\<lambda>s. if b s then k s else l s)"
  by (simp add: quiet_def)

lemma quiet_connected: "quiet k \<Longrightarrow> quiet (whenConnected origin k)"
  unfolding whenConnected_def by (rule quiet_if) (simp_all add: quiet_end)

lemmas quiet_rules = quiet_end quiet_answer quiet_session quiet_saving quiet_loading quiet_fetching quiet_assets
  quiet_pending quiet_if quiet_connected

lemma quiet_wallet:
  "quiet wallet_hasVault" "quiet (wallet_create E mnemonic password name)" "quiet (wallet_unlock E password)"
  "quiet wallet_lock" "quiet wallet_getAccounts" "quiet (wallet_addAccount E)" "quiet (wallet_exportMnemonic E password)"
  "quiet (wallet_getBalance a)" "quiet (wallet_getAddressInfo a)" "quiet wallet_getAssetList"
proof -
  show "quiet wallet_hasVault" "quiet wallet_lock"
    by (simp_all add: quiet_def wallet_hasVault_def wallet_lock_def answer_def asks_simps)
  show "quiet (wallet_create E mnemonic password name)"
    using quiet_saving [OF quiet_answer(1)]
    by (auto simp: quiet_def wallet_create_def fail_def asks_simps Let_def split: sum.split prod.split)
  have "quiet (\<lambda>s. case loaded of None \<Rightarrow> fail (Error ''Password salah'') s
      | Some vault \<Rightarrow> (case alloc vault s of (s1, v) \<Rightarrow> answer (RAddress (firstAddress vault)) (setSession password v s1)))" for loaded
    by (auto simp: quiet_def fail_def answer_def asks_simps split: option.split prod.split)
  then show "quiet (wallet_unlock E password)" unfolding wallet_unlock_def by (rule quiet_loading)
  show "quiet wallet_getAccounts" unfolding wallet_getAccounts_def by (intro quiet_rules)
  have "quiet (\<lambda>s. case verified of None \<Rightarrow> fail e s | Some _ \<Rightarrow> answer (f s) s)" for verified e f
    by (auto simp: quiet_def fail_def answer_def asks_simps split: option.split)
  then show "quiet (wallet_exportMnemonic E password)" unfolding wallet_exportMnemonic_def by (intro quiet_session quiet_loading)
  have "quiet (\<lambda>s. fetching (q s) (\<lambda>res. answer (RServer res)) fail s)" if "\<And>s h. q s \<noteq> Broadcast h" for q
    using that by (auto simp: quiet_def fetching_def fail_def answer_def asks_simps split: reply.split)
  then show "quiet (wallet_getBalance a)" "quiet (wallet_getAddressInfo a)"
    unfolding wallet_getBalance_def wallet_getAddressInfo_def by (auto intro!: quiet_session)
  show "quiet wallet_getAssetList" unfolding wallet_getAssetList_def by (intro quiet_assets quiet_end) simp_all
  have "asks (\<lambda>q. \<forall>h. q \<noteq> Broadcast h) (snd (case persistSession v s1 of (s2, None) \<Rightarrow> answer x s2
      | (s2, Some (data, password)) \<Rightarrow> saving E data password (answer x) s2))" for v s1 x
    using quiet_saving [OF quiet_end(2)] by (auto simp: quiet_def answer_def asks_simps split: prod.split option.split)
  then show "quiet (wallet_addAccount E)" unfolding wallet_addAccount_def
    by (intro quiet_session) (auto simp: quiet_def fail_def asks_simps Let_def split: sum.split)
qed

fun spends :: "pending_params \<Rightarrow> bool" where
  "spends (POrder _) = True"
| "spends (PSend _) = True"
| "spends (PToken _) = True"
| "spends _ = False"

definition mayBroadcast :: "bg \<Rightarrow> message \<Rightarrow> bool" where
  "mayBroadcast s m \<longleftrightarrow>
    (case m_call m of
       Wallet_sendNative _ _ \<Rightarrow> True
     | Wallet_sendToken _ _ _ \<Rightarrow> True
     | Approval_response i ok \<Rightarrow> ok \<and> (case map_of (pendingRequests s) i of None \<Rightarrow> False | Some p \<Rightarrow> spends (pr_params p))
     | _ \<Rightarrow> False)"

lemma quiet_approved:
  assumes "\<not> spends (pr_params p)"
  shows "quiet (handleApproved E p)"
proof -
  have "quiet (approvedAccounts E p v)" for v
    using quiet_saving [OF quiet_answer(2)]
    by (auto simp: quiet_def approvedAccounts_def Let_def tell_def answer_def asks_simps split: prod.split option.split)
  moreover have "quiet (approvedSign E p msg a v)" for msg a v
    by (auto simp: quiet_def approvedSign_def Let_def withKey_def tell_def tellError_def answer_def asks_simps split: option.split sum.split)
  ultimately show ?thesis
    using assms quiet_end(4) by (auto simp: quiet_def handleApproved_def split: option.split pending_params.split)
qed

lemma quiet_message:
  assumes "\<not> mayBroadcast s m"
  shows "asks (\<lambda>q. \<forall>h. q \<noteq> Broadcast h) (snd (onMessage E m sd s))"
proof -
  have page: "quiet (garuda_requestAccounts E o1 t i)" "quiet (garuda_getAccounts o1)" "quiet (garuda_placeOrder E op o1 t i)"
    "quiet (garuda_signMessage E msg a o1 t i)" "quiet (garuda_sendTransaction E sp o1 t i)" "quiet (garuda_sendToken E tp o1 t i)"
    for o1 t i op msg a sp tp
  proof -
    show "quiet (garuda_requestAccounts E o1 t i)" "quiet (garuda_getAccounts o1)"
      using quiet_pending quiet_end(2) by (auto simp: quiet_def garuda_requestAccounts_def garuda_getAccounts_def split: option.split)
    show "quiet (garuda_placeOrder E op o1 t i)" "quiet (garuda_signMessage E msg a o1 t i)"
      unfolding garuda_placeOrder_def garuda_signMessage_def by (intro quiet_rules)+
    show "quiet (garuda_sendTransaction E sp o1 t i)" "quiet (garuda_sendToken E tp o1 t i)"
      unfolding garuda_sendTransaction_def garuda_sendToken_def
      by (auto intro!: quiet_session quiet_connected simp: quiet_end quiet_pending)
  qed
  have resp: "asks (\<lambda>q. \<forall>h. q \<noteq> Broadcast h) (snd (approval_response E i ok s))" if "m_call m = Approval_response i ok" for i ok
    using assms that quiet_approved quiet_end(2,4)
    by (auto simp: mayBroadcast_def approval_response_def quiet_def Let_def split: option.split)
  have "asks (\<lambda>q. \<forall>h. q \<noteq> Broadcast h) (snd (handleMessage E m sd s))"
    using assms page quiet_wallet quiet_end quiet_answer(1) resp unfolding handleMessage_def Let_def quiet_def
    by (cases "m_call m") (simp_all add: mayBroadcast_def)
  then show ?thesis using quiet_end(2) unfolding onMessage_def Let_def quiet_def
    by (auto split: call.split option.split list.split prod.split)
qed

section \<open>The cause of a broadcast\<close>

text \<open>Message number \<open>t\<close> may broadcast: it is a send of the wallet's own popup, or it approves a
  request for which an earlier message asked.\<close>

definition caused :: "worker \<Rightarrow> nat \<Rightarrow> bool" where
  "caused w t \<longleftrightarrow> (\<exists>m sd. (t, m, sd) \<in> set (w_received w) \<and>
    ((\<exists>to a. m_call m = Wallet_sendNative to a) \<or> (\<exists>to a asset. m_call m = Wallet_sendToken to a asset) \<or>
     (\<exists>i t0 m0 sd0 prm. m_call m = Approval_response i True \<and> (t0, m0, sd0) \<in> set (w_received w) \<and> t0 < t \<and>
        pendingOf m0 sd0 = Some prm \<and> spends prm)))"

definition history :: "worker \<Rightarrow> bool" where
  "history w \<longleftrightarrow>
    (\<forall>x \<in> set (w_received w). fst x < length (w_received w)) \<and>
    (\<forall>kp \<in> set (pendingRequests (w_bg w)). \<exists>t m sd. (t, m, sd) \<in> set (w_received w) \<and> asked_by m sd (snd kp)) \<and>
    (\<forall>tp \<in> set (w_tasks w). asks (\<lambda>q. \<forall>h. q \<noteq> Broadcast h) (snd tp) \<or> caused w (fst tp)) \<and>
    (\<forall>tq \<in> set (w_asked w). (\<forall>h. snd tq \<noteq> Broadcast h) \<or> caused w (fst tq))"

lemma caused_mono: "caused w t \<Longrightarrow> set (w_received w) \<subseteq> set (w_received w') \<Longrightarrow> caused w' t"
  unfolding caused_def by blast

lemma settle_received: "w_received (settle t r w) = w_received w"
  by (simp add: settle_def Let_def split: proc.split)

lemma caused_settle: "caused (settle t r w) = caused w"
  by (rule ext) (simp add: caused_def settle_received)

lemma caused_bg: "caused (w\<lparr>w_bg := s\<rparr>) = caused w"
  by (rule ext) (simp add: caused_def)

lemma settle_tasks: "set (w_tasks (settle t r w)) \<subseteq> insert (t, snd r) (set (w_tasks w))"
  using set_mput [of t "snd r" "w_tasks w"] by (auto simp: settle_def Let_def set_mdelete split: proc.split)

lemma settle_asked:
  assumes "tq \<in> set (w_asked (settle t r w))"
  shows "tq \<in> set (w_asked w) \<or> (\<exists>k. snd r = Fetch (snd tq) k \<and> fst tq = t)"
  using assms by (auto simp: settle_def Let_def split: proc.splits)

lemma history_settle:
  assumes "history w"
    and p: "asks (\<lambda>q. \<forall>h. q \<noteq> Broadcast h) (snd r) \<or> caused w t"
    and pend: "\<forall>kp \<in> set (pendingRequests (fst r)). \<exists>t m sd. (t, m, sd) \<in> set (w_received w) \<and> asked_by m sd (snd kp)"
  shows "history (settle t r w)"
proof -
  have "asks (\<lambda>q. \<forall>h. q \<noteq> Broadcast h) (snd tp) \<or> caused w (fst tp)" if "tp \<in> set (w_tasks (settle t r w))" for tp
    using that settle_tasks [of t r w] p assms(1) by (auto simp: history_def)
  moreover have "(\<forall>h. snd tq \<noteq> Broadcast h) \<or> caused w (fst tq)" if "tq \<in> set (w_asked (settle t r w))" for tq
    using settle_asked [OF that] p assms(1) by (auto simp: history_def asks_simps)
  ultimately show ?thesis
    using assms(1) pend by (simp add: history_def settle_received caused_settle settle_bg)
qed

lemma history_receive:
  assumes h: "history w" and Q: "pending_from m sd (w_bg w) (w_bg (receive E m sd w))"
  shows "history (receive E m sd w)"
proof -
  let ?t = "length (w_received w)"
  let ?w = "w\<lparr>w_received := w_received w @ [(?t, m, sd)]\<rparr>"
  have "history ?w"
    using h caused_mono [of w _ ?w] unfolding history_def by (fastforce simp: less_Suc_eq)
  moreover have "asks (\<lambda>q. \<forall>h. q \<noteq> Broadcast h) (snd (onMessage E m sd (w_bg w))) \<or> caused ?w ?t"
  proof (cases "mayBroadcast (w_bg w) m")
    case True
    then consider "\<exists>to a. m_call m = Wallet_sendNative to a" | "\<exists>to a asset. m_call m = Wallet_sendToken to a asset"
      | i p where "m_call m = Approval_response i True" "map_of (pendingRequests (w_bg w)) i = Some p" "spends (pr_params p)"
      by (auto simp: mayBroadcast_def split: call.splits option.splits)
    then show ?thesis
    proof cases
      case (3 i p)
      have "(i, p) \<in> set (pendingRequests (w_bg w))" using 3(2) by (rule map_of_SomeD)
      then obtain t0 m0 sd0 where "(t0, m0, sd0) \<in> set (w_received w)" "pendingOf m0 sd0 = Some (pr_params p)"
        using h by (force simp: history_def asked_by_def)
      moreover from this have "t0 < ?t" using h by (force simp: history_def)
      ultimately have "caused ?w ?t" unfolding caused_def using 3(1,3)
        by (intro exI [of _ m] exI [of _ sd]) auto
      then show ?thesis ..
    qed (auto simp: caused_def)
  qed (simp add: quiet_message)
  moreover have "\<forall>kp \<in> set (pendingRequests (fst (onMessage E m sd (w_bg w)))).
      \<exists>t m sd. (t, m, sd) \<in> set (w_received ?w) \<and> asked_by m sd (snd kp)"
    using Q h unfolding pending_from_def history_def receive_bg by fastforce
  ultimately show ?thesis unfolding receive_def Let_def by (rule history_settle)
qed

lemma asks_next:
  "asks P (Resume f) \<Longrightarrow> asks P (snd (f s))" "asks P (Fetch q k) \<Longrightarrow> asks P (snd (k r s))"
  by (simp_all add: asks_simps)

lemma history_step:
  assumes "reach E stored w" "history w" "step E w w'"
  shows "history w'"
  using assms(3)
proof cases
  case (Receive m sd)
  have "session_inv (w_bg w)" by (rule pend.reach_inv [OF assms(1)])
  then have "pending_from m sd (w_bg w) (w_bg (receive E m sd w))"
    using pend.good_message [of "w_bg w" m sd E] by (simp add: good_def receive_bg)
  then show ?thesis unfolding Receive by (rule history_receive [OF assms(2)])
next
  case (Resumed t f)
  have "no_new_pending (w_bg w) (fst (f (w_bg w)))"
    using pend.calm_task [OF pend.reach_calm [OF assms(1)] Resumed(2)] pend.reach_inv [OF assms(1)] pend.R_refl
    by (simp add: safe_Resume)
  moreover have "asks (\<lambda>q. \<forall>h. q \<noteq> Broadcast h) (snd (f (w_bg w))) \<or> caused w t"
    using assms(2) map_of_SomeD [OF Resumed(2)] asks_next(1) by (fastforce simp: history_def)
  ultimately show ?thesis unfolding Resumed(1)
    using assms(2) by (intro history_settle) (auto simp: no_new_pending_def history_def)
next
  case (Replied t q k r)
  have "no_new_pending (w_bg w) (fst (k r (w_bg w)))"
    using pend.calm_task [OF pend.reach_calm [OF assms(1)] Replied(2)] pend.reach_inv [OF assms(1)] pend.R_refl
    by (simp add: safe_Fetch)
  moreover have "asks (\<lambda>q. \<forall>h. q \<noteq> Broadcast h) (snd (k r (w_bg w))) \<or> caused w t"
    using assms(2) map_of_SomeD [OF Replied(2)] asks_next(2) by (fastforce simp: history_def)
  ultimately show ?thesis unfolding Replied(1)
    using assms(2) by (intro history_settle) (auto simp: no_new_pending_def history_def)
next
  case (Locked n)
  then show ?thesis using assms(2) by (simp add: history_def caused_bg vault_frame)
next
  case (Expired i)
  have "set (pendingRequests (approvalTimeout i s)) \<subseteq> set (pendingRequests s)" for s
  proof (cases "i \<in> set (approvalTimers s)")
    case True
    show ?thesis unfolding approvalTimeout_frame(1) [OF True] set_mdelete by blast
  qed (simp add: approvalTimeout_def)
  from this [of "w_bg w"] show ?thesis using assms(2) unfolding history_def Expired by (simp add: caused_bg) blast
qed

lemma reach_history: "reach E stored w \<Longrightarrow> history w"
proof (induction rule: reach.induct)
  case init
  then show ?case by (simp add: history_def worker_init_def bg_init_def vault_state.defs)
qed (rule history_step)


section \<open>Payments\<close>

lemma collectUtxos_prefix:
  "collectUtxos target us sel c = (sel', c') \<Longrightarrow>
    \<exists>k \<le> length us. sel' = sel @ take k us \<and> c' = c + sum_list (map utxo_value (take k us)) \<and>
      (of_int c' \<ge> target \<or> k = length us) \<and> (us \<noteq> [] \<longrightarrow> 0 < k)"
proof (induction us arbitrary: sel c)
  case (Cons u us)
  show ?case
  proof (cases "of_int (c + utxo_value u) \<ge> target")
    case True
    then show ?thesis using Cons.prems by (intro exI [of _ 1]) (auto simp: Let_def)
  next
    case False
    then obtain k where "k \<le> length us" "sel' = (sel @ [u]) @ take k us"
      "c' = c + utxo_value u + sum_list (map utxo_value (take k us))" "of_int c' \<ge> target \<or> k = length us"
      using Cons.IH [of "sel @ [u]" "c + utxo_value u"] Cons.prems by (auto simp: Let_def)
    then show ?thesis by (intro exI [of _ "Suc k"]) auto
  qed
qed simp

definition inputSum :: "UTXO list \<Rightarrow> int" where
  "inputSum us = sum_list (map utxo_value us)"

definition outputSum :: "NumOutput list \<Rightarrow> rat" where
  "outputSum outs = sum_list (map no_value outs)"

lemma nativePayment_ok:
  assumes "nativePayment amt to chg short utxos = Inr (sel, outs)"
  shows "(\<exists>k. sel = take k utxos) \<and> hd outs = payTo to amt \<and> (\<forall>out \<in> set (tl outs). no_address out = Some chg) \<and>
    1000 \<le> of_int (inputSum sel) - outputSum outs \<and> of_int (inputSum sel) - outputSum outs \<le> 1546"
proof -
  obtain sel' c where c: "collectUtxos (amt + of_int FEE) utxos [] 0 = (sel', c)" by fastforce
  from collectUtxos_prefix [OF c] obtain k where k: "sel' = take k utxos" "c = inputSum sel'"
    by (auto simp: inputSum_def)
  have "sel' = sel" "\<not> of_int c < amt + of_int FEE"
    and outs: "outs = [payTo to amt] @ (if of_int c - amt - of_int FEE > of_int DUST then [payTo chg (of_int c - amt - of_int FEE)] else [])"
    using assms c by (auto simp: nativePayment_def Let_def split: if_splits)
  then show ?thesis using k by (auto simp: outputSum_def FEE_def DUST_def)
qed

lemma nativePayment_short:
  assumes "utxos \<noteq> []" "\<forall>u \<in> set utxos. 0 \<le> utxo_value u"
  shows "(\<exists>tx. nativePayment amt to chg short utxos = Inr tx) \<longleftrightarrow> amt + 1000 \<le> of_int (inputSum utxos)"
proof -
  obtain sel' c where c: "collectUtxos (amt + of_int FEE) utxos [] 0 = (sel', c)" by fastforce
  from collectUtxos_prefix [OF c] obtain k where k: "c = sum_list (map utxo_value (take k utxos))"
    "of_int c \<ge> amt + of_int FEE \<or> k = length utxos" by auto
  have "sum_list (map utxo_value utxos) = c + sum_list (map utxo_value (drop k utxos))"
    unfolding k(1) using append_take_drop_id [of k utxos] by (metis map_append sum_list_append)
  moreover have "0 \<le> sum_list (map utxo_value (drop k utxos))"
    using assms(2) by (intro sum_list_nonneg) (auto dest: in_set_dropD)
  ultimately have le: "c \<le> inputSum utxos" by (simp add: inputSum_def)
  have "(of_int c :: rat) \<ge> amt + of_int FEE \<longleftrightarrow> of_int (inputSum utxos) \<ge> amt + of_int FEE"
  proof (cases "k = length utxos")
    case True
    then show ?thesis using k(1) by (simp add: inputSum_def)
  next
    case False
    have "(of_int c :: rat) \<le> of_int (inputSum utxos)" using le by simp
    then show ?thesis using False k(2) by auto
  qed
  then show ?thesis using assms(1) c by (auto simp: nativePayment_def Let_def FEE_def not_less)
qed

lemma tokenPayment_ok:
  assumes "tokenPayment d chg utxos = Inr (sel, outs)"
  shows "(\<exists>k. sel = take k utxos) \<and> hd outs = opReturn d \<and> (\<forall>out \<in> set (tl outs). no_address out = Some chg) \<and>
    1000 \<le> of_int (inputSum sel) - outputSum outs \<and> of_int (inputSum sel) - outputSum outs \<le> 1546"
proof -
  obtain sel' c where c: "collectUtxos (of_int (FEE + DUST)) utxos [] 0 = (sel', c)" by fastforce
  from collectUtxos_prefix [OF c] obtain k where k: "sel' = take k utxos" "c = inputSum sel'"
    by (auto simp: inputSum_def)
  have "sel' = sel" "\<not> c < FEE"
    and outs: "outs = [opReturn d] @ (if c - FEE > DUST then [payTo chg (of_int (c - FEE))] else [])"
    using assms c by (auto simp: tokenPayment_def Let_def split: if_splits)
  then show ?thesis using k by (auto simp: outputSum_def FEE_def DUST_def)
qed

section \<open>What a message leads to\<close>

text \<open>If every handler asks the API only for what \<open>P\<close> allows for its message, then so does the
  worker in every run.\<close>

definition attributed :: "(message \<Rightarrow> request \<Rightarrow> bool) \<Rightarrow> worker \<Rightarrow> bool" where
  "attributed P w \<longleftrightarrow>
    map fst (w_received w) = [0..<length (w_received w)] \<and>
    (\<forall>tp \<in> set (w_tasks w). \<exists>m sd. (fst tp, m, sd) \<in> set (w_received w) \<and> asks (P m) (snd tp)) \<and>
    (\<forall>tq \<in> set (w_asked w). \<exists>m sd. (fst tq, m, sd) \<in> set (w_received w) \<and> P m (snd tq))"

lemma attributed_settle:
  assumes "attributed P w" "(t, m, sd) \<in> set (w_received w)" "asks (P m) (snd r)"
  shows "attributed P (settle t r w)"
proof -
  have "\<exists>m sd. (fst tp, m, sd) \<in> set (w_received w) \<and> asks (P m) (snd tp)" if t: "tp \<in> set (w_tasks (settle t r w))" for tp
  proof -
    consider "tp = (t, snd r)" | "tp \<in> set (w_tasks w)" using t settle_tasks [of t r w] by blast
    then show ?thesis
    proof cases
      case 1
      then show ?thesis using assms(2,3) by auto
    next
      case 2
      then show ?thesis using assms(1) unfolding attributed_def by blast
    qed
  qed
  moreover have "\<exists>m sd. (fst tq, m, sd) \<in> set (w_received w) \<and> P m (snd tq)" if "tq \<in> set (w_asked (settle t r w))" for tq
    using settle_asked [OF that] assms by (auto simp: attributed_def asks_simps)
  ultimately show ?thesis using assms(1) unfolding attributed_def settle_received by blast
qed

lemma attributed_bg: "attributed P (w\<lparr>w_bg := s\<rparr>) = attributed P w"
  by (simp add: attributed_def)

lemma attributed_receive:
  assumes "attributed P w" "asks (P m) (snd (onMessage E m sd (w_bg w)))"
  shows "attributed P (receive E m sd w)"
proof -
  let ?w = "w\<lparr>w_received := w_received w @ [(length (w_received w), m, sd)]\<rparr>"
  have "attributed P ?w" using assms(1) unfolding attributed_def by fastforce
  then show ?thesis unfolding receive_def Let_def by (rule attributed_settle [where m = m and sd = sd]) (use assms(2) in simp_all)
qed

lemma attributed_task:
  assumes "attributed P w" "map_of (w_tasks w) t = Some p"
  shows "\<exists>m sd. (t, m, sd) \<in> set (w_received w) \<and> asks (P m) p"
  using assms map_of_SomeD [OF assms(2)] by (fastforce simp: attributed_def)

lemma reach_attributed:
  assumes "reach E stored w" "\<And>m sd s. asks (P m) (snd (onMessage E m sd s))"
  shows "attributed P w"
  using assms(1)
proof (induction rule: reach.induct)
  case init
  then show ?case by (simp add: attributed_def worker_init_def)
next
  case (step w w')
  show ?case using step(2)
  proof cases
    case (Receive m sd)
    then show ?thesis using attributed_receive [OF step.IH] assms(2) by simp
  next
    case (Resumed t f)
    then show ?thesis using attributed_task [OF step.IH Resumed(2)] attributed_settle [OF step.IH] asks_next(1) by metis
  next
    case (Replied t q k r)
    then show ?thesis using attributed_task [OF step.IH Replied(2)] attributed_settle [OF step.IH] asks_next(2) by metis
  qed (simp_all add: step.IH attributed_bg)
qed

lemma attributed_asked:
  assumes "attributed P w" "(t, q) \<in> set (w_asked w)" "(t, m, sd) \<in> set (w_received w)"
  shows "P m q"
proof -
  obtain m' sd' where m': "(t, m', sd') \<in> set (w_received w)" "P m' q" using assms(1,2) by (fastforce simp: attributed_def)
  have "distinct (map fst (w_received w))" using assms(1) by (simp add: attributed_def)
  then have "(m', sd') = (m, sd)" using m'(1) assms(3) by (meson eq_key_imp_eq_value)
  then show ?thesis using m'(2) by simp
qed

section \<open>What a payment broadcasts\<close>

text \<open>The text \<open>h\<close> is a signed transaction that spends outputs of the wallet, pays \<open>out\<close> first,
  returns the rest to \<open>own\<close> (a memo follows at most) and leaves a fee of 1000 to 1546 satoshi.\<close>

definition paysFor :: "crypto \<Rightarrow> NumOutput \<Rightarrow> NumOutput list \<Rightarrow> string \<Rightarrow> bool" where
  "paysFor C out memo h \<longleftrightarrow>
    (\<exists>mnemonic index key own sel outs change.
       ext_deriveKey C mnemonic 0 index = Inr key \<and> signTx C (sel, outs) key = Inr h \<and> outs = out # change @ memo \<and>
       list_all (\<lambda>x. no_address x = Some own \<and> no_value x > 546) change \<and> length change \<le> 1 \<and>
       1000 \<le> of_int (inputSum sel) - outputSum outs \<and> of_int (inputSum sel) - outputSum outs \<le> 1546)"

abbreviation broadcasts :: "(string \<Rightarrow> bool) \<Rightarrow> request \<Rightarrow> bool" where
  "broadcasts P q \<equiv> \<forall>h. q = Broadcast h \<longrightarrow> P h"

definition onlyPays :: "(string \<Rightarrow> bool) \<Rightarrow> segment \<Rightarrow> bool" where
  "onlyPays P k \<longleftrightarrow> (\<forall>s. asks (broadcasts P) (snd (k s)))"

lemma onlyPays_end: "onlyPays P (fail e)" "onlyPays P (answer v)" "onlyPays P (tell p v)" "onlyPays P (tellError p e)"
  by (simp_all add: onlyPays_def fail_def answer_def tell_def tellError_def asks_simps)

lemma onlyPays_fetching:
  "\<forall>h. q = Broadcast h \<longrightarrow> P h \<Longrightarrow> (\<And>j. onlyPays P (k j)) \<Longrightarrow> (\<And>e. onlyPays P (f e)) \<Longrightarrow> onlyPays P (fetching q k f)"
  by (auto simp: onlyPays_def fetching_def asks_simps split: reply.split)

lemma onlyPays_sign:
  assumes "\<And>e. onlyPays P (f e)" "\<And>j. onlyPays P (k j)"
    and "\<And>tx h. payment = Inr tx \<Longrightarrow> signTx (e_crypto E) tx key = Inr h \<Longrightarrow> P h"
  shows "onlyPays P (signAndBroadcast E key f k payment)"
proof (cases "rbind payment (\<lambda>tx. signTx (e_crypto E) tx key)")
  case (Inl e)
  then show ?thesis using assms(1) by (simp add: signAndBroadcast_def)
next
  case (Inr h)
  then have "P h" using assms(3) by (cases payment) auto
  then have "onlyPays P (fetching (Broadcast h) k f)" using assms(1,2) by (intro onlyPays_fetching) auto
  then show ?thesis unfolding signAndBroadcast_def Inr sum.case by (simp add: onlyPays_def asks_simps)
qed

lemma onlyPays_key:
  assumes "\<And>e. onlyPays P (f e)" "\<And>a key. ext_deriveKey (e_crypto E) mnemonic 0 (am_index a) = Inr key \<Longrightarrow> onlyPays P (k a key)"
  shows "onlyPays P (withKey E f mnemonic account k)"
  using assms by (auto simp: withKey_def split: option.split sum.split)

lemma native_paysFor:
  assumes "ext_deriveKey C mnemonic 0 i = Inr key"
    and ok: "nativePayment amt to chg short utxos = Inr (sel, outs)" and h: "signTx C (sel, outs @ memo) key = Inr h"
    and "outputSum memo = 0"
  shows "paysFor C (payTo to amt) memo h"
proof -
  obtain change where c: "outs = payTo to amt # change" "length change \<le> 1"
      "list_all (\<lambda>x. no_address x = Some chg \<and> no_value x > 546) change"
    using ok by (auto simp: nativePayment_def Let_def DUST_def split: if_splits prod.splits)
  moreover have "outputSum (outs @ memo) = outputSum outs" using assms(4) by (simp add: outputSum_def)
  ultimately show ?thesis unfolding paysFor_def using assms(1) h nativePayment_ok [OF ok]
    by (intro exI [of _ mnemonic] exI [of _ i] exI [of _ key] exI [of _ chg] exI [of _ sel] exI [of _ "outs @ memo"] exI [of _ change]) simp
qed

lemma token_paysFor:
  assumes "ext_deriveKey C mnemonic 0 i = Inr key" "tokenPayment d chg utxos = Inr tx" "signTx C tx key = Inr h"
  shows "paysFor C (opReturn d) [] h"
proof -
  obtain sel outs where ok: "tokenPayment d chg utxos = Inr (sel, outs)" "tx = (sel, outs)" using assms(2) by (cases tx) auto
  then obtain change where c: "outs = opReturn d # change" "length change \<le> 1"
      "list_all (\<lambda>x. no_address x = Some chg \<and> no_value x > 546) change"
    by (auto simp: tokenPayment_def Let_def DUST_def split: if_splits prod.splits)
  then show ?thesis unfolding paysFor_def using assms(1,3) tokenPayment_ok [OF ok(1)] unfolding ok(2)
    by (intro exI [of _ mnemonic] exI [of _ i] exI [of _ key] exI [of _ chg] exI [of _ sel] exI [of _ outs] exI [of _ change]) simp
qed

lemma onlyPays_token:
  assumes "\<And>e. onlyPays P (f e)" "\<And>j. onlyPays P (k j)" "ext_deriveKey (e_crypto E) mnemonic 0 i = Inr key"
    and "\<And>d h. paysFor (e_crypto E) (opReturn d) [] h \<Longrightarrow> P h"
  shows "onlyPays P (tokenTransfer E f k account key asset amt to)"
  unfolding tokenTransfer_def
proof (rule onlyPays_fetching)
  have "onlyPays P (signAndBroadcast E key f k (rbind (utxosOf u) (tokenPayment d (am_address account))))" for u d
  proof (rule onlyPays_sign)
    show "P h" if tx: "rbind (utxosOf u) (tokenPayment d (am_address account)) = Inr tx" "signTx (e_crypto E) tx key = Inr h" for tx h
    proof (cases "utxosOf u")
      case (Inr us)
      then show ?thesis using tx by (auto intro: assms(4) token_paysFor [OF assms(3)])
    qed (use tx in simp)
  qed (rule assms)+
  then show "onlyPays P (case preparedData prep of Inl e \<Rightarrow> f e
    | Inr d \<Rightarrow> fetching (Utxos (am_address account)) (\<lambda>u. signAndBroadcast E key f k (rbind (utxosOf u) (tokenPayment d (am_address account)))) f)" for prep
    using assms(1) by (auto split: sum.split intro!: onlyPays_fetching)
qed (simp_all add: assms(1))

lemma onlyPays_at: "onlyPays P k \<Longrightarrow> asks (broadcasts P) (snd (k s))"
  by (simp add: onlyPays_def)

lemma onlyPays_session: "(\<And>v. onlyPays P (k v)) \<Longrightarrow> onlyPays P (withSession k)"
  by (auto simp: onlyPays_def withSession_def fail_def asks_simps split: option.split)

lemma onlyPays_native:
  assumes "\<And>e. onlyPays P (f e)" "\<And>j. onlyPays P (k j)" "ext_deriveKey (e_crypto E) mnemonic 0 i = Inr key" "outputSum memo = 0"
    and "\<And>h. paysFor (e_crypto E) (payTo to amt) memo h \<Longrightarrow> P h"
  shows "onlyPays P (fetching (Utxos a) (\<lambda>u. signAndBroadcast E key f k (rbind (utxosOf u) (\<lambda>utxos.
    rbind (nativePayment amt to chg short utxos) (\<lambda>(sel, outs). Inr (sel, outs @ memo))))) f)"
proof (rule onlyPays_fetching)
  show "onlyPays P (signAndBroadcast E key f k (rbind (utxosOf u) (\<lambda>utxos.
    rbind (nativePayment amt to chg short utxos) (\<lambda>(sel, outs). Inr (sel, outs @ memo)))))" for u
  proof (rule onlyPays_sign)
    show "P h" if tx: "rbind (utxosOf u) (\<lambda>utxos. rbind (nativePayment amt to chg short utxos) (\<lambda>(sel, outs). Inr (sel, outs @ memo))) = Inr tx"
      "signTx (e_crypto E) tx key = Inr h" for tx h
    proof (cases "utxosOf u")
      case (Inr us)
      then show ?thesis using tx by (auto intro!: assms(5) intro: native_paysFor [OF assms(3) _ _ assms(4)])
    qed (use tx in simp)
  qed (rule assms)+
qed (simp_all add: assms(1))

lemma memo_free: "outputSum (memoOutput memo) = 0"
  by (simp add: outputSum_def memoOutput_def split: option.split)

lemma rbind_Inr: "rbind x Inr = x"
  by (cases x) auto

lemma sends_pay:
  "onlyPays (paysFor (e_crypto E) (payTo to amt) []) (wallet_sendNative E to amt)"
  "onlyPays (\<lambda>h. \<exists>d. paysFor (e_crypto E) (opReturn d) [] h) (wallet_sendToken E to amt asset)"
proof -
  have "onlyPays (paysFor (e_crypto E) (payTo to amt) []) (withKey E fail mn ac (\<lambda>account key.
     fetching (Utxos (am_address account)) (\<lambda>utxoRes.
             signAndBroadcast E key fail (\<lambda>res. answer (RServer res))
               (rbind (utxosOf utxoRes) (nativePayment amt to (am_address account) ''Saldo tidak cukup''))) fail))" for mn ac
  proof (intro onlyPays_key onlyPays_end)
    fix a key assume "ext_deriveKey (e_crypto E) mn 0 (am_index a) = Inr key"
    then show "onlyPays (paysFor (e_crypto E) (payTo to amt) []) (fetching (Utxos (am_address a)) (\<lambda>utxoRes.
             signAndBroadcast E key fail (\<lambda>res. answer (RServer res))
               (rbind (utxosOf utxoRes) (nativePayment amt to (am_address a) ''Saldo tidak cukup''))) fail)"
      using onlyPays_native [of "paysFor (e_crypto E) (payTo to amt) []" fail "\<lambda>res. answer (RServer res)" E mn "am_index a" key "[]" to amt]
      by (simp add: rbind_Inr onlyPays_end outputSum_def)
  qed
  then show "onlyPays (paysFor (e_crypto E) (payTo to amt) []) (wallet_sendNative E to amt)"
    unfolding wallet_sendNative_def Let_def
    by (intro onlyPays_session) (unfold onlyPays_def, blast)
  have "onlyPays (\<lambda>h. \<exists>d. paysFor (e_crypto E) (opReturn d) [] h) (withKey E fail mn ac (\<lambda>account key.
      tokenTransfer E fail (\<lambda>res. answer (RServer res)) account key asset amt to))" for mn ac
    by (intro onlyPays_key onlyPays_end onlyPays_token) auto
  then show "onlyPays (\<lambda>h. \<exists>d. paysFor (e_crypto E) (opReturn d) [] h) (wallet_sendToken E to amt asset)"
    unfolding wallet_sendToken_def Let_def
    by (intro onlyPays_session) (unfold onlyPays_def, blast)
qed

lemma approved_pay:
  "onlyPays (paysFor (e_crypto E) (payTo (sp_to p) (amountSat E (sp_amount p))) (memoOutput (sp_memo p))) (approvedSend E req p v)"
  "onlyPays (\<lambda>h. \<exists>d. paysFor (e_crypto E) (opReturn d) [] h) (approvedToken E req tk v)"
proof -
  show "onlyPays (paysFor (e_crypto E) (payTo (sp_to p) (amountSat E (sp_amount p))) (memoOutput (sp_memo p))) (approvedSend E req p v)"
    unfolding onlyPays_def approvedSend_def Let_def broadcastTx_def
    by (intro allI onlyPays_at onlyPays_key onlyPays_end, rule onlyPays_native) (auto simp: onlyPays_end memo_free split: sum.split)
  show "onlyPays (\<lambda>h. \<exists>d. paysFor (e_crypto E) (opReturn d) [] h) (approvedToken E req tk v)"
    unfolding onlyPays_def approvedToken_def Let_def broadcastTx_def
    by (intro allI onlyPays_at onlyPays_key onlyPays_end, rule onlyPays_token) (auto simp: onlyPays_end split: sum.split)
qed

section \<open>Sample runs\<close>

definition resumeTask :: "nat \<Rightarrow> worker \<Rightarrow> worker" where
  "resumeTask t w = (case map_of (w_tasks w) t of Some (Resume f) \<Rightarrow> settle t (f (w_bg w)) w | _ \<Rightarrow> w)"

definition replyTask :: "nat \<Rightarrow> reply \<Rightarrow> worker \<Rightarrow> worker" where
  "replyTask t r w = (case map_of (w_tasks w) t of Some (Fetch q k) \<Rightarrow> settle t (k r (w_bg w)) w | _ \<Rightarrow> w)"

lemma reach_run:
  "reach E stored w \<Longrightarrow> reach E stored (receive E m sd w)"
  "reach E stored w \<Longrightarrow> reach E stored (resumeTask t w)"
  "reach E stored w \<Longrightarrow> reach E stored (replyTask t r w)"
proof -
  assume w: "reach E stored w"
  show "reach E stored (receive E m sd w)" using w by (rule reach.step) (rule Receive)
  show "reach E stored (resumeTask t w)"
    using w by (auto simp: resumeTask_def split: option.split proc.split intro: reach.step Resumed)
  show "reach E stored (replyTask t r w)"
    using w by (auto simp: replyTask_def split: option.split proc.split intro: reach.step Replied)
qed

definition sample_env :: env where
  "sample_env = \<lparr>e_crypto = sample_crypto, e_web = sample_web, e_rand = (\<lambda>n. (replicate 32 1, replicate 12 2)),
     e_uuid = (\<lambda>n. replicate n CHR ''u''), e_round = (\<lambda>x. x)\<rparr>"

lemma sample_env_simps [simp]:
  "e_crypto sample_env = sample_crypto" "e_web sample_env = sample_web" "e_uuid sample_env n = replicate n CHR ''u''"
  "e_rand sample_env n = (replicate 32 1, replicate 12 2)" "e_round sample_env x = x"
  by (simp_all add: sample_env_def)

lemma sample_env_inj: "inj (e_uuid sample_env)"
  by (rule injI) (metis sample_env_simps(3) length_replicate)

abbreviation sampleMsg :: "call \<Rightarrow> message" where
  "sampleMsg c \<equiv> \<lparr>m_call = c, m_id = Some ''r1'', m_origin = Some ''https://dex''\<rparr>"

abbreviation samplePage :: sender where
  "samplePage \<equiv> \<lparr>s_origin = Some ''https://dex'', s_tab = Some (7, None)\<rparr>"

text \<open>A wallet that was just created, then a page that asks for the accounts and for a signature.\<close>

definition created :: worker where
  "created = resumeTask 0 (resumeTask 0 (receive sample_env (sampleMsg (Wallet_create ''able'' ''pw'' None)) samplePage (worker_init None)))"

definition requested :: worker where
  "requested = receive sample_env (sampleMsg (Garuda_signMessage ''hi'' ''grd1'')) samplePage (receive sample_env (sampleMsg Garuda_requestAccounts) samplePage created)"

lemma sample_reach: "reach sample_env None created" "reach sample_env None requested"
  unfolding created_def requested_def by (intro reach_run reach.init)+

definition sample_key :: ext_DerivedKey where
  "sample_key = \<lparr>ek_privateKey = replicate 32 4, ek_publicKey = 2 # replicate 32 4,
     ek_address = pubkeyToP2WPKH sample_crypto (2 # replicate 32 4), ek_derivationPath = ''garuda-sha256''\<rparr>"

definition sample_account :: AccountMeta where
  "sample_account = \<lparr>am_name = ''Akun 1'', am_address = ek_address sample_key, am_derivationPath = ''garuda-sha256'', am_index = 0\<rparr>"

lemma sample_derive: "ext_deriveKey sample_crypto ''able'' 0 0 = Inr sample_key"
proof -
  have "length (utf8 ''able'') = 4" by (simp add: utf8_def utf8_char_def)
  then have "sha256 sample_crypto (utf8 ''able'') = replicate 32 4" by (simp add: sample_crypto_def)
  moreover have "getPublicKey sample_crypto (replicate 32 4) = Inr (2 # replicate 32 4)" by (simp add: sample_crypto_def)
  ultimately show ?thesis by (simp add: ext_deriveKey_def sample_key_def Let_def)
qed

lemmas run_defs = receive_def resumeTask_def replyTask_def settle_def onMessage_def handleMessage_def Let_def mdelete_def
  answer_def fail_def originOf_def tabIdOf_def

lemma created_state:
  "getSession (w_bg created) = Some (''pw'', 0)" "isUnlocked (w_bg created)" "pendingRequests (w_bg created) = []"
  "vs_heap (w_bg created) = [\<lparr>vd_mnemonic = ''able'', vd_accounts = [sample_account], vd_connectedSites = [], vd_network = ''regtest'', vd_autoLock = 30\<rparr>]"
  "uuids (w_bg created) = 0" "sessionVault (w_bg created) = Some 0" "w_tasks created = []" "length (w_received created) = 1"
  "approvalTimers (w_bg created) = []" "tabMessages (w_bg created) = []"
  by (simp_all add: created_def worker_init_def bg_init_def vault_init_def vault_state.defs run_defs wallet_create_def
      sample_derive saving_def alloc_def vault_defs sample_account_def sample_key_def)

lemma requested_state:
  "vs_heap (w_bg requested) = vs_heap (w_bg created)" "getSession (w_bg requested) = Some (''pw'', 0)"
  "sessionVault (w_bg requested) = Some 0"
  "pendingRequests (w_bg requested) =
    [([], \<lparr>pr_id = [], pr_params = PAccounts ''https://dex'', pr_origin = ''https://dex'', pr_tabId = 7, pr_requestId = ''r1''\<rparr>),
     (''u'', \<lparr>pr_id = ''u'', pr_params = PSign ''hi'' ''grd1'', pr_origin = ''https://dex'', pr_tabId = 7, pr_requestId = ''r1''\<rparr>)]"
proof -
  have c: "isConnectedSite ''https://dex'' (w_bg created) = False"
    by (simp add: isConnectedSite_def created_state)
  have g: "getSession (s\<lparr>uuids := n, pendingRequests := z, badge := b, popup := p, approvalTimers := l\<rparr>) = getSession s" for s :: bg and n z b p l
    by (simp add: getSession_def)
  show "vs_heap (w_bg requested) = vs_heap (w_bg created)" "getSession (w_bg requested) = Some (''pw'', 0)"
    "sessionVault (w_bg requested) = Some 0"
    "pendingRequests (w_bg requested) =
    [([], \<lparr>pr_id = [], pr_params = PAccounts ''https://dex'', pr_origin = ''https://dex'', pr_tabId = 7, pr_requestId = ''r1''\<rparr>),
     (''u'', \<lparr>pr_id = ''u'', pr_params = PSign ''hi'' ''grd1'', pr_origin = ''https://dex'', pr_tabId = 7, pr_requestId = ''r1''\<rparr>)]"
    by (simp_all add: requested_def run_defs garuda_requestAccounts_def garuda_signMessage_def withSession_def created_state c
        addPending_def showApprovalPopup_def g)
qed


lemma approved_pending: "pendingRequests (fst (handleApproved E p s)) = pendingRequests s"
proof -
  have saved: "pendingRequests (fst (saving E data pw k s)) = pendingRequests s" for data pw k s
    by (simp add: saving_def split: prod.split)
  have persisted: "persistSession v s = (s2, x) \<Longrightarrow> pendingRequests s2 = pendingRequests s" for v s2 x and s :: bg
    using vault_frame(17) [of v s] by simp
  show ?thesis
    by (auto simp: handleApproved_def approvedAccounts_def approvedOrder_def approvedSend_def approvedToken_def approvedSign_def
        withKey_def tell_def tellError_def answer_def fetching_def tokenTransfer_def Let_def tab_frame saved
        split: option.split pending_params.split sum.split prod.split dest!: persisted simp: vault_frame)
qed

lemma response_pending:
  "map_of (pendingRequests s) i = Some p \<Longrightarrow> pendingRequests (fst (approval_response E i ok s)) = mdelete i (pendingRequests s)"
  by (simp add: approval_response_def Let_def approved_pending tellError_def answer_def tab_frame)

lemma getSession_password: "getSession s = Some (p, v) \<Longrightarrow> sessionPassword s = Some p"
  by (simp add: getSession_def split: option.splits if_splits)

definition sends :: "crypto \<Rightarrow> message \<Rightarrow> request \<Rightarrow> bool" where
  "sends C m q \<longleftrightarrow>
    (\<forall>to amt. m_call m = Wallet_sendNative to amt \<longrightarrow> broadcasts (paysFor C (payTo to amt) []) q) \<and>
    (\<forall>to amt asset. m_call m = Wallet_sendToken to amt asset \<longrightarrow> broadcasts (\<lambda>h. \<exists>d. paysFor C (opReturn d) [] h) q)"

lemma asks_mono: "asks P p \<Longrightarrow> (\<And>q. P q \<Longrightarrow> Q q) \<Longrightarrow> asks Q p"
  by (induction rule: asks.induct) (auto simp: asks_simps)

lemma asks_any: "asks (\<lambda>q. True) p"
proof (induction p)
  case (Resume f)
  then show ?case by (metis asks.Resume prod.collapse rangeI snds.intros)
next
  case (Fetch q k)
  then show ?case by (metis asks.Fetch prod.collapse rangeI snds.intros)
qed (rule asks.Finish)

lemma sends_message: "asks (sends (e_crypto E) m) (snd (onMessage E m sd s))"
proof -
  consider to amt where "m_call m = Wallet_sendNative to amt" | to amt asset where "m_call m = Wallet_sendToken to amt asset"
    | "\<forall>q. sends (e_crypto E) m q" unfolding sends_def by blast
  then show ?thesis
  proof cases
    case (1 to amt)
    then have "onMessage E m sd s = wallet_sendNative E to amt s" by (simp add: onMessage_def handleMessage_def Let_def)
    moreover have "asks (sends (e_crypto E) m) (snd (wallet_sendNative E to amt s))"
      by (rule asks_mono [OF onlyPays_at [OF sends_pay(1)]]) (simp add: sends_def 1)
    ultimately show ?thesis by simp
  next
    case (2 to amt asset)
    then have "onMessage E m sd s = wallet_sendToken E to amt asset s" by (simp add: onMessage_def handleMessage_def Let_def)
    moreover have "asks (sends (e_crypto E) m) (snd (wallet_sendToken E to amt asset s))"
      by (rule asks_mono [OF onlyPays_at [OF sends_pay(2)]]) (simp add: sends_def 2)
    ultimately show ?thesis by simp
  next
    case 3
    show ?thesis by (rule asks_mono [OF asks_any]) (simp add: 3)
  qed
qed

section \<open>A payment of the popup\<close>

definition sample_utxos :: json where
  "sample_utxos = JObj [(''utxos'', JArr [JObj [(''txid'', JStr ''aa''), (''vout'', JNum 0 0), (''value'', JNum 6000 0)]])]"

definition paid :: worker where
  "paid = resumeTask 1 (replyTask 1 (Json sample_utxos)
    (receive sample_env (sampleMsg (Wallet_sendNative (am_address sample_account) 5000)) samplePage created))"

lemma paid_reach: "reach sample_env None paid"
  unfolding paid_def by (intro reach_run sample_reach)

lemma ext_script_p2wpkh: "hash_sizes C \<Longrightarrow> ext_addressToScript (pubkeyToP2WPKH C pk) = Inr ([0x00, 0x14] @ hash160 C pk)"
  by (simp add: hash_sizes_hash160 pubkeyToP2WPKH_with ext_addressToScript_with)

lemma sample_signs:
  "\<exists>h. signTx sample_crypto ([\<lparr>txid = ''aa'', vout = 0, utxo_value = 6000\<rparr>], [payTo (am_address sample_account) 5000]) sample_key = Inr h"
proof -
  let ?o = "payTo (am_address sample_account) 5000"
  have script: "ext_outScript (numOutput v ?o) = Inr ([0x00, 0x14] @ hash160 sample_crypto (2 # replicate 32 4))" for v
    unfolding ext_outScript_def numOutput_def sample_account_def sample_key_def
    by (simp only: ext_script_p2wpkh [OF sample_crypto_sizes] TxOutput.simps NumOutput.simps AccountMeta.simps ext_DerivedKey.simps option.case)
  have sig: "signDER sample_crypto h k = Inr (0x30 # h @ k)" for h k by (simp add: sample_crypto_def)
  have "\<exists>h. ext_buildAndSignTx sample_crypto ins [numOutput 5000 ?o] sk pk = Inr h" for ins sk pk
  proof (cases "ext_buildAndSignTx sample_crypto ins [numOutput 5000 ?o] sk pk")
    case (Inl e)
    from buildWith_fails [OF this [unfolded ext_buildAndSignTx_def]] show ?thesis by (simp add: script sig)
  qed blast
  then show ?thesis by (simp add: signTx_def toBigInt_def script)
qed

lemma paid_state:
  "\<exists>h. (1, Broadcast h) \<in> set (w_asked paid)"
  "(1, sampleMsg (Wallet_sendNative (am_address sample_account) 5000), samplePage) \<in> set (w_received paid)"
proof -
  have f: "firstAccount (vs_heap (w_bg created) ! 0) = Some sample_account" "vd_mnemonic (vs_heap (w_bg created) ! 0) = ''able''"
    "am_index sample_account = 0"
    by (simp_all add: created_state firstAccount_def sample_account_def)
  have u: "utxosOf sample_utxos = Inr [\<lparr>txid = ''aa'', vout = 0, utxo_value = 6000\<rparr>]"
    by (simp add: utxosOf_def sample_utxos_def orElse_def asUtxo_def)
  have p: "nativePayment 5000 a b c [\<lparr>txid = ''aa'', vout = 0, utxo_value = 6000\<rparr>] = Inr ([\<lparr>txid = ''aa'', vout = 0, utxo_value = 6000\<rparr>], [payTo a 5000])" for a b c
    by (simp add: nativePayment_def FEE_def DUST_def)
  obtain h where h: "signTx sample_crypto ([\<lparr>txid = ''aa'', vout = 0, utxo_value = 6000\<rparr>], [payTo (am_address sample_account) 5000]) sample_key = Inr h"
    using sample_signs by blast
  have "(1, Broadcast h) \<in> set (w_asked paid)" "(1, sampleMsg (Wallet_sendNative (am_address sample_account) 5000), samplePage) \<in> set (w_received paid)"
    by (simp_all add: paid_def run_defs wallet_sendNative_def withSession_def created_state(1,7,8) f withKey_def sample_derive fetching_def
      signAndBroadcast_def u p h)
  then show "\<exists>h. (1, Broadcast h) \<in> set (w_asked paid)"
    "(1, sampleMsg (Wallet_sendNative (am_address sample_account) 5000), samplePage) \<in> set (w_received paid)" by blast+
qed

section \<open>Properties\<close>

text \<open>C19. In every state that the worker can reach, through any interleaving of messages, replies of
  the API, storage operations and timers, the session has its vault and exactly one lock timer,
  and every pending request is stored under its own id with its timeout scheduled.\<close>

theorem worker_invariant:
  assumes "reach E stored w"
  shows "bg_inv E (w_bg w)"
  by (rule life.reach_inv [OF assms])

theorem worker_invariant_witness:
  "reach sample_env None requested \<and> bg_inv sample_env (w_bg requested) \<and> length (pendingRequests (w_bg requested)) = 2"
  using worker_invariant [OF sample_reach(2)] sample_reach(2) by (simp add: requested_state)

text \<open>C21. An unlocked wallet can always lock itself: exactly one lock timer is scheduled, and when
  it fires the password and the vault are gone from the session.\<close>

theorem auto_lock:
  assumes "reach E stored w" "isUnlocked (w_bg w)"
  shows "\<exists>t. vs_timers (w_bg w) = [t] \<and> step E w (w\<lparr>w_bg := fireLock t (w_bg w)\<rparr>) \<and>
    \<not> isUnlocked (fireLock t (w_bg w)) \<and> getSession (fireLock t (w_bg w)) = None"
  using fireLock_locks [OF conn.reach_inv [OF assms(1)] assms(2)] step.Locked by blast

theorem auto_lock_witness:
  "isUnlocked (w_bg created) \<and> (\<exists>t. vs_timers (w_bg created) = [t] \<and>
     step sample_env created (created\<lparr>w_bg := fireLock t (w_bg created)\<rparr>) \<and>
     \<not> isUnlocked (fireLock t (w_bg created)) \<and> getSession (fireLock t (w_bg created)) = None)"
  using auto_lock [OF sample_reach(1) created_state(2)] created_state(2) by simp

text \<open>C20. A pending request is decided at most once. After a first answer of the user, whatever
  happens next, the request is no longer pending, and another answer for it does nothing.\<close>

theorem decided_once:
  assumes "inj (e_uuid E)" "reach E stored w" "map_of (pendingRequests (w_bg w)) i = Some p"
    and "m_call m = Approval_response i ok" "(step E)\<^sup>*\<^sup>* (receive E m sd w) w'"
  shows "map_of (pendingRequests (w_bg w')) i = None \<and>
    approval_response E i ok' (w_bg w') = (w_bg w', Finish (Result RNull))"
proof -
  let ?w1 = "receive E m sd w"
  have r1: "reach E stored ?w1" by (rule reach.step [OF assms(2) step.Receive])
  have "pending_inv E (w_bg w)" using life.reach_inv [OF assms(2)] by (simp add: bg_inv_def)
  then obtain n where n: "i = e_uuid E n" "n < uuids (w_bg w)"
    using map_of_SomeD [OF assms(3)] by (force simp: pending_inv_def)
  have "uuids (w_bg w) \<le> uuids (w_bg ?w1)"
    using life.step_R [OF assms(2) step.Receive] by (simp add: bg_grows_def)
  moreover have "pendingRequests (w_bg ?w1) = mdelete i (pendingRequests (w_bg w))"
    using assms(4) response_pending [OF assms(3)] by (simp add: receive_bg onMessage_def handleMessage_def Let_def)
  moreover have "bg_grows E (w_bg ?w1) (w_bg w')" using life.steps_R [OF assms(5) r1] by blast
  ultimately have "i \<notin> fst ` set (pendingRequests (w_bg w'))"
    using assms(1) n by (auto simp: bg_grows_def keys_mdelete)
  then have "map_of (pendingRequests (w_bg w')) i = None" by (simp add: map_of_eq_None_iff)
  then show ?thesis by (simp add: approval_response_def answer_def)
qed

theorem decided_once_witness:
  "map_of (pendingRequests (w_bg requested)) ''u'' \<noteq> None \<and>
   map_of (pendingRequests (w_bg (receive sample_env (sampleMsg (Approval_response ''u'' False)) samplePage requested))) ''u'' = None"
  using decided_once [OF sample_env_inj sample_reach(2), of "''u''" _ "sampleMsg (Approval_response ''u'' False)" False samplePage]
  by (auto simp: requested_state)

text \<open>C18. A site becomes connected only by the user's approval: a step that adds an origin to the
  connected sites of a vault is the approval of a pending request for the accounts that came
  from that very origin.\<close>

theorem connected_by_approval:
  assumes "reach E stored w" "step E w w'" "v < length (vs_heap (w_bg w))"
    and "site \<in> sites v (w_bg w')" "site \<notin> sites v (w_bg w)"
  shows "\<exists>m sd i p origin. w' = receive E m sd w \<and> m_call m = Approval_response i True \<and>
    map_of (pendingRequests (w_bg w)) i = Some p \<and> pr_params p = PAccounts origin \<and> pr_origin p = site"
proof -
  have "sites v (fireLock n (w_bg w)) = sites v (w_bg w)" "sites v (approvalTimeout i (w_bg w)) = sites v (w_bg w)" for n i
    by (simp_all add: sites_def vault_frame heap_frame)
  then obtain m sd where "w' = receive E m sd w" "sites_added m sd (w_bg w) (w_bg w')"
    using conn.step_effect [OF assms(1,2)] assms(3-5) by (auto simp: sites_kept_def)
  moreover from this have "site \<in> newSites m (w_bg w)" using assms(3-5) by (auto simp: sites_added_def)
  ultimately show ?thesis unfolding newSites_def by blast
qed

theorem connected_by_approval_witness:
  "''https://dex'' \<in> sites 0 (w_bg (receive sample_env (sampleMsg (Approval_response [] True)) samplePage requested)) \<and>
   (\<exists>i p origin. map_of (pendingRequests (w_bg requested)) i = Some p \<and> pr_params p = PAccounts origin \<and> pr_origin p = ''https://dex'')"
proof -
  let ?m = "sampleMsg (Approval_response [] True)"
  have p: "sessionPassword (w_bg requested) = Some ''pw''" by (rule getSession_password [OF requested_state(2)])
  have after: "''https://dex'' \<in> sites 0 (w_bg (receive sample_env ?m samplePage requested))"
    by (simp add: receive_bg onMessage_def handleMessage_def approval_response_def requested_state created_state
        handleApproved_def getSession_def p approvedAccounts_def addConnectedSite_def persistSession_def Let_def
        saving_def sites_def)
  have before: "''https://dex'' \<notin> sites 0 (w_bg requested)" "0 < length (vs_heap (w_bg requested))"
    by (simp_all add: sites_def requested_state created_state)
  from connected_by_approval [OF sample_reach(2) step.Receive before(2) after before(1)] after show ?thesis by blast
qed






abbreviation sample_send :: PendingRequest where
  "sample_send \<equiv> \<lparr>pr_id = ''u'', pr_params = PSend \<lparr>sp_from = ''grd1'', sp_to = ''grd1q'', sp_amount = 1 / 2, sp_kind = None, sp_memo = Some ''hi''\<rparr>,
     pr_origin = ''https://dex'', pr_tabId = 7, pr_requestId = ''r1''\<rparr>"




text \<open>C24. A request that the user rejects, or that times out, ends for its page with an error and for
  the worker without a request to the API: it is no longer pending, and one message that names
  the failure goes to the tab that asked, if there is one.\<close>

theorem refused_request:
  assumes "map_of (pendingRequests s) i = Some p" "i \<in> set (approvalTimers s)" "0 \<le> pr_tabId p"
  shows "(let (s', r) = approval_response E i False s in
       r = Finish (Result (RStr ''ok'')) \<and> map_of (pendingRequests s') i = None \<and> vs_heap s' = vs_heap s \<and>
       tabMessages s' = tabMessages s @ [(pr_tabId p, pr_requestId p, Inl (Error ''Ditolak pengguna''))]) \<and>
    (let s' = approvalTimeout i s in
       map_of (pendingRequests s') i = None \<and> vs_heap s' = vs_heap s \<and>
       tabMessages s' = tabMessages s @ [(pr_tabId p, pr_requestId p, Inl (Error ''Request timeout''))])"
  using assms by (simp add: approval_response_def approvalTimeout_def tellError_def answer_def sendResultToTab_def Let_def)

theorem refused_request_witness:
  "tabMessages (approvalTimeout ''u'' (w_bg requested)) = tabMessages (w_bg requested) @ [(7, ''r1'', Inl (Error ''Request timeout''))]"
proof -
  have "''u'' \<in> set (approvalTimers (w_bg requested))"
    using life.reach_inv [OF sample_reach(2)] by (auto simp: bg_inv_def pending_inv_def requested_state)
  then show ?thesis using refused_request [of "w_bg requested" "''u''"] by (simp add: requested_state Let_def)
qed


text \<open>C25. A native payment is built exactly if the unspent outputs together cover the amount and the
  fee of 1000 satoshi; otherwise the send fails and nothing is signed.\<close>

theorem payment_iff_funded:
  assumes "\<forall>u \<in> set utxos. 0 \<le> utxo_value u" "0 < amt"
  shows "(\<exists>tx. nativePayment amt to chg short utxos = Inr tx) \<longleftrightarrow> amt + 1000 \<le> of_int (inputSum utxos)"
proof (cases "utxos = []")
  case True
  then show ?thesis using assms(2) by (simp add: nativePayment_def inputSum_def)
next
  case False
  then show ?thesis using nativePayment_short assms(1) by blast
qed

theorem payment_iff_funded_witness:
  "\<exists>tx. nativePayment 5000 ''grd1q'' ''grd1c'' ''short'' [\<lparr>txid = ''aa'', vout = 0, utxo_value = 4000\<rparr>, \<lparr>txid = ''bb'', vout = 1, utxo_value = 2000\<rparr>] = Inr tx"
  using payment_iff_funded [of "[\<lparr>txid = ''aa'', vout = 0, utxo_value = 4000\<rparr>, \<lparr>txid = ''bb'', vout = 1, utxo_value = 2000\<rparr>]" 5000]
  by (simp add: inputSum_def)

text \<open>C26. A page may ask for a signature in the name of any address. For an address that is not in the
  wallet, the approved request is signed with the key of the first account, and the page is told
  that the signature is one of the address it named.\<close>

theorem signature_mislabelled:
  assumes "getSession s = Some (pw, v)" "pr_params p = PSign txt address" "vd_accounts (vs_heap s ! v) = a # as"
    and "address \<notin> am_address ` set (vd_accounts (vs_heap s ! v))" "0 \<le> pr_tabId p"
    and "ext_deriveKey (e_crypto E) (vd_mnemonic (vs_heap s ! v)) 0 (am_index a) = Inr key"
    and "signDER (e_crypto E) (sha256d (e_crypto E) (signedPayload txt)) (ek_privateKey key) = Inr sig"
  shows "\<exists>f. handleApproved E p s = (s, Resume f) \<and>
    tabMessages (fst (f t)) = tabMessages t @ [(pr_tabId p, pr_requestId p, Inr (RSignature (toHex sig) address))]"
proof -
  have "find (\<lambda>b. am_address b = address) (vd_accounts (vs_heap s ! v)) = None"
    using assms(4) unfolding find_None_iff by auto
  then have "accountFor address (vs_heap s ! v) = Some a" by (simp add: accountFor_def firstAccount_def assms(3))
  then show ?thesis
    using assms(5) by (simp add: handleApproved_def assms(1,2,6,7) approvedSign_def withKey_def tell_def answer_def sendResultToTab_def)
qed

theorem signature_mislabelled_witness:
  "''victim'' \<noteq> am_address sample_account \<and>
   (\<exists>f sig. handleApproved sample_env \<lparr>pr_id = ''u'', pr_params = PSign ''hi'' ''victim'', pr_origin = ''https://dex'', pr_tabId = 7, pr_requestId = ''r1''\<rparr>
       (w_bg created) = (w_bg created, Resume f) \<and>
     tabMessages (fst (f (w_bg created))) = [(7, ''r1'', Inr (RSignature sig ''victim''))])"
proof -
  have ne: "''victim'' \<noteq> am_address sample_account"
    by (simp add: sample_account_def sample_key_def pubkeyToP2WPKH_with bech32With_def GARUDA_bech32_def)
  let ?p = "\<lparr>pr_id = ''u'', pr_params = PSign ''hi'' ''victim'', pr_origin = ''https://dex'', pr_tabId = 7, pr_requestId = ''r1''\<rparr>"
  have sig: "signDER sample_crypto h k = Inr (0x30 # h @ k)" for h k by (simp add: sample_crypto_def)
  have vault: "vd_accounts (vs_heap (w_bg created) ! 0) = [sample_account]" "vd_mnemonic (vs_heap (w_bg created) ! 0) = ''able''"
    "am_index sample_account = 0"
    by (simp_all add: created_state sample_account_def)
  from signature_mislabelled [OF created_state(1), of ?p "''hi''" "''victim''" sample_account "[]" sample_env sample_key _ "w_bg created"]
  show ?thesis using ne by (auto simp: vault sig sample_derive created_state(10))
qed

end
