(* ===== verification/Bridge.thy ===== *)
theory Bridge
  imports Worker
begin

text \<open>
  How a web page talks to the wallet: the provider \<open>window.garuda\<close> of
  \<^verbatim>\<open>src/extension/src/inpage/index.ts\<close>, the content script
  \<^verbatim>\<open>src/extension/src/content/index.ts\<close> that passes messages between the page and the worker, and
  the system of one tab and the worker of the theory Worker.

  The page and the content script share the window's message queue \<open>posted\<close>, to which the page
  can also post what it likes. A promise of the provider is its id; \<open>settled\<close> lists the promises
  that were resolved or rejected. The callback of \<open>chrome.runtime.sendMessage\<close> is the entry of
  \<open>sys_open\<close> with the number of the message in the worker. Messages of the popup and of other
  tabs are steps of the worker.
\<close>

section \<open>The provider\<close>

datatype page_call =
    RequestAccounts
  | GetAccounts
  | GetBalance "string option"
  | PlaceOrder order_params
  | SignMessage string string
  | SendTransaction send_params
  | SendToken token_params
  | Request call                    \<comment> \<open>\<open>request({ method, params })\<close>\<close>

fun garuda :: "page_call \<Rightarrow> call" where
  "garuda RequestAccounts = Garuda_requestAccounts"
| "garuda GetAccounts = Garuda_getAccounts"
| "garuda (GetBalance address) = Wallet_getBalance address"
| "garuda (PlaceOrder params) = Garuda_placeOrder params"
| "garuda (SignMessage msg address) = Garuda_signMessage msg address"
| "garuda (SendTransaction params) = Garuda_sendTransaction params"
| "garuda (SendToken params) = Garuda_sendToken params"
| "garuda (Request c) = c"

datatype window_msg =
    GARUDA_REQUEST string call
  | GARUDA_RESPONSE string "result_value option" "js_error option"   \<comment> \<open>id, result, error\<close>
  | OtherMessage

type_synonym outcome = "result_value option result"

record tab =
  tab_id :: int
  tab_origin :: string
  pendingCallbacks :: "string list"
  callTimers :: "string list"
  calls :: "string list"
  settled :: "(string \<times> outcome) list"
  posted :: "window_msg list"
  waitingRequests :: "string list"   \<comment> \<open>\<open>pendingRequests\<close> of the content script\<close>

definition post :: "window_msg \<Rightarrow> tab \<Rightarrow> tab" where
  "post wm t = t\<lparr>posted := posted t @ [wm]\<rparr>"

definition sendToBackground :: "string \<Rightarrow> call \<Rightarrow> tab \<Rightarrow> tab" where
  "sendToBackground i c t =
    post (GARUDA_REQUEST i c)
      (t\<lparr>calls := calls t @ [i], pendingCallbacks := List.insert i (pendingCallbacks t), callTimers := i # callTimers t\<rparr>)"

definition settlePromise :: "string \<Rightarrow> outcome \<Rightarrow> tab \<Rightarrow> tab" where
  "settlePromise i x t = t\<lparr>pendingCallbacks := removeAll i (pendingCallbacks t), settled := settled t @ [(i, x)]\<rparr>"

definition inpageListener :: "window_msg \<Rightarrow> tab \<Rightarrow> tab" where
  "inpageListener wm t =
    (case wm of
       GARUDA_RESPONSE i r e \<Rightarrow>
         if i \<notin> set (pendingCallbacks t) then t
         else (case e of
                 Some x \<Rightarrow> if x = Error [] then settlePromise i (Inr r) t else settlePromise i (Inl x) t
               | None \<Rightarrow> settlePromise i (Inr r) t)
     | _ \<Rightarrow> t)"

text \<open>The callback of the provider's \<open>setTimeout\<close>.\<close>

definition callTimeout :: "string \<Rightarrow> tab \<Rightarrow> tab" where
  "callTimeout i t =
    (if i \<notin> set (callTimers t) then t
     else let t1 = t\<lparr>callTimers := remove1 i (callTimers t)\<rparr>
          in if i \<in> set (pendingCallbacks t1) then settlePromise i (Inl (Error ''Request timeout'')) t1 else t1)"

section \<open>The content script\<close>

text \<open>A request is passed on with the origin of the window; the answer to it comes back later.\<close>

definition pageMessage :: "tab \<Rightarrow> string \<Rightarrow> call \<Rightarrow> message" where
  "pageMessage t i c = \<lparr>m_call = c, m_id = Some i, m_origin = Some (tab_origin t)\<rparr>"

definition pageSender :: "tab \<Rightarrow> sender" where
  "pageSender t = \<lparr>s_origin = Some (tab_origin t), s_tab = Some (tab_id t, None)\<rparr>"

definition contextLost :: "string \<Rightarrow> tab \<Rightarrow> tab" where
  "contextLost i = post (GARUDA_RESPONSE i None (Some (Error ''Extension perlu di-refresh. Tutup tab ini dan buka ulang.'')))"

definition contentResponse :: "string \<Rightarrow> response \<Rightarrow> tab \<Rightarrow> tab" where
  "contentResponse i resp t =
    (case resp of
       Waiting \<Rightarrow> t\<lparr>waitingRequests := List.insert i (waitingRequests t)\<rparr>
     | Result v \<Rightarrow> post (GARUDA_RESPONSE i (Some v) None) t
     | Failure e \<Rightarrow> post (GARUDA_RESPONSE i None (Some e)) t)"

definition contentApproval :: "string \<Rightarrow> result_value result \<Rightarrow> tab \<Rightarrow> tab" where
  "contentApproval i outcome t =
    (if i \<notin> set (waitingRequests t) then t
     else post (case outcome of Inl e \<Rightarrow> GARUDA_RESPONSE i None (Some e) | Inr v \<Rightarrow> GARUDA_RESPONSE i (Some v) None)
            (t\<lparr>waitingRequests := removeAll i (waitingRequests t)\<rparr>))"

section \<open>A tab and the worker\<close>

record system =
  sys_tab :: tab
  sys_worker :: worker
  sys_open :: "(nat \<times> string) list"
  sys_seen :: nat                    \<comment> \<open>messages of the worker to tabs that were delivered\<close>

definition sys_init :: "int \<Rightarrow> string \<Rightarrow> string option \<Rightarrow> system" where
  "sys_init tid origin stored =
    \<lparr>sys_tab = \<lparr>tab_id = tid, tab_origin = origin, pendingCallbacks = [], callTimers = [], calls = [], settled = [], posted = [], waitingRequests = []\<rparr>,
     sys_worker = worker_init stored, sys_open = [], sys_seen = 0\<rparr>"

text \<open>The listener of the content script: \<open>valid\<close> is \<open>isContextValid()\<close>.\<close>

definition contentRequest :: "env \<Rightarrow> bool \<Rightarrow> string \<Rightarrow> call \<Rightarrow> system \<Rightarrow> system" where
  "contentRequest E valid i c y =
    (if \<not> valid then y\<lparr>sys_tab := contextLost i (sys_tab y)\<rparr>
     else y\<lparr>sys_worker := receive E (pageMessage (sys_tab y) i c) (pageSender (sys_tab y)) (sys_worker y),
            sys_open := (length (w_received (sys_worker y)), i) # sys_open y\<rparr>)"

definition deliver :: "env \<Rightarrow> bool \<Rightarrow> system \<Rightarrow> system" where
  "deliver E valid y =
    (case posted (sys_tab y) of
       [] \<Rightarrow> y
     | wm # rest \<Rightarrow>
         (let y1 = y\<lparr>sys_tab := (sys_tab y)\<lparr>posted := rest\<rparr>\<rparr>
          in case wm of
               GARUDA_REQUEST i c \<Rightarrow> contentRequest E valid i c y1
             | _ \<Rightarrow> y1\<lparr>sys_tab := inpageListener wm (sys_tab y1)\<rparr>))"

definition onTab :: "(tab \<Rightarrow> tab) \<Rightarrow> system \<Rightarrow> system" where
  "onTab f y = y\<lparr>sys_tab := f (sys_tab y)\<rparr>"

definition answered :: "nat \<Rightarrow> string \<Rightarrow> (tab \<Rightarrow> tab) \<Rightarrow> system \<Rightarrow> system" where
  "answered n i f y = onTab f (y\<lparr>sys_open := removeAll (n, i) (sys_open y)\<rparr>)"

definition told :: "system \<Rightarrow> system" where
  "told y =
    (case tabMessages (w_bg (sys_worker y)) ! sys_seen y of (tid, i, outcome) \<Rightarrow>
      (if tid = tab_id (sys_tab y) then onTab (contentApproval i outcome) else (\<lambda>z. z)) (y\<lparr>sys_seen := sys_seen y + 1\<rparr>))"

text \<open>Steps that the page takes or that follow from its messages alone.\<close>

inductive page_step :: "env \<Rightarrow> system \<Rightarrow> system \<Rightarrow> bool" for E where
  Call: "page_step E y (onTab (sendToBackground i (garuda c)) y)"
| Post: "page_step E y (onTab (post wm) y)"
| Deliver: "page_step E y (deliver E valid y)"
| Answered: "(n, i) \<in> set (sys_open y) \<Longrightarrow> (n, a) \<in> set (w_answered (sys_worker y)) \<Longrightarrow> page_step E y (answered n i (contentResponse i a) y)"
| LastError: "(n, i) \<in> set (sys_open y) \<Longrightarrow> page_step E y (answered n i (post (GARUDA_RESPONSE i None (Some e))) y)"
| Told: "sys_seen y < length (tabMessages (w_bg (sys_worker y))) \<Longrightarrow> page_step E y (told y)"
| CallTimeout: "page_step E y (onTab (callTimeout i) y)"

text \<open>All steps: messages of the popup and of other tabs come from another sender.\<close>

inductive sys_step :: "env \<Rightarrow> system \<Rightarrow> system \<Rightarrow> bool" for E where
  Page: "page_step E y y' \<Longrightarrow> sys_step E y y'"
| Foreign: "tabIdOf sd \<noteq> tab_id (sys_tab y) \<Longrightarrow> sys_step E y (y\<lparr>sys_worker := receive E m sd (sys_worker y)\<rparr>)"
| Internal: "step E (sys_worker y) w' \<Longrightarrow> w_received w' = w_received (sys_worker y) \<Longrightarrow> sys_step E y (y\<lparr>sys_worker := w'\<rparr>)"

inductive sys_reach :: "env \<Rightarrow> int \<Rightarrow> string \<Rightarrow> string option \<Rightarrow> system \<Rightarrow> bool" for E tid origin stored where
  init: "sys_reach E tid origin stored (sys_init tid origin stored)"
| step: "sys_reach E tid origin stored y \<Longrightarrow> sys_step E y y' \<Longrightarrow> sys_reach E tid origin stored y'"

section \<open>Promises\<close>

definition tab_inv :: "tab \<Rightarrow> bool" where
  "tab_inv t \<longleftrightarrow> (distinct (calls t) \<longrightarrow>
    distinct (map fst (settled t)) \<and> fst ` set (settled t) \<inter> set (pendingCallbacks t) = {} \<and>
    fst ` set (settled t) \<union> set (pendingCallbacks t) = set (calls t) \<and> set (pendingCallbacks t) \<subseteq> set (callTimers t))"

lemma tab_inv_frame:
  "tab_inv (t\<lparr>posted := q\<rparr>) = tab_inv t" "tab_inv (t\<lparr>waitingRequests := ws\<rparr>) = tab_inv t" "tab_inv (post wm t) = tab_inv t"
  by (simp_all add: tab_inv_def post_def)

lemma tab_inv_settle: "tab_inv t \<Longrightarrow> i \<in> set (pendingCallbacks t) \<Longrightarrow> tab_inv (settlePromise i x t)"
  by (auto simp: tab_inv_def settlePromise_def)

lemma tab_inv_send: "tab_inv t \<Longrightarrow> tab_inv (sendToBackground i c t)"
  by (auto simp: tab_inv_def sendToBackground_def post_def)

lemma tab_inv_listener: "tab_inv t \<Longrightarrow> tab_inv (inpageListener wm t)"
  by (auto simp: inpageListener_def tab_inv_settle split: window_msg.split option.split)

lemma remove1_keeps: "set xs - {i} \<subseteq> set (remove1 i xs)"
  by (induction xs) auto

lemma tab_inv_timeout:
  assumes "tab_inv t"
  shows "tab_inv (callTimeout i t)"
proof -
  let ?r = "\<lambda>t. t\<lparr>callTimers := remove1 i (callTimers t)\<rparr>"
  have "tab_inv (?r (settlePromise i x t))" if "i \<in> set (pendingCallbacks t)" for x
    using assms that remove1_keeps [of "callTimers t" i] by (auto simp: tab_inv_def settlePromise_def)
  moreover have "settlePromise i x (?r t) = ?r (settlePromise i x t)" for x by (simp add: settlePromise_def)
  moreover have "tab_inv (?r t)" if "i \<notin> set (pendingCallbacks t)" using assms that remove1_keeps [of "callTimers t" i] by (auto simp: tab_inv_def)
  ultimately show ?thesis using assms by (simp add: callTimeout_def Let_def)
qed

lemma tab_inv_content:
  "tab_inv t \<Longrightarrow> tab_inv (contentResponse i a t)" "tab_inv t \<Longrightarrow> tab_inv (contentApproval i x t)" "tab_inv t \<Longrightarrow> tab_inv (contextLost i t)"
  by (auto simp: contentResponse_def contentApproval_def contextLost_def tab_inv_frame split: response.split)

lemmas tab_inv_rules = tab_inv_send tab_inv_listener tab_inv_timeout tab_inv_content

definition same_window :: "system \<Rightarrow> system \<Rightarrow> bool" where
  "same_window y y' \<longleftrightarrow> tab_id (sys_tab y') = tab_id (sys_tab y) \<and> tab_origin (sys_tab y') = tab_origin (sys_tab y)"

lemma window_ops:
  "tab_id (post wm t) = tab_id t" "tab_origin (post wm t) = tab_origin t"
  "tab_id (sendToBackground i c t) = tab_id t" "tab_origin (sendToBackground i c t) = tab_origin t"
  "tab_id (inpageListener wm t) = tab_id t" "tab_origin (inpageListener wm t) = tab_origin t"
  "tab_id (callTimeout i t) = tab_id t" "tab_origin (callTimeout i t) = tab_origin t"
  "tab_id (contentResponse i a t) = tab_id t" "tab_origin (contentResponse i a t) = tab_origin t"
  "tab_id (contentApproval i x t) = tab_id t" "tab_origin (contentApproval i x t) = tab_origin t"
  "tab_id (contextLost i t) = tab_id t" "tab_origin (contextLost i t) = tab_origin t"
  by (simp_all add: post_def sendToBackground_def inpageListener_def settlePromise_def callTimeout_def Let_def
      contentResponse_def contentApproval_def contextLost_def split: window_msg.split option.split response.split)

text \<open>The effect of a step on the worker: nothing, or the message of the page.\<close>

definition worker_effect :: "env \<Rightarrow> system \<Rightarrow> system \<Rightarrow> bool" where
  "worker_effect E y y' \<longleftrightarrow> sys_worker y' = sys_worker y \<or>
    (\<exists>i c. sys_worker y' = receive E (pageMessage (sys_tab y) i c) (pageSender (sys_tab y)) (sys_worker y))"

lemma page_step_effect:
  assumes "page_step E y y'"
  shows "same_window y y' \<and> worker_effect E y y' \<and> (tab_inv (sys_tab y) \<longrightarrow> tab_inv (sys_tab y'))"
  using assms
proof cases
  case (Deliver valid)
  have eq: "pageMessage (t\<lparr>posted := q\<rparr>) = pageMessage t" "pageSender (t\<lparr>posted := q\<rparr>) = pageSender t" for t q
    by (simp_all add: pageMessage_def pageSender_def fun_eq_iff)
  show ?thesis unfolding Deliver deliver_def Let_def
    by (auto simp: contentRequest_def same_window_def worker_effect_def window_ops tab_inv_frame tab_inv_rules eq
        split: list.split window_msg.split)
next
  case Told
  then show ?thesis
    by (auto simp: told_def onTab_def same_window_def worker_effect_def window_ops tab_inv_rules split: prod.split)
qed (auto simp: onTab_def answered_def same_window_def worker_effect_def window_ops tab_inv_frame tab_inv_rules)

lemma sys_step_worker:
  assumes "sys_step E y y'"
  shows "same_window y y' \<and> (sys_worker y' = sys_worker y \<or> step E (sys_worker y) (sys_worker y')) \<and> (tab_inv (sys_tab y) \<longrightarrow> tab_inv (sys_tab y'))"
  using assms
proof cases
  case Page
  then show ?thesis using page_step_effect [OF Page] step.Receive by (auto simp: worker_effect_def)
next
  case Foreign
  then show ?thesis using step.Receive by (auto simp: same_window_def)
qed (simp add: same_window_def)

lemma sys_reach_inv:
  assumes "sys_reach E tid origin stored y"
  shows "reach E stored (sys_worker y) \<and> tab_inv (sys_tab y) \<and> tab_id (sys_tab y) = tid \<and> tab_origin (sys_tab y) = origin"
  using assms
proof (induction rule: sys_reach.induct)
  case init
  then show ?case by (simp add: sys_init_def tab_inv_def reach.init)
next
  case (step y y')
  then show ?case using sys_step_worker [OF step(2)] reach.step by (auto simp: same_window_def)
qed

section \<open>Origin of requests\<close>

definition authentic :: "int \<Rightarrow> string \<Rightarrow> worker \<Rightarrow> bool" where
  "authentic tid origin w \<longleftrightarrow> (\<forall>x \<in> set (w_received w). tabIdOf (snd (snd x)) = tid \<longrightarrow> m_origin (fst (snd x)) = Some origin)"

lemma receive_received: "w_received (receive E m sd w) = w_received w @ [(length (w_received w), m, sd)]"
  by (simp add: receive_def Let_def settle_received)

lemma receive_answered:
  "onMessage E m sd (w_bg w) = (s, Finish a) \<Longrightarrow> (length (w_received w), a) \<in> set (w_answered (receive E m sd w))"
  by (simp add: receive_def Let_def settle_def)

lemma sys_reach_authentic:
  assumes "sys_reach E tid origin stored y"
  shows "authentic tid origin (sys_worker y)"
  using assms
proof (induction rule: sys_reach.induct)
  case init
  then show ?case by (simp add: authentic_def sys_init_def worker_init_def)
next
  case (step y y')
  note w = sys_reach_inv [OF step(1)]
  show ?case using step(2)
  proof cases
    case Page
    then show ?thesis using step.IH w page_step_effect [OF Page]
      by (auto simp: authentic_def worker_effect_def receive_received pageMessage_def)
  qed (use step.IH w in \<open>auto simp: authentic_def receive_received\<close>)
qed


section \<open>What a page can do alone\<close>

text \<open>The page posts one request and the window delivers it.\<close>

definition ask :: "env \<Rightarrow> string \<Rightarrow> call \<Rightarrow> system \<Rightarrow> system" where
  "ask E i c y = deliver E True (onTab (sendToBackground i (garuda (Request c))) y)"

lemma ask_steps: "(page_step E)\<^sup>*\<^sup>* y (ask E i c y)"
  unfolding ask_def by (meson page_step.Call page_step.Deliver rtranclp.rtrancl_refl rtranclp.rtrancl_into_rtrancl)

lemma ask_worker:
  assumes "posted (sys_tab y) = []"
  shows "sys_worker (ask E i c y) = receive E (pageMessage (sys_tab y) i c) (pageSender (sys_tab y)) (sys_worker y)"
    "posted (sys_tab (ask E i c y)) = []" "same_window y (ask E i c y)"
  using assms
  by (simp_all add: ask_def deliver_def onTab_def sendToBackground_def post_def contentRequest_def pageMessage_def pageSender_def same_window_def)

lemma page_origin: "tab_origin t \<noteq> [] \<Longrightarrow> originOf (pageMessage t i c) sd = tab_origin t"
  by (simp add: originOf_def pageMessage_def Let_def)

lemma w_bg_receive: "w_bg (receive E m sd w) = fst (onMessage E m sd (w_bg w))"
  by (rule receive_bg)

lemma request_pends:
  assumes "getSession s = Some (pw, v)" "\<not> isConnectedSite (originOf m sd) s" "m_call m = Garuda_requestAccounts"
    and "pendingRequests s = []"
  shows "\<exists>p. pendingRequests (fst (onMessage E m sd s)) = [(e_uuid E (uuids s), p)] \<and> pr_params p = PAccounts (originOf m sd) \<and>
    pr_origin p = originOf m sd \<and> pr_id p = e_uuid E (uuids s) \<and>
    getSession (fst (onMessage E m sd s)) = Some (pw, v) \<and> vs_heap (fst (onMessage E m sd s)) = vs_heap s"
  using assms by (simp add: onMessage_def handleMessage_def Let_def garuda_requestAccounts_def addPending_def showApprovalPopup_def getSession_def)

lemma approval_connects:
  assumes "getSession s = Some (pw, v)" "v < length (vs_heap s)" "map_of (pendingRequests s) i = Some p" "pr_params p = PAccounts og"
    and "m_call m = Approval_response i True"
  shows "pr_origin p \<in> sites v (fst (onMessage E m sd s))"
proof -
  let ?s = "decided i s"
  have g: "getSession ?s = Some (pw, v)" "sessionVault ?s = Some v" using assms(1)
    by (auto simp: getSession_def split: option.splits if_splits)
  have site: "pr_origin p \<in> sites v (addConnectedSite (pr_origin p) ?s)"
    using g(2) assms(2) by (simp add: addConnectedSite_def sites_def Let_def)
  have "sites v (fst (approvedAccounts E p v ?s)) = sites v (addConnectedSite (pr_origin p) ?s)"
    by (simp add: approvedAccounts_def Let_def persistSession_def saving_def tell_def answer_def sendResultToTab_def sites_def
        split: option.split prod.split)
  then show ?thesis using assms g site
    by (simp add: onMessage_def handleMessage_def approval_response_def handleApproved_def Let_def)
qed

section \<open>Properties\<close>

text \<open>C27. Every promise that the provider hands to a page is settled at most once, and none is lost: a
  call whose id is not used twice is settled exactly once or still pending, and then its timer
  is scheduled and rejects it when it fires.\<close>

theorem promises_settle:
  assumes "sys_reach E tid origin stored y" "distinct (calls (sys_tab y))" "i \<in> set (calls (sys_tab y))"
  shows "length (filter (\<lambda>x. fst x = i) (settled (sys_tab y))) =
      (if i \<in> set (pendingCallbacks (sys_tab y)) then 0 else 1) \<and>
    (i \<in> set (pendingCallbacks (sys_tab y)) \<longrightarrow>
      (i, Inl (Error ''Request timeout'')) \<in> set (settled (callTimeout i (sys_tab y))) \<and>
      page_step E y (onTab (callTimeout i) y))"
proof -
  let ?t = "sys_tab y"
  have inv: "distinct (map fst (settled ?t))" "fst ` set (settled ?t) \<inter> set (pendingCallbacks ?t) = {}"
    "fst ` set (settled ?t) \<union> set (pendingCallbacks ?t) = set (calls ?t)" "set (pendingCallbacks ?t) \<subseteq> set (callTimers ?t)"
    using sys_reach_inv [OF assms(1)] assms(2) by (simp_all add: tab_inv_def)
  have count: "length (filter (\<lambda>x. fst x = i) xs) = (if i \<in> fst ` set xs then 1 else 0)" if "distinct (map fst xs)" for xs :: "(string \<times> outcome) list"
    using that by (induction xs) (auto simp: filter_empty_conv image_iff)
  have "i \<in> fst ` set (settled ?t) \<longleftrightarrow> i \<notin> set (pendingCallbacks ?t)" using inv(2,3) assms(3) by blast
  moreover have "(i, Inl (Error ''Request timeout'')) \<in> set (settled (callTimeout i ?t))" if "i \<in> set (pendingCallbacks ?t)"
    using that inv(4) by (auto simp: callTimeout_def settlePromise_def Let_def)
  ultimately show ?thesis using count [OF inv(1)] page_step.CallTimeout by auto
qed

theorem promises_settle_witness:
  "(''i'', Inl (Error ''Request timeout'')) \<in>
     set (settled (callTimeout ''i'' (sys_tab (onTab (sendToBackground ''i'' (garuda GetAccounts)) (sys_init 7 ''https://dex'' None)))))"
proof -
  let ?y = "onTab (sendToBackground ''i'' (garuda GetAccounts)) (sys_init 7 ''https://dex'' None)"
  have "sys_reach sample_env 7 ''https://dex'' None ?y"
    by (rule sys_reach.step [OF sys_reach.init]) (rule sys_step.Page [OF page_step.Call])
  from promises_settle [OF this, of "''i''"] show ?thesis by (simp add: onTab_def sendToBackground_def post_def sys_init_def)
qed

text \<open>C28. A page cannot speak for another site: a request that is pending for a tab carries the origin
  of that tab's window, whatever the page posts.\<close>

theorem pending_origin:
  assumes "sys_reach E tid origin stored y" "0 < tid" "origin \<noteq> []"
    and "(i, p) \<in> set (pendingRequests (w_bg (sys_worker y)))" "pr_tabId p = tid"
  shows "pr_origin p = origin"
proof -
  have "history (sys_worker y)" using sys_reach_inv [OF assms(1)] reach_history by blast
  then obtain n m sd where m: "(n, m, sd) \<in> set (w_received (sys_worker y))" "asked_by m sd p"
    using assms(4) by (force simp: history_def)
  then have "m_origin m = Some origin"
    using sys_reach_authentic [OF assms(1)] assms(5) by (force simp: authentic_def asked_by_def)
  then show ?thesis using m(2) assms(3) by (simp add: asked_by_def originOf_def)
qed

definition asking :: system where
  "asking = ask sample_env ''a'' Garuda_requestAccounts (sys_init 7 ''https://dex'' None)"

lemma asking_pending:
  "pendingRequests (w_bg (sys_worker asking)) =
    [([], \<lparr>pr_id = [], pr_params = PAccounts ''https://dex'', pr_origin = ''https://dex'', pr_tabId = 7, pr_requestId = ''a''\<rparr>)]"
  unfolding asking_def
  by (subst ask_worker) (simp_all add: sys_init_def w_bg_receive onMessage_def handleMessage_def Let_def pageMessage_def pageSender_def
      garuda_requestAccounts_def getSession_def worker_init_def bg_init_def vault_init_def vault_state.defs addPending_def showApprovalPopup_def
      originOf_def tabIdOf_def)

theorem pending_origin_witness:
  "length (pendingRequests (w_bg (sys_worker asking))) = 1 \<and>
   pr_origin (snd (hd (pendingRequests (w_bg (sys_worker asking))))) = ''https://dex''"
proof -
  have *: "sys_reach E tid og st z \<Longrightarrow> (page_step E)\<^sup>*\<^sup>* z z' \<Longrightarrow> sys_reach E tid og st z'" for E tid og st z z'
    by (rotate_tac, induction rule: rtranclp_induct) (auto intro: sys_reach.step sys_step.Page)
  have "sys_reach sample_env 7 ''https://dex'' None asking"
    unfolding asking_def by (rule * [OF sys_reach.init ask_steps])
  from pending_origin [OF this, of "fst (hd (pendingRequests (w_bg (sys_worker asking))))" "snd (hd (pendingRequests (w_bg (sys_worker asking))))"]
  show ?thesis by (simp add: asking_pending)
qed

text \<open>C29. The approval of a connection does not need the user. While the wallet is unlocked and no
  request is pending, a page of any site can connect its site alone: it asks for the accounts,
  reads the id of its own request with \<open>get_any_pending\<close> and answers it with
  \<open>approval_response\<close>.\<close>

theorem page_approves_itself:
  assumes "getSession (w_bg (sys_worker y)) = Some (pw, v)" "v < length (vs_heap (w_bg (sys_worker y)))"
    and "\<not> isConnectedSite (tab_origin (sys_tab y)) (w_bg (sys_worker y))" "pendingRequests (w_bg (sys_worker y)) = []"
    and "posted (sys_tab y) = []" "tab_origin (sys_tab y) \<noteq> []"
  shows "\<exists>y1 y2 i. (page_step E)\<^sup>*\<^sup>* y y1 \<and> (page_step E)\<^sup>*\<^sup>* y1 y2 \<and>
    (\<exists>mt prm. (length (w_received (sys_worker y)) + 1, Result (RPending mt prm (tab_origin (sys_tab y)) i)) \<in> set (w_answered (sys_worker y1))) \<and>
    y2 = ask E ''c'' (Approval_response i True) y1 \<and>
    tab_origin (sys_tab y) \<in> sites v (w_bg (sys_worker y2))"
proof -
  let ?o = "tab_origin (sys_tab y)"
  let ?ya = "ask E ''a'' Garuda_requestAccounts y"
  let ?y1 = "ask E ''b'' Get_any_pending ?ya"
  let ?i = "e_uuid E (uuids (w_bg (sys_worker y)))"
  let ?y2 = "ask E ''c'' (Approval_response ?i True) ?y1"
  note a = ask_worker [OF assms(5), of E "''a''" Garuda_requestAccounts]
  note b = ask_worker [OF a(2), of E "''b''" Get_any_pending]
  note c = ask_worker [OF b(2), of E "''c''" "Approval_response ?i True"]
  have call: "m_call (pageMessage t j x) = x" for t j x by (simp add: pageMessage_def)
  from request_pends [OF assms(1), of "pageMessage (sys_tab y) ''a'' Garuda_requestAccounts"] assms(3,4,6)
  obtain p where p: "pendingRequests (w_bg (sys_worker ?ya)) = [(?i, p)]" "pr_params p = PAccounts ?o" "pr_origin p = ?o"
    "pr_id p = ?i" "getSession (w_bg (sys_worker ?ya)) = Some (pw, v)" "vs_heap (w_bg (sys_worker ?ya)) = vs_heap (w_bg (sys_worker y))"
    by (auto simp: a(1) w_bg_receive page_origin call)
  have any: "onMessage E (pageMessage t j Get_any_pending) sd (w_bg (sys_worker ?ya)) = answer (describe p) (w_bg (sys_worker ?ya))" for t j sd
    by (simp add: onMessage_def call p(1))
  have bg: "w_bg (sys_worker ?y1) = w_bg (sys_worker ?ya)" by (simp add: b(1) w_bg_receive any answer_def)
  have "(length (w_received (sys_worker y)) + 1, Result (describe p)) \<in> set (w_answered (sys_worker ?y1))"
    using receive_answered [OF any [unfolded answer_def]] by (simp add: b(1)) (simp add: a(1) receive_received)
  then have "\<exists>mt prm. (length (w_received (sys_worker y)) + 1, Result (RPending mt prm ?o ?i)) \<in> set (w_answered (sys_worker ?y1))"
    by (auto simp: describe_def p)
  moreover have "?o \<in> sites v (w_bg (sys_worker ?y2))"
    using approval_connects [of "w_bg (sys_worker ?y1)" pw v ?i p] p assms(2) by (simp add: c(1) w_bg_receive bg call)
  moreover have "(page_step E)\<^sup>*\<^sup>* y ?y1" by (rule rtranclp_trans [OF ask_steps ask_steps])
  ultimately show ?thesis using ask_steps by blast
qed

theorem page_approves_itself_witness:
  "\<exists>y1 y2. (page_step sample_env)\<^sup>*\<^sup>* ((sys_init 7 ''https://dex'' None)\<lparr>sys_worker := created\<rparr>) y1 \<and> (page_step sample_env)\<^sup>*\<^sup>* y1 y2 \<and>
    ''https://dex'' \<in> sites 0 (w_bg (sys_worker y2))"
proof -
  let ?y = "(sys_init 7 ''https://dex'' None)\<lparr>sys_worker := created\<rparr>"
  have "getSession (w_bg (sys_worker ?y)) = Some (''pw'', 0)" by (simp add: created_state)
  from page_approves_itself [OF this, of sample_env] show ?thesis
    by (simp add: created_state sys_init_def isConnectedSite_def) blast
qed

end
