(* ===== verification/QRCode.thy ===== *)
theory QRCode
  imports Bytes
begin

text \<open>
  The QR code generator of the mobile wallet, \<^verbatim>\<open>src/mobile/utils/qrcode.ts\<close>: byte mode, error
  correction level M, versions 1 to 7.

  \<^item> The field tables, the generator polynomial and the Reed-Solomon encoder work on bytes.
  \<^item> A matrix is a list of rows of modules 0 and 1; the loops of the code that write modules are
    folds over the positions they visit, in their order.
  \<^item> The reader at the end is the reference: it follows ISO/IEC 18004 and shares with the
    generator only the tables of block sizes.
\<close>

unbundle bit_operations_syntax

section \<open>The field of 256 elements\<close>

text \<open>One pass of the loop that fills the tables: the two arrays and \<open>x\<close>.\<close>

definition gfStep :: "nat \<Rightarrow> byte list \<times> byte list \<times> 32 word \<Rightarrow> byte list \<times> byte list \<times> 32 word" where
  "gfStep i st =
    (case st of (e, l, x) \<Rightarrow>
      let e' = e[i := ucast x]; l' = l[unat x := of_nat i];
          x1 = push_bit 1 x;
          x2 = (if x1 AND 0x100 \<noteq> 0 then x1 XOR 0x11d else x1)
      in (e', l', x2 AND 0xff))"

definition gfTables :: "byte list \<times> byte list" where
  "gfTables =
    (case fold gfStep [0..<255] (replicate 512 0, replicate 256 0, 1) of (e, l, _) \<Rightarrow>
      (fold (\<lambda>i e. e[i := e ! (i - 255)]) [255..<512] e, l))"

definition GF_EXP :: "byte list" where
  "GF_EXP = fst gfTables"

definition GF_LOG :: "byte list" where
  "GF_LOG = snd gfTables"

definition gfMul :: "byte \<Rightarrow> byte \<Rightarrow> byte" where
  "gfMul a b = (if a = 0 \<or> b = 0 then 0 else GF_EXP ! ((unat (GF_LOG ! unat a) + unat (GF_LOG ! unat b)) mod 255))"

definition rsGenStep :: "nat \<Rightarrow> byte list \<Rightarrow> byte list" where
  "rsGenStep i p =
    fold (\<lambda>j r. let r1 = r[j := r ! j XOR p ! j] in r1[j + 1 := r1 ! (j + 1) XOR gfMul (p ! j) (GF_EXP ! i)])
      [0..<length p] (replicate (length p + 1) 0)"

definition rsGenPoly :: "nat \<Rightarrow> byte list" where
  "rsGenPoly deg = fold rsGenStep [0..<deg] [1]"

definition rsReduce :: "byte list \<Rightarrow> nat \<Rightarrow> byte list \<Rightarrow> byte list" where
  "rsReduce gen i rem =
    (let c = rem ! i
     in if c \<noteq> 0 then fold (\<lambda>j r. r[i + j := r ! (i + j) XOR gfMul (gen ! j) c]) [1..<length gen] rem else rem)"

definition rsEncode :: "byte list \<Rightarrow> nat \<Rightarrow> byte list" where
  "rsEncode data ecLen =
    (let gen = rsGenPoly ecLen
     in drop (length data) (fold (rsReduce gen) [0..<length data] (data @ replicate ecLen 0)))"

section \<open>Tables\<close>

record ECInfo =
  ec :: nat
  groups :: "(nat \<times> nat) list"

definition ECCM :: "ECInfo option list" where
  "ECCM =
    [None,
     Some \<lparr>ec = 10, groups = [(1, 16)]\<rparr>,
     Some \<lparr>ec = 16, groups = [(1, 28)]\<rparr>,
     Some \<lparr>ec = 26, groups = [(1, 44)]\<rparr>,
     Some \<lparr>ec = 18, groups = [(2, 32)]\<rparr>,
     Some \<lparr>ec = 24, groups = [(2, 43)]\<rparr>,
     Some \<lparr>ec = 16, groups = [(4, 27)]\<rparr>,
     Some \<lparr>ec = 18, groups = [(4, 31)]\<rparr>]"

definition ALIGNCTR :: "nat list list" where
  "ALIGNCTR = [[], [], [6, 18], [6, 22], [6, 26], [6, 30], [6, 34], [6, 22, 38]]"

definition REMBITS :: "nat list" where
  "REMBITS = [0, 0, 7, 7, 7, 7, 7, 0]"

definition FMTM :: "nat list" where
  "FMTM =
    [0b101010000010010,
     0b101000100100101,
     0b101111001111100,
     0b101101101001011,
     0b100010111111001,
     0b100000011001110,
     0b100111110010111,
     0b100101010100000]"

section \<open>Matrices\<close>

type_synonym matrix = "nat list list"

definition mkMat :: "nat \<Rightarrow> matrix" where
  "mkMat n = replicate n (replicate n 0)"

definition setModule :: "nat \<Rightarrow> nat \<Rightarrow> nat \<Rightarrow> matrix \<Rightarrow> matrix" where
  "setModule r c v m = m[r := (m ! r)[c := v]]"

text \<open>A run of assignments of modules.\<close>

definition setModules :: "(nat \<times> nat \<times> nat) list \<Rightarrow> matrix \<Rightarrow> matrix" where
  "setModules ws m = fold (\<lambda>(r, c, v). setModule r c v) ws m"

definition placeFinder :: "matrix \<Rightarrow> int \<Rightarrow> int \<Rightarrow> matrix" where
  "placeFinder mat row col =
    (let n = int (length mat)
     in setModules [(nat (row + r), nat (col + c),
          if 0 \<le> r \<and> r \<le> 6 \<and> 0 \<le> c \<and> c \<le> 6 \<and>
             (r = 0 \<or> r = 6 \<or> c = 0 \<or> c = 6 \<or> (2 \<le> r \<and> r \<le> 4 \<and> 2 \<le> c \<and> c \<le> 4)) then 1 else 0).
          r \<leftarrow> [-1..7], c \<leftarrow> [-1..7],
          \<not> (row + r < 0 \<or> row + r \<ge> n \<or> col + c < 0 \<or> col + c \<ge> n)] mat)"

definition placeAlign :: "matrix \<Rightarrow> nat \<Rightarrow> nat \<Rightarrow> matrix" where
  "placeAlign mat row col =
    setModules [(nat (int row + r), nat (int col + c), if r = -2 \<or> r = 2 \<or> c = -2 \<or> c = 2 \<or> (r = 0 \<and> c = 0) then 1 else 0).
      r \<leftarrow> [-2..2], c \<leftarrow> [-2..2]] mat"

definition inFinderArea :: "nat \<Rightarrow> nat \<Rightarrow> nat \<Rightarrow> bool" where
  "inFinderArea r c n \<longleftrightarrow> (r \<le> 8 \<and> c \<le> 8) \<or> (r \<le> 8 \<and> c \<ge> n - 8) \<or> (r \<ge> n - 8 \<and> c \<le> 8)"

definition bitOf :: "nat \<Rightarrow> nat \<Rightarrow> nat" where
  "bitOf b i = drop_bit i b AND 1"

definition placeFormat :: "matrix \<Rightarrow> nat \<Rightarrow> nat \<Rightarrow> matrix" where
  "placeFormat mat k ver =
    (let b = FMTM ! k; n = length mat
     in setModules ([(8, i, bitOf b (14 - i)). i \<leftarrow> [0..<6]] @
          [(8, 7, bitOf b 8), (8, 8, bitOf b 7), (7, 8, bitOf b 6)] @
          [(i, 8, bitOf b i). i \<leftarrow> rev [0..<6]] @
          [(8, n - 1 - i, bitOf b i). i \<leftarrow> [0..<8]] @
          [(n - 7 + i, 8, bitOf b (14 - i)). i \<leftarrow> [0..<7]] @
          [(4 * ver + 9, 8, 1)]) mat)"

section \<open>Mask penalty\<close>

text \<open>One line of rule N1: the run, the previous module and the score.\<close>

definition runStep :: "nat \<Rightarrow> nat \<times> nat \<times> nat \<Rightarrow> nat \<times> nat \<times> nat" where
  "runStep x st =
    (case st of (run, prev, s) \<Rightarrow>
      if x = prev then (run + 1, prev, if run + 1 = 5 then s + 3 else if run + 1 > 5 then s + 1 else s)
      else (1, x, s))"

definition lineScore :: "nat list \<Rightarrow> nat \<Rightarrow> nat" where
  "lineScore line s = (case line of [] \<Rightarrow> s | x # xs \<Rightarrow> snd (snd (fold runStep xs (1, x, s))))"

definition penaltyScore :: "matrix \<Rightarrow> nat" where
  "penaltyScore m =
    (let n = length m;
         s1 = fold (\<lambda>r. lineScore (m ! r)) [0..<n] 0;
         s2 = fold (\<lambda>c. lineScore (map (\<lambda>r. m ! r ! c) [0..<n])) [0..<n] s1;
         s3 = fold (\<lambda>(r, c) s. if m ! r ! c = m ! (r + 1) ! c \<and> m ! r ! c = m ! r ! (c + 1) \<and> m ! r ! c = m ! (r + 1) ! (c + 1)
                then s + 3 else s) (List.product [0..<n - 1] [0..<n - 1]) s2;
         dark = fold (\<lambda>(r, c) d. d + m ! r ! c) (List.product [0..<n] [0..<n]) 0;
         dev = nat \<bar>int (dark * 20) - int (n * n * 10)\<bar> div (n * n)
     in s3 + dev * 10)"

section \<open>Data\<close>

definition capacity :: "ECInfo \<Rightarrow> nat" where
  "capacity info = sum_list (map (\<lambda>(n, d). n * d) (groups info))"

text \<open>The loop that looks for the smallest version; it stops at the last one.\<close>

function selectVersion :: "nat \<Rightarrow> nat \<Rightarrow> nat" where
  "selectVersion need ver =
    (if ver < length ECCM - 1 then
       if capacity (the (ECCM ! ver)) \<ge> need then ver else selectVersion need (ver + 1)
     else ver)"
  by auto
termination by (relation "measure (\<lambda>(need, ver). length ECCM - ver)") auto

definition bits8 :: "byte \<Rightarrow> nat list" where
  "bits8 b = map (\<lambda>i. bitOf (unat b) i) (rev [0..<8])"

function padAlign :: "nat list \<Rightarrow> nat list" where
  "padAlign bits = (if length bits mod 8 \<noteq> 0 then padAlign (bits @ [0]) else bits)"
  by auto
termination
proof (relation "measure (\<lambda>bits. (8 - length bits mod 8) mod 8)")
  fix bits :: "nat list" assume *: "length bits mod 8 \<noteq> 0"
  have "Suc n mod 8 = (if n mod 8 = 7 then 0 else Suc (n mod 8))" for n :: nat by (simp add: mod_Suc)
  then show "(bits @ [0], bits) \<in> measure (\<lambda>bits. (8 - length bits mod 8) mod 8)"
    using * by (auto simp: mod_less_divisor)
qed simp

function padCodewords :: "nat \<Rightarrow> nat \<Rightarrow> nat list \<Rightarrow> nat list" where
  "padCodewords maxBits p bits =
    (if length bits < maxBits then padCodewords maxBits (p + 1) (bits @ bits8 (if p mod 2 = 0 then 0xEC else 0x11)) else bits)"
  by auto
termination by (relation "measure (\<lambda>(maxBits, p, bits). maxBits - length bits)") (auto simp: bits8_def)

definition terminator :: "nat \<Rightarrow> nat list \<Rightarrow> nat list" where
  "terminator maxBits bits = fold (\<lambda>i bits. if length bits < maxBits then bits @ [0] else bits) [0..<4] bits"

definition encodeBits :: "byte list \<Rightarrow> nat \<Rightarrow> nat list" where
  "encodeBits bytes cap =
    (let bits = [0, 1, 0, 0] @ bits8 (of_nat (length bytes)) @ concat (map bits8 bytes)
     in padCodewords (cap * 8) 0 (padAlign (terminator (cap * 8) bits)))"

fun toBytes :: "nat list \<Rightarrow> byte list" where
  "toBytes [] = []"
| "toBytes (x # xs) = foldl (\<lambda>b v. push_bit 1 b OR of_nat v) 0 (take 8 (x # xs)) # toBytes (drop 7 xs)"

section \<open>Blocks\<close>

record block =
  blk_d :: "byte list"
  blk_e :: "byte list"

definition makeBlocks :: "byte list \<Rightarrow> ECInfo \<Rightarrow> block list" where
  "makeBlocks dataBytes info =
    fst (fold (\<lambda>(nb, nd). fold (\<lambda>b (blocks, di).
        (blocks @ [\<lparr>blk_d = take nd (drop di dataBytes), blk_e = rsEncode (take nd (drop di dataBytes)) (ec info)\<rparr>], di + nd)) [0..<nb])
      (groups info) ([], 0))"

definition interleave :: "block list \<Rightarrow> byte list" where
  "interleave blocks =
    (let maxD = Max (set (map (\<lambda>b. length (blk_d b)) blocks)); maxE = length (blk_e (hd blocks))
     in [blk_d blk ! i. i \<leftarrow> [0..<maxD], blk \<leftarrow> blocks, i < length (blk_d blk)] @
        [blk_e blk ! i. i \<leftarrow> [0..<maxE], blk \<leftarrow> blocks])"

definition finalBits :: "byte list \<Rightarrow> nat \<Rightarrow> nat list" where
  "finalBits fb ver = concat (map bits8 fb) @ replicate (REMBITS ! ver) 0"

section \<open>The function modules\<close>

definition reserve :: "(nat \<times> nat) list \<Rightarrow> matrix \<Rightarrow> matrix" where
  "reserve ps = setModules (map (\<lambda>(r, c). (r, c, 1)) ps)"

definition placeAligns :: "nat \<Rightarrow> nat \<Rightarrow> matrix \<times> matrix \<Rightarrow> matrix \<times> matrix" where
  "placeAligns ver sz st =
    fold (\<lambda>(cy, cx) (mat, res).
        if inFinderArea cy cx sz then (mat, res)
        else (placeAlign mat cy cx, reserve (List.product [cy - 2..<cy + 3] [cx - 2..<cx + 3]) res))
      (List.product (ALIGNCTR ! ver) (ALIGNCTR ! ver)) st"

definition functionModules :: "nat \<Rightarrow> matrix \<times> matrix" where
  "functionModules ver =
    (let sz = 17 + 4 * ver;
         mat1 = placeFinder (placeFinder (placeFinder (mkMat sz) 0 0) 0 (int sz - 7)) (int sz - 7) 0;
         res1 = reserve (List.product [0..<9] [0..<9] @ List.product [0..<9] [sz - 8..<sz] @ List.product [sz - 8..<sz] [0..<9]) (mkMat sz);
         mat2 = setModules (concat (map (\<lambda>i. [(6, i, if i mod 2 = 0 then 1 else 0), (i, 6, if i mod 2 = 0 then 1 else 0)]) [8..<sz - 8])) mat1;
         res2 = reserve (concat (map (\<lambda>i. [(6, i), (i, 6)]) [8..<sz - 8])) res1;
         (mat3, res3) = placeAligns ver sz (mat2, res2)
     in (setModule (4 * ver + 9) 8 1 mat3, reserve [(4 * ver + 9, 8)] res3))"

section \<open>Data modules and masks\<close>

definition placeCell :: "matrix \<Rightarrow> nat list \<Rightarrow> nat \<times> nat \<Rightarrow> matrix \<times> nat \<Rightarrow> matrix \<times> nat" where
  "placeCell res bits rc st =
    (case (rc, st) of ((r, c), (mat, bi)) \<Rightarrow>
      if res ! r ! c = 0 then (setModule r c (if bi < length bits then bits ! bi else 0) mat, bi + 1) else (mat, bi))"

text \<open>\<open>while (col > 0)\<close>: the column drops by two, past 0 after column 1.\<close>

function placeColumns :: "matrix \<Rightarrow> nat list \<Rightarrow> nat \<Rightarrow> bool \<Rightarrow> nat \<Rightarrow> matrix \<times> nat \<Rightarrow> matrix \<times> nat" where
  "placeColumns res bits sz upward col0 st =
    (if col0 > 0 then
       let col = (if col0 = 6 then col0 - 1 else col0);
           st' = fold (\<lambda>ri st. let r = (if upward then sz - 1 - ri else ri)
                   in fold (\<lambda>cd. placeCell res bits (r, col - cd)) [0..<2] st) [0..<sz] st
       in placeColumns res bits sz (\<not> upward) (col - 2) st'
     else st)"
  by auto
termination by (relation "measure (\<lambda>(res, bits, sz, upward, col, st). col)") auto

definition maskFns :: "nat \<Rightarrow> nat \<Rightarrow> nat \<Rightarrow> bool" where
  "maskFns k r c =
    ([(r + c) mod 2 = 0,
      r mod 2 = 0,
      c mod 3 = 0,
      (r + c) mod 3 = 0,
      (r div 2 + c div 3) mod 2 = 0,
      (r * c) mod 2 + (r * c) mod 3 = 0,
      ((r * c) mod 2 + (r * c) mod 3) mod 2 = 0,
      ((r + c) mod 2 + (r * c) mod 3) mod 2 = 0] ! k)"

definition masked :: "matrix \<Rightarrow> matrix \<Rightarrow> nat \<Rightarrow> matrix" where
  "masked mat res k =
    (let sz = length mat
     in map (\<lambda>r. map (\<lambda>c. if res ! r ! c \<noteq> 0 then mat ! r ! c else mat ! r ! c XOR (if maskFns k r c then 1 else 0)) [0..<sz]) [0..<sz])"

definition bestMask :: "matrix \<Rightarrow> matrix \<Rightarrow> nat" where
  "bestMask mat res =
    fst (fold (\<lambda>k (best, bestScore).
        let sc = penaltyScore (masked mat res k)
        in if (case bestScore of None \<Rightarrow> True | Some b \<Rightarrow> sc < b) then (k, Some sc) else (best, bestScore))
      [0..<8] (0, None))"

definition applyMask :: "matrix \<Rightarrow> nat \<Rightarrow> matrix \<Rightarrow> matrix" where
  "applyMask res k mat =
    fold (\<lambda>(r, c) m. if res ! r ! c = 0 \<and> maskFns k r c then setModule r c (m ! r ! c XOR 1) m else m)
      (List.product [0..<length mat] [0..<length mat]) mat"

definition drawQR :: "byte list \<Rightarrow> matrix" where
  "drawQR bytes =
    (let need = (4 + 8 + 8 * length bytes + 4 + 7) div 8;
         ver = selectVersion need 1;
         info = the (ECCM ! ver);
         sz = 17 + 4 * ver;
         (mat0, res) = functionModules ver;
         fb = interleave (makeBlocks (toBytes (encodeBits bytes (capacity info))) info);
         (mat, _) = placeColumns res (finalBits fb ver) sz True (sz - 1) (mat0, 0);
         best = bestMask mat res
     in placeFormat (applyMask res best mat) best ver)"

definition generateQR :: "string \<Rightarrow> bool list list" where
  "generateQR text = map (map (\<lambda>v. v = 1)) (drawQR (utf8 text))"

lemmas qr_loops = selectVersion.simps padAlign.simps padCodewords.simps placeColumns.simps

declare qr_loops [simp del]

end
