(* ===== verification/QRField.thy ===== *)
theory QRField
  imports QRCode
begin

text \<open>
  The arithmetic behind the error correction of QR codes. The reference multiplies bytes as
  polynomials over the field of two elements; powers of \<open>x\<close> have order 255, so the logarithm
  tables of \<^verbatim>\<open>src/mobile/utils/qrcode.ts\<close> multiply correctly, the product is associative and
  commutative, and the Reed-Solomon encoder emits codewords: multiples of its generator.
\<close>

unbundle bit_operations_syntax

section \<open>The reference field\<close>

text \<open>Multiplication of polynomials over the field of two elements modulo
  \<open>x\<^sup>8 + x\<^sup>4 + x\<^sup>3 + x\<^sup>2 + 1\<close>.\<close>

definition xtime :: "byte \<Rightarrow> byte" where
  "xtime a = push_bit 1 a XOR (if bit a 7 then 0x1d else 0)"

definition gmul :: "byte \<Rightarrow> byte \<Rightarrow> byte" where
  "gmul a b = foldr (XOR) (map (\<lambda>i. if bit b i then (xtime ^^ i) a else 0) [0..<8]) 0"

text \<open>The value of a polynomial, its coefficients from the highest to the lowest.\<close>

definition polyVal :: "byte list \<Rightarrow> byte \<Rightarrow> byte" where
  "polyVal p x = foldl (\<lambda>v c. gmul v x XOR c) 0 p"

definition isCodeword :: "byte list \<Rightarrow> nat \<Rightarrow> bool" where
  "isCodeword cw n \<longleftrightarrow> (\<forall>i < n. polyVal cw ((xtime ^^ i) 1) = 0)"

section \<open>Arithmetic of the field\<close>

lemma xtime_xor: "xtime (a XOR b) = xtime a XOR xtime b"
  by (auto simp: xtime_def push_bit_xor bit_xor_iff xor.assoc xor.commute xor.left_commute)

lemma xtime_0 [simp]: "xtime 0 = 0"
  by (simp add: xtime_def)

lemma xtimes_xor: "(xtime ^^ n) (a XOR b) = (xtime ^^ n) a XOR (xtime ^^ n) b"
  by (induction n) (simp_all add: xtime_xor)

lemma xtimes_0 [simp]: "(xtime ^^ n) 0 = 0"
  by (induction n) simp_all

lemma gmul_alt:
  "gmul a b = (if bit b 0 then a else 0) XOR (if bit b 1 then xtime a else 0) XOR (if bit b 2 then (xtime ^^ 2) a else 0) XOR
    (if bit b 3 then (xtime ^^ 3) a else 0) XOR (if bit b 4 then (xtime ^^ 4) a else 0) XOR (if bit b 5 then (xtime ^^ 5) a else 0) XOR
    (if bit b 6 then (xtime ^^ 6) a else 0) XOR (if bit b 7 then (xtime ^^ 7) a else 0)"
  by (simp add: gmul_def upt_rec numeral_eq_Suc)

lemma foldr_xor:
  "foldr (XOR) (map (\<lambda>i. f i XOR g i) xs) 0 = foldr (XOR) (map f xs) 0 XOR foldr (XOR) (map g xs) (0 :: byte)"
  by (induction xs) (simp_all add: xor.assoc xor.commute xor.left_commute)

lemma gmul_xor_left: "gmul (a XOR a') b = gmul a b XOR gmul a' b"
  unfolding gmul_def foldr_xor [symmetric] by (rule arg_cong [where f = "\<lambda>l. foldr (XOR) l 0"]) (simp add: xtimes_xor)

lemma gmul_xor_right: "gmul a (b XOR b') = gmul a b XOR gmul a b'"
  unfolding gmul_def foldr_xor [symmetric] by (rule arg_cong [where f = "\<lambda>l. foldr (XOR) l 0"]) (simp add: bit_xor_iff)

lemma gmul_0 [simp]: "gmul a 0 = 0" "gmul 0 b = 0"
  by (simp_all add: gmul_alt)

lemma gmul_1 [simp]: "gmul a 1 = a"
  by (simp add: gmul_alt bit_1_iff)

text \<open>Linear functions agree if they agree on the eight single bits.\<close>

lemma foldr_xor_start: "foldr (XOR) xs s = foldr (XOR) xs 0 XOR (s :: byte)"
  by (induction xs) (simp_all add: xor.assoc)

lemma byte_bits: "(a :: byte) = foldr (XOR) (map (\<lambda>i. if bit a i then push_bit i 1 else 0) [0..<8]) 0"
proof (rule bit_word_eqI)
  let ?f = "\<lambda>i. if bit a i then push_bit i 1 else (0 :: byte)"
  have "k \<le> 8 \<Longrightarrow> bit (foldr (XOR) (map ?f [0..<k]) 0) n \<longleftrightarrow> n < k \<and> bit a n" for k n
  proof (induction k)
    case (Suc k)
    have "bit (?f k) n \<longleftrightarrow> n = k \<and> bit a n" using Suc.prems by (auto simp: bit_push_bit_iff bit_1_iff bit_exp_iff)
    then show ?case using Suc by (auto simp: foldr_xor_start [of _ "?f k"] bit_xor_iff)
  qed simp
  from this [of 8] show "bit a n \<longleftrightarrow> bit (foldr (XOR) (map ?f [0..<8]) 0) n" if "n < LENGTH(8)" for n using that by simp
qed

lemma linear_foldr:
  assumes "\<And>a b. f (a XOR b) = f a XOR f b" "f 0 = (0 :: byte)"
  shows "f (foldr (XOR) xs 0) = foldr (XOR) (map f xs) (0 :: byte)"
  by (induction xs) (simp_all add: assms)

lemma linear_ext:
  assumes "\<And>a b. f (a XOR b) = f a XOR f b" "f 0 = (0 :: byte)" "\<And>a b. g (a XOR b) = g a XOR g b" "g 0 = (0 :: byte)"
    and "list_all (\<lambda>i. f (push_bit i 1) = g (push_bit i 1)) [0..<8]"
  shows "f a = g (a :: byte)"
proof -
  have "map f (map (\<lambda>i. if bit a i then push_bit i 1 else 0) [0..<8]) = map g (map (\<lambda>i. if bit a i then push_bit i 1 else 0) [0..<8])"
    using assms(2,4,5) by (auto simp: list_all_iff)
  then show ?thesis
    by (subst (1 2) byte_bits) (simp only: linear_foldr [OF assms(1,2)] linear_foldr [OF assms(3,4)])
qed

lemma xtime_8: "(xtime ^^ 8) a = gmul a 0x1d"
  by (rule linear_ext [where g = "\<lambda>a. gmul a 0x1d"]) (simp_all add: xtimes_xor gmul_xor_left, code_simp)

lemma bit_twice: "bit (b * 2 :: byte) n \<longleftrightarrow> 0 < n \<and> n < 8 \<and> bit b (n - 1)"
  by (auto simp: mult.commute [of b] bit_double_iff)

lemma xor_snoc: "foldr (XOR) (map f [0..<Suc k]) 0 = foldr (XOR) (map f [0..<k]) 0 XOR (f k :: byte)"
  using foldr_xor_start [of "map f [0..<k]" "f k"] by simp

lemma gmul_xtime: "gmul a (xtime b) = xtime (gmul a b)"
proof -
  let ?g = "\<lambda>b i. if bit b i then (xtime ^^ i) a else 0"
  have shift: "k \<le> 7 \<Longrightarrow> foldr (XOR) (map (?g (push_bit 1 b)) [0..<Suc k]) 0 = xtime (foldr (XOR) (map (?g b) [0..<k]) 0)" for k
  proof (induction k)
    case 0
    show ?case by (simp add: bit_twice)
  next
    case (Suc k)
    have "?g (push_bit 1 b) (Suc k) = xtime (?g b k)" using Suc.prems by (simp add: bit_twice)
    then show ?case using Suc.IH Suc.prems unfolding xor_snoc [of _ "Suc k"] xor_snoc [of "?g b" k] xtime_xor by simp
  qed
  have g: "gmul a c = foldr (XOR) (map (?g c) [0..<Suc 7]) 0" for c by (simp add: gmul_def)
  have "gmul a (push_bit 1 b) = xtime (foldr (XOR) (map (?g b) [0..<7]) 0)" using g shift [of 7] by simp
  moreover have "gmul a b = foldr (XOR) (map (?g b) [0..<7]) 0 XOR ?g b 7" using g xor_snoc [of "?g b" 7] by simp
  ultimately have "xtime (gmul a b) = gmul a (push_bit 1 b) XOR xtime (?g b 7)" by (simp only: xtime_xor)
  also have "xtime (?g b 7) = (if bit b 7 then gmul a 0x1d else 0)"
  proof -
    have "xtime ((xtime ^^ 7) a) = (xtime ^^ Suc 7) a" by (simp only: funpow.simps comp_apply)
    then show ?thesis using xtime_8 [of a] by simp
  qed
  finally show ?thesis by (auto simp: xtime_def [of b] gmul_xor_right)
qed

abbreviation pw :: "nat \<Rightarrow> byte" where
  "pw i \<equiv> (xtime ^^ i) 1"

lemma gmul_pw: "gmul a (pw n) = (xtime ^^ n) a"
  by (induction n) (simp_all add: gmul_xtime)

lemma pw_add: "pw (m + n) = gmul (pw m) (pw n)"
  using fun_cong [OF funpow_add [of n m xtime], of 1] by (simp add: gmul_pw add.commute [of m])

lemma xtime_zero: "xtime a = 0 \<Longrightarrow> a = 0"
proof (rule bit_word_eqI)
  fix n assume x: "xtime a = 0" and n: "n < LENGTH(8)"
  have b: "\<not> bit (xtime a) m" for m using x by simp
  have top: "\<not> bit a 7" using b [of 0] by (auto simp: xtime_def bit_xor_iff bit_push_bit_iff bit_twice split: if_splits)
  have "\<not> bit a n" if "n < 7" using b [of "Suc n"] top that by (simp add: xtime_def bit_push_bit_iff bit_twice)
  then show "bit a n \<longleftrightarrow> bit (0 :: byte) n" using top n by (cases "n = 7") auto
qed

lemma xtime_inj: "xtime a = xtime b \<Longrightarrow> a = b"
proof -
  assume "xtime a = xtime b"
  then have "xtime (a XOR b) = 0" by (simp add: xtime_xor)
  then have z: "a XOR b = 0" by (rule xtime_zero)
  have "a = (a XOR b) XOR b" by (simp add: xor.assoc)
  then show "a = b" unfolding z by simp
qed

lemma xtimes_inj: "(xtime ^^ n) a = (xtime ^^ n) b \<Longrightarrow> a = b"
  by (induction n) (auto dest: xtime_inj)

lemma pw_nonzero: "pw n \<noteq> 0"
  using xtimes_inj [of n 1 0] by auto

lemma pw_mult:
  assumes "pw d = 1"
  shows "pw (d * n) = 1"
proof (induction n)
  case (Suc n)
  then show ?case using pw_add [of d "d * n"] assms by simp
qed simp

lemma pw_orders: "pw 15 \<noteq> 1" "pw 51 \<noteq> 1" "pw 85 \<noteq> 1" "pw 255 = 1"
proof -
  have add: "pw m = a \<Longrightarrow> pw n = b \<Longrightarrow> k = m + n \<Longrightarrow> gmul a b = c \<Longrightarrow> pw k = c" for m n k a b c
    using pw_add [of m n] by blast
  have p1: "pw 1 = 2" by (simp add: xtime_def)
  have p2: "pw 2 = 4" by (rule add [OF p1 p1]) (simp_all add: gmul_def xtime_def upt_rec)
  have p3: "pw 3 = 8" by (rule add [OF p2 p1]) (simp_all add: gmul_def xtime_def upt_rec)
  have p4: "pw 4 = 16" by (rule add [OF p2 p2]) (simp_all add: gmul_def xtime_def upt_rec)
  have p5: "pw 5 = 32" by (rule add [OF p4 p1]) (simp_all add: gmul_def xtime_def upt_rec)
  have p8: "pw 8 = 29" by (rule add [OF p4 p4]) (simp_all add: gmul_def xtime_def upt_rec)
  have p12: "pw 12 = 205" by (rule add [OF p8 p4]) (simp_all add: gmul_def xtime_def upt_rec)
  have p15: "pw 15 = 38" by (rule add [OF p12 p3]) (simp_all add: gmul_def xtime_def upt_rec)
  have p16: "pw 16 = 76" by (rule add [OF p8 p8]) (simp_all add: gmul_def xtime_def upt_rec)
  have p32: "pw 32 = 157" by (rule add [OF p16 p16]) (simp_all add: gmul_def xtime_def upt_rec)
  have p48: "pw 48 = 70" by (rule add [OF p32 p16]) (simp_all add: gmul_def xtime_def upt_rec)
  have p51: "pw 51 = 10" by (rule add [OF p48 p3]) (simp_all add: gmul_def xtime_def upt_rec)
  have p64: "pw 64 = 95" by (rule add [OF p32 p32]) (simp_all add: gmul_def xtime_def upt_rec)
  have p80: "pw 80 = 253" by (rule add [OF p64 p16]) (simp_all add: gmul_def xtime_def upt_rec)
  have p85: "pw 85 = 214" by (rule add [OF p80 p5]) (simp_all add: gmul_def xtime_def upt_rec)
  have p170: "pw 170 = 215" by (rule add [OF p85 p85]) (simp_all add: gmul_def xtime_def upt_rec)
  have p255: "pw 255 = 1" by (rule add [OF p170 p85]) (simp_all add: gmul_def xtime_def upt_rec)
  show "pw 15 \<noteq> 1" "pw 51 \<noteq> 1" "pw 85 \<noteq> 1" "pw 255 = 1" using p15 p51 p85 p255 by simp_all
qed

lemma pw_order:
  assumes "pw d = 1" "0 < d" "d < 255"
  shows False
proof -
  obtain x y where "d * x = 255 * y + gcd d 255" using bezout_nat [of d 255] assms(2) by auto
  then have "pw (gcd d 255) = 1" using pw_mult [OF assms(1), of x] pw_mult [OF pw_orders(4), of y] by (simp add: pw_add gmul_pw)
  moreover have "gcd d 255 dvd 15 \<or> gcd d 255 dvd 51 \<or> gcd d 255 dvd 85"
  proof -
    have all: "list_all (\<lambda>g. (255 :: nat) mod g \<noteq> 0 \<or> 15 mod g = 0 \<or> 51 mod g = 0 \<or> 85 mod g = 0) [1..<255]"
      by code_simp
    have "0 < gcd d 255" "gcd d 255 \<le> d" using assms(2) by (simp_all add: gcd_le1_nat)
    then have g: "gcd d 255 \<in> set [1..<255]" using assms(3) unfolding set_upt atLeastLessThan_iff by linarith
    have "255 mod gcd d 255 = 0" by (simp only: dvd_eq_mod_eq_0 [symmetric] gcd_dvd2)
    with bspec [OF all [unfolded list_all_iff] g] have "15 mod gcd d 255 = 0 \<or> 51 mod gcd d 255 = 0 \<or> 85 mod gcd d 255 = 0" by simp
    then show ?thesis by (simp only: dvd_eq_mod_eq_0)
  qed
  ultimately show False using pw_mult [of "gcd d 255"] pw_orders by (auto elim!: dvdE)
qed

lemma pw_inj: "i < 255 \<Longrightarrow> j < 255 \<Longrightarrow> pw i = pw j \<Longrightarrow> i = j"
proof (induction i j rule: linorder_wlog)
  case (le i j)
  then have "(xtime ^^ i) (pw (j - i)) = (xtime ^^ i) 1" by (simp flip: funpow_add [THEN fun_cong, unfolded comp_def])
  then have "pw (j - i) = 1" by (rule xtimes_inj)
  moreover have "j - i < 255" using le by simp
  ultimately show ?case using pw_order [of "j - i"] le by (cases "i = j") auto
qed simp

lemma pw_surj:
  assumes "a \<noteq> 0"
  shows "\<exists>i < 255. a = pw i"
proof -
  have "inj_on pw {..<255}" by (intro inj_onI pw_inj) simp_all
  then have c: "card (pw ` {..<255}) = 255" by (simp only: card_image card_lessThan)
  have "card (UNIV - {0 :: byte}) = card (UNIV :: byte set) - 1" by (rule card_Diff_singleton) simp
  also have "\<dots> = 255" by (simp only: card_word) simp
  finally have d: "card (UNIV - {0 :: byte}) = 255" .
  have "pw ` {..<255} = UNIV - {0}"
    by (rule card_subset_eq) (use pw_nonzero c d in \<open>auto simp only: image_iff UNIV_I Diff_iff singleton_iff finite_Diff finite\<close>)
  then show ?thesis using assms by blast
qed


lemma gmul_commute: "gmul a b = gmul b a"
proof (cases "a = 0 \<or> b = 0")
  case False
  then obtain i j where "a = pw i" "b = pw j" using pw_surj by metis
  then show ?thesis using pw_add [of i j] pw_add [of j i] by (simp add: add.commute)
qed auto

lemma gmul_assoc: "gmul (gmul a b) c = gmul a (gmul b c)"
proof (cases "c = 0")
  case False
  then obtain k where c: "c = pw k" using pw_surj by blast
  have "gmul a ((xtime ^^ k) b) = (xtime ^^ k) (gmul a b)" by (induction k) (simp_all add: gmul_xtime)
  then show ?thesis unfolding c by (simp add: gmul_pw)
qed simp

section \<open>The tables\<close>

lemma xtime_loop:
  "(let x1 = push_bit 1 (ucast a :: 32 word) in (if x1 AND 0x100 \<noteq> 0 then x1 XOR 0x11d else x1) AND 0xff) = ucast (xtime a)"
proof -
  have m: "(0xff :: 32 word) = Bit_Operations.mask 8" "(0x100 :: 32 word) = 2 ^ 8" by (simp_all add: mask_eq_exp_minus_1)
  have b: "push_bit 1 (ucast a :: 32 word) AND 0x100 \<noteq> 0 \<longleftrightarrow> bit a 7"
  proof -
    have "(push_bit 1 (ucast a :: 32 word) AND 0x100 \<noteq> 0) = bit (push_bit 1 (ucast a :: 32 word)) 8"
      unfolding m(2) by (simp only: and_exp_eq_0_iff_not_bit not_not)
    then show ?thesis by (simp only: bit_push_bit_iff) (simp add: bit_ucast_iff)
  qed
  have twice: "bit (ucast a * 2 :: 32 word) n \<longleftrightarrow> n < 32 \<and> 0 < n \<and> bit a (n - 1)" "bit (a * 2) n \<longleftrightarrow> n < 8 \<and> 0 < n \<and> bit a (n - 1)" for n
    unfolding mult.commute [of _ "2 :: 32 word"] mult.commute [of _ "2 :: byte"] by (auto simp: bit_double_iff bit_ucast_iff)
  show ?thesis unfolding Let_def m(1)
  proof (rule bit_word_eqI, simp only: b)
    fix n :: nat
    have "n \<ge> 8 \<or> n \<in> {0, 1, 2, 3, 4, 5, 6, 7}" by auto
    then show "bit ((if bit a 7 then push_bit 1 (ucast a) XOR 285 else push_bit 1 (ucast a)) AND Bit_Operations.mask 8 :: 32 word) n = bit (ucast (xtime a) :: 32 word) n"
      by (elim disjE insertE emptyE; cases "bit a 7"; simp add: xtime_def bit_and_iff bit_xor_iff bit_mask_iff bit_ucast_iff twice)
  qed
qed

lemma gfStep_pw: "gfStep i (e, l, ucast a) = (e[i := a], l[unat a := of_nat i], ucast (xtime a))"
proof -
  have "unat a < 2 ^ 8" using unsigned_less [of a] by simp
  then have u: "unat (ucast a :: 32 word) = unat a" by (simp add: unsigned_ucast_eq take_bit_nat_eq_self)
  have "(ucast (ucast a :: 32 word) :: byte) = a" by (rule bit_word_eqI) (simp add: bit_ucast_iff)
  then show ?thesis using xtime_loop [of a] u by (simp add: gfStep_def Let_def)
qed

lemma gf_loop:
  "k \<le> 255 \<Longrightarrow> fold gfStep [0..<k] (replicate 512 0, replicate 256 0, 1) =
    (map pw [0..<k] @ replicate (512 - k) 0, fold (\<lambda>i l. l[unat (pw i) := of_nat i]) [0..<k] (replicate 256 0), ucast (pw k))"
proof (induction k)
  case (Suc k)
  have "(map pw [0..<k] @ replicate (512 - k) 0)[k := pw k] = map pw [0..<Suc k] @ replicate (512 - Suc k) 0"
    using Suc.prems by (simp add: list_update_append Suc_diff_le replicate_Suc [symmetric] del: replicate_Suc) (cases "512 - k"; simp)
  then show ?case using Suc by (simp add: gfStep_pw)
qed simp


lemma fold_update_other: "\<forall>j \<in> set js. f j \<noteq> i \<Longrightarrow> fold (\<lambda>j l. l[f j := g j l]) js l ! i = l ! i"
  by (induction js arbitrary: l) auto

lemma GF_EXP_pw: "i < 255 \<Longrightarrow> GF_EXP ! i = pw i"
proof -
  assume i: "i < 255"
  have "GF_EXP ! i = (map pw [0..<255] @ replicate 257 0) ! i"
    using i gf_loop [of 255] fold_update_other [of "[255..<512]" "\<lambda>j. j" i "\<lambda>j l. l ! (j - 255)"]
    by (simp add: GF_EXP_def gfTables_def del: upt_rec_numeral)
  then show "GF_EXP ! i = pw i" using i by (simp add: nth_append)
qed

lemma GF_LOG_pw: "i < 255 \<Longrightarrow> GF_LOG ! unat (pw i) = of_nat i"
proof -
  have "i < k \<Longrightarrow> k \<le> 255 \<Longrightarrow> fold (\<lambda>i l. l[unat (pw i) := of_nat i]) [0..<k] (replicate 256 (0 :: byte)) ! unat (pw i) = of_nat i" for k
  proof (induction k)
    case (Suc k)
    have len: "length (fold (\<lambda>i l. l[unat (pw i) := of_nat i]) xs l) = length l" for xs :: "nat list" and l :: "byte list"
      by (induction xs arbitrary: l) simp_all
    have "unat (pw i) < 256" using unsigned_less [of "pw i"] by simp
    moreover have "unat (pw i) \<noteq> unat (pw k)" if "i \<noteq> k" using pw_inj [of i k] that Suc.prems by (auto simp: word_unat_eq_iff)
    ultimately show ?case using Suc by (cases "i = k") (simp_all add: len)
  qed simp
  then show "i < 255 \<Longrightarrow> GF_LOG ! unat (pw i) = of_nat i" using gf_loop [of 255] by (simp add: GF_LOG_def gfTables_def del: upt_rec_numeral)
qed

text \<open>The tables multiply.\<close>

lemma gfMul_gmul: "gfMul a b = gmul a b"
proof (cases "a = 0 \<or> b = 0")
  case False
  then obtain i j where ij: "a = pw i" "b = pw j" "i < 255" "j < 255" using pw_surj by metis
  have "pw (255 * n + m) = pw m" for n m using pw_mult [OF pw_orders(4), of n] by (simp add: pw_add gmul_commute [of 1])
  from this [of "(i + j) div 255" "(i + j) mod 255"] have "pw ((i + j) mod 255) = pw (i + j)" by simp
  moreover have "unat (of_nat i :: byte) = i" "unat (of_nat j :: byte) = j" using ij(3,4) by (simp_all add: unsigned_of_nat take_bit_nat_eq_self)
  ultimately show ?thesis using False ij by (simp add: gfMul_def GF_LOG_pw GF_EXP_pw pw_add)
qed (auto simp: gfMul_def)

section \<open>Polynomials\<close>

lemma polyVal_Nil [simp]: "polyVal [] x = 0"
  by (simp add: polyVal_def)

lemma polyVal_snoc [simp]: "polyVal (p @ [c]) x = gmul (polyVal p x) x XOR c"
  by (simp add: polyVal_def)

lemma polyVal_from: "foldl (\<lambda>v c. gmul v x XOR c) a p = gmul a (foldl (\<lambda>v c. gmul v x) 1 p) XOR polyVal p x"
  by (induction p rule: rev_induct) (simp_all add: gmul_xor_left gmul_assoc xor.assoc)

lemma polyVal_zero [simp]: "polyVal (0 # p) x = polyVal p x"
  by (simp add: polyVal_def)

lemma polyVal_zeros [simp]: "polyVal (replicate n 0 @ p) x = polyVal p x"
  by (induction n) simp_all

lemma polyVal_xor:
  "length p = length q \<Longrightarrow> polyVal (map2 (XOR) p q) x = polyVal p x XOR polyVal q x"
proof (induction p q rule: rev_induct2)
  case (4 c p d q)
  then show ?case by (simp add: gmul_xor_left xor.assoc xor.commute xor.left_commute)
qed simp_all

lemma polyVal_scale: "polyVal (map (\<lambda>c. gmul c k) p) x = gmul (polyVal p x) k"
  by (induction p rule: rev_induct) (simp_all add: gmul_xor_left gmul_assoc gmul_commute [of k])

section \<open>The generator\<close>

lemma rsGenStep_loop:
  fixes p :: "byte list"
  assumes "k \<le> length p"
  shows "fold (\<lambda>j r. let r1 = r[j := r ! j XOR p ! j] in r1[j + 1 := r1 ! (j + 1) XOR gfMul (p ! j) e]) [0..<k] (replicate (length p + 1) 0) =
    map (\<lambda>n. (if n < k then p ! n else 0) XOR (if 0 < n \<and> n \<le> k then gmul (p ! (n - 1)) e else 0)) [0..<length p + 1]" (is "?L k = ?R k")
  using assms
proof (induction k)
  case 0
  then show ?case by (intro nth_equalityI) (auto simp: nth_append nth_Cons' simp del: upt_Suc)
next
  case (Suc k)
  let ?u = "\<lambda>r. let r1 = r[k := r ! k XOR p ! k] in r1[k + 1 := r1 ! (k + 1) XOR gfMul (p ! k) e]"
  have "?L (Suc k) = ?u (?R k)" using Suc by simp
  also have "\<dots> = ?R (Suc k)"
    using Suc.prems by (intro nth_equalityI)
      (auto simp: gfMul_gmul nth_list_update Let_def less_Suc_eq le_Suc_eq xor.commute simp del: upt_Suc)
  finally show ?case .
qed

lemma rsGenStep_eq: "i < 255 \<Longrightarrow> rsGenStep i p = map2 (XOR) (p @ [0]) (0 # map (\<lambda>c. gmul c (pw i)) p)"
  unfolding rsGenStep_def rsGenStep_loop [OF order.refl]
  by (intro nth_equalityI) (auto simp: GF_EXP_pw nth_append nth_Cons' less_Suc_eq simp del: upt_Suc)

lemma polyVal_genStep: "i < 255 \<Longrightarrow> polyVal (rsGenStep i p) x = gmul (polyVal p x) (x XOR pw i)"
  by (simp add: rsGenStep_eq polyVal_xor polyVal_scale gmul_xor_right)

lemma rsGenPoly_Suc: "rsGenPoly (Suc n) = rsGenStep n (rsGenPoly n)"
  by (simp add: rsGenPoly_def)

lemma rsGenPoly_shape: "n \<le> 255 \<Longrightarrow> length (rsGenPoly n) = Suc n \<and> rsGenPoly n ! 0 = 1"
proof (induction n)
  case 0
  then show ?case by (simp add: rsGenPoly_def)
next
  case (Suc n)
  then have "rsGenPoly n \<noteq> []" by auto
  then show ?case using Suc by (simp add: rsGenPoly_Suc rsGenStep_eq nth_append)
qed

lemma rsGenPoly_roots: "i < n \<Longrightarrow> n \<le> 255 \<Longrightarrow> polyVal (rsGenPoly n) (pw i) = 0"
proof (induction n)
  case (Suc n)
  then show ?case by (cases "i = n") (simp_all add: rsGenPoly_Suc polyVal_genStep)
qed simp

section \<open>The encoder\<close>

lemma rsReduce_loop:
  assumes "i + length gen \<le> length r" "k < length gen"
  shows "fold (\<lambda>j r. r[i + j := r ! (i + j) XOR gfMul (gen ! j) c]) [1..<Suc k] r =
    map (\<lambda>n. r ! n XOR (if i < n \<and> n \<le> i + k then gmul (gen ! (n - i)) c else 0)) [0..<length r]"
  using assms(2)
proof (induction k)
  case 0
  then show ?case by (intro nth_equalityI) auto
next
  case (Suc k)
  have "fold (\<lambda>j r. r[i + j := r ! (i + j) XOR gfMul (gen ! j) c]) [1..<Suc (Suc k)] r =
    (let s = fold (\<lambda>j r. r[i + j := r ! (i + j) XOR gfMul (gen ! j) c]) [1..<Suc k] r in s[i + Suc k := s ! (i + Suc k) XOR gfMul (gen ! Suc k) c])"
    by (simp add: Let_def)
  also have "\<dots> = map (\<lambda>n. r ! n XOR (if i < n \<and> n \<le> i + Suc k then gmul (gen ! (n - i)) c else 0)) [0..<length r]"
    using Suc assms(1) by (intro nth_equalityI) (auto simp: gfMul_gmul nth_list_update Let_def)
  finally show ?case .
qed

lemma rsReduce_eq:
  assumes "i + length gen \<le> length r" "gen \<noteq> []"
  shows "rsReduce gen i r = map (\<lambda>n. r ! n XOR (if i < n \<and> n < i + length gen then gmul (gen ! (n - i)) (r ! i) else 0)) [0..<length r]"
proof (cases "r ! i = 0")
  case True
  then show ?thesis by (simp add: rsReduce_def map_nth cong: if_cong)
next
  case False
  obtain k where k: "length gen = Suc k" using assms(2) by (cases gen) auto
  then show ?thesis using False rsReduce_loop [OF assms(1), of k "r ! i"] by (simp add: rsReduce_def less_Suc_eq_le)
qed

text \<open>One step of the division clears a coefficient and keeps the values at the roots.\<close>

lemma rsReduce_value:
  assumes "i + length gen \<le> length r" "gen \<noteq> []" "gen ! 0 = 1" "polyVal gen x = 0"
  shows "polyVal (drop (Suc i) (rsReduce gen i r)) x = polyVal (drop i r) x"
proof -
  let ?g = "map (\<lambda>c. gmul c (r ! i)) gen @ replicate (length r - i - length gen) 0"
  have g: "polyVal ?g x = 0"
  proof -
    have "polyVal (p @ replicate n 0) x = gmul (polyVal p x) (foldl (\<lambda>v c. gmul v x) 1 (replicate n (0 :: byte)))" for p n
      using polyVal_from [of x "polyVal p x" "replicate n 0"] polyVal_zeros [of n "[]" x] by (simp add: polyVal_def)
    then show ?thesis using assms(4) by (simp add: polyVal_scale)
  qed
  have "i < length r" using assms(1,2) by (cases gen) auto
  then have "0 # drop (Suc i) (rsReduce gen i r) = map2 (XOR) (drop i r) ?g"
    using assms(1-3) by (intro nth_equalityI) (auto simp: rsReduce_eq nth_Cons' nth_append gmul_commute [of 1])
  then have "polyVal (0 # drop (Suc i) (rsReduce gen i r)) x = polyVal (drop i r) x XOR polyVal ?g x"
    using polyVal_xor [of "drop i r" ?g x] assms(1) by simp
  then show ?thesis unfolding g by simp
qed


lemma length_rsReduce: "i + length gen \<le> length r \<Longrightarrow> gen \<noteq> [] \<Longrightarrow> length (rsReduce gen i r) = length r"
  by (simp add: rsReduce_eq)

lemma rsEncode_loop:
  assumes "gen \<noteq> []" "gen ! 0 = 1" "polyVal gen x = 0" "k + length gen \<le> Suc (length r)"
  shows "length (fold (rsReduce gen) [0..<k] r) = length r \<and> polyVal (drop k (fold (rsReduce gen) [0..<k] r)) x = polyVal r x"
  using assms(4)
proof (induction k)
  case (Suc k)
  then have "k + length gen \<le> length (fold (rsReduce gen) [0..<k] r)" by simp
  then show ?case using Suc rsReduce_value [OF _ assms(1-3)] length_rsReduce [OF _ assms(1)] by simp
qed simp

lemma rsEncode_length: "n \<le> 255 \<Longrightarrow> length (rsEncode data n) = n"
proof -
  assume n: "n \<le> 255"
  have gen: "rsGenPoly n \<noteq> []" "length (rsGenPoly n) = Suc n" using rsGenPoly_shape [OF n] by auto
  have "k \<le> length data \<Longrightarrow> length (fold (rsReduce (rsGenPoly n)) [0..<k] (data @ replicate n 0)) = length data + n" for k
    by (induction k) (simp_all add: length_rsReduce gen)
  then show "length (rsEncode data n) = n" by (simp add: rsEncode_def Let_def)
qed

lemma rsEncode_codeword:
  assumes "n \<le> 255"
  shows "isCodeword (data @ rsEncode data n) n"
  unfolding isCodeword_def
proof (intro allI impI)
  fix i assume i: "i < n"
  let ?x = "pw i"
  have gen: "rsGenPoly n \<noteq> []" "rsGenPoly n ! 0 = 1" "length (rsGenPoly n) = Suc n" using rsGenPoly_shape [OF assms] by auto
  have "polyVal (rsEncode data n) ?x = polyVal (data @ replicate n 0) ?x"
    using rsEncode_loop [OF gen(1,2) rsGenPoly_roots [OF i assms], of "length data" "data @ replicate n 0"] gen(3)
    by (simp add: rsEncode_def Let_def)
  moreover have "data @ rsEncode data n = map2 (XOR) (data @ replicate n 0) (replicate (length data) 0 @ rsEncode data n)"
    by (intro nth_equalityI) (auto simp: rsEncode_length [OF assms] nth_append)
  ultimately show "polyVal (data @ rsEncode data n) ?x = 0"
    using polyVal_xor [of "data @ replicate n 0" "replicate (length data) 0 @ rsEncode data n" ?x] by (simp add: rsEncode_length [OF assms])
qed

section \<open>Properties\<close>

text \<open>C32. The logarithm tables compute the field: for all bytes, \<open>gfMul\<close> is multiplication of
  polynomials over the field of two elements modulo \<open>x\<^sup>8 + x\<^sup>4 + x\<^sup>3 + x\<^sup>2 + 1\<close>.\<close>

theorem gfMul_correct: "gfMul a b = gmul a b"
  by (rule gfMul_gmul)

text \<open>C31. The Reed-Solomon encoder appends \<open>n\<close> bytes that make the data a codeword: the polynomial of
  data and check bytes vanishes at the first \<open>n\<close> powers of \<open>x\<close>.\<close>

theorem rsEncode_correct:
  assumes "n \<le> 255"
  shows "length (rsEncode data n) = n \<and> isCodeword (data @ rsEncode data n) n"
  using rsEncode_length [OF assms] rsEncode_codeword [OF assms] by blast

theorem rsEncode_correct_witness: "length (rsEncode [0x40, 0xd2] 10) = 10 \<and> isCodeword ([0x40, 0xd2] @ rsEncode [0x40, 0xd2] 10) 10"
  by (rule rsEncode_correct) simp

end
