(* ===== verification/QRScan.thy ===== *)
theory QRScan
  imports QRField
begin

text \<open>
  QR codes read back. The reference reader follows ISO/IEC 18004: it reads the mask from the
  format information, collects the data modules in the zigzag order without the function
  modules, undoes the mask, sorts the bytes into blocks, checks the error correction and parses the
  payload. The lemmas follow the generator of \<^verbatim>\<open>src/mobile/utils/qrcode.ts\<close> step by step; the main
  property says that every symbol of version 1 to 6 reads back as the text.
\<close>

unbundle bit_operations_syntax

section \<open>The reader\<close>

definition formatCode :: "nat \<Rightarrow> nat" where
  "formatCode d = (let rem = fold (\<lambda>i v. if bit v i then v XOR push_bit (i - 10) 0x537 else v) (rev [10..<15]) (push_bit 10 d)
    in (push_bit 10 d OR rem) XOR 0x5412)"

definition valOf :: "nat list \<Rightarrow> nat" where
  "valOf bs = foldl (\<lambda>a b. 2 * a + b) 0 bs"

definition moduleAt :: "bool list list \<Rightarrow> nat \<times> nat \<Rightarrow> nat" where
  "moduleAt m rc = (if m ! fst rc ! snd rc then 1 else 0)"

definition formatCells :: "(nat \<times> nat) list" where
  "formatCells = map (\<lambda>c. (8, c)) [0, 1, 2, 3, 4, 5, 7, 8] @ map (\<lambda>r. (r, 8)) [7, 5, 4, 3, 2, 1, 0]"

definition readFormat :: "bool list list \<Rightarrow> nat option" where
  "readFormat m = find (\<lambda>k. formatCode k = valOf (map (moduleAt m) formatCells)) [0..<8]"

definition centres :: "nat \<Rightarrow> nat list" where
  "centres ver = (if ver = 1 then [] else if ver = 7 then [6, 22, 38] else [6, 4 * ver + 10])"

definition isFunction :: "nat \<Rightarrow> nat \<times> nat \<Rightarrow> bool" where
  "isFunction ver rc =
    (let n = 17 + 4 * ver; (r, c) = rc; far = 4 * ver + 10
     in r \<le> 8 \<and> c \<le> 8 \<or> r \<le> 8 \<and> n \<le> c + 8 \<or> n \<le> r + 8 \<and> c \<le> 8 \<or> r = 6 \<or> c = 6 \<or>
        (\<exists>cy \<in> set (centres ver). \<exists>cx \<in> set (centres ver). (cy, cx) \<notin> {(6, 6), (6, far), (far, 6)} \<and>
           cy \<le> r + 2 \<and> r \<le> cy + 2 \<and> cx \<le> c + 2 \<and> c \<le> cx + 2) \<or>
        7 \<le> ver \<and> (r < 6 \<and> n \<le> c + 11 \<or> c < 6 \<and> n \<le> r + 11))"

definition zigzag :: "nat \<Rightarrow> (nat \<times> nat) list" where
  "zigzag n = concat (map (\<lambda>k.
     let right = (if n - 1 - 2 * k \<le> 6 then n - 2 - 2 * k else n - 1 - 2 * k);
         rows = (if even k then rev [0..<n] else [0..<n])
     in concat (map (\<lambda>r. [(r, right), (r, right - 1)]) rows)) [0..<(n - 1) div 2])"

definition dataModules :: "nat \<Rightarrow> (nat \<times> nat) list" where
  "dataModules ver = filter (\<lambda>rc. \<not> isFunction ver rc) (zigzag (17 + 4 * ver))"

definition readData :: "bool list list \<Rightarrow> nat \<Rightarrow> nat \<Rightarrow> nat list" where
  "readData m ver k = map (\<lambda>rc. (moduleAt m rc + (if maskFns k (fst rc) (snd rc) then 1 else 0)) mod 2) (dataModules ver)"

definition readBlock :: "byte list \<Rightarrow> nat \<Rightarrow> nat \<Rightarrow> nat \<Rightarrow> nat \<Rightarrow> byte list" where
  "readBlock cw nb nd ne j = map (\<lambda>i. cw ! (i * nb + j)) [0..<nd + ne]"

definition byteAt :: "nat list \<Rightarrow> nat \<Rightarrow> byte" where
  "byteAt bits i = of_nat (valOf (take 8 (drop i bits)))"

definition readPayload :: "byte list \<Rightarrow> byte list option" where
  "readPayload data =
    (let bits = concat (map bits8 data)
     in if take 4 bits = [0, 1, 0, 0] then Some (map (\<lambda>i. byteAt bits (12 + 8 * i)) [0..<unat (byteAt bits 4)]) else None)"

definition scanQR :: "bool list list \<Rightarrow> byte list option" where
  "scanQR m =
    (let ver = (length m - 17) div 4; info = the (ECCM ! ver); (nb, nd) = hd (groups info); ne = ec info
     in case readFormat m of
          None \<Rightarrow> None
        | Some k \<Rightarrow>
            (let bits = readData m ver k;
                 cw = map (\<lambda>i. byteAt bits (8 * i)) [0..<nb * (nd + ne)];
                 blocks = map (readBlock cw nb nd ne) [0..<nb]
             in if list_all (\<lambda>b. isCodeword b ne) blocks then readPayload (concat (map (take nd) blocks)) else None))"


section \<open>Bits and bytes\<close>

definition areBits :: "nat list \<Rightarrow> bool" where
  "areBits bs \<longleftrightarrow> set bs \<subseteq> {0, 1}"

lemma areBits_simps [simp]:
  "areBits []" "areBits (x # xs) \<longleftrightarrow> x < 2 \<and> areBits xs" "areBits (xs @ ys) \<longleftrightarrow> areBits xs \<and> areBits ys" "areBits (replicate n 0)"
  by (auto simp: areBits_def)

lemma areBits_sub: "areBits xs \<Longrightarrow> areBits (take n xs)" "areBits xs \<Longrightarrow> areBits (drop n xs)"
  using set_take_subset [of n xs] set_drop_subset [of n xs] by (auto simp: areBits_def)

lemma bitOf_div: "bitOf b i = b div 2 ^ i mod 2"
  by (simp add: bitOf_def drop_bit_eq_div and_one_eq)

lemma valOf_Cons: "valOf (x # xs) = x * 2 ^ length xs + valOf xs"
proof -
  have "foldl (\<lambda>a b. 2 * a + b) a xs = a * 2 ^ length xs + foldl (\<lambda>a b. 2 * a + b) 0 xs" for a :: nat and xs
  proof (induction xs arbitrary: a)
    case (Cons y ys)
    from Cons.IH [of "2 * a + y"] Cons.IH [of y] show ?case by (simp add: algebra_simps)
  qed simp
  from this [of x xs] show ?thesis by (simp add: valOf_def)
qed

lemma valOf_Nil [simp]: "valOf [] = 0"
  by (simp add: valOf_def)

lemma valOf_less: "areBits xs \<Longrightarrow> valOf xs < 2 ^ length xs"
proof (induction xs)
  case (Cons x xs)
  then have "x = 0 \<or> x = 1" by auto
  then show ?case using Cons by (auto simp: valOf_Cons)
qed simp

lemma valOf_inject: "areBits xs \<Longrightarrow> areBits ys \<Longrightarrow> length xs = length ys \<Longrightarrow> valOf xs = valOf ys \<Longrightarrow> xs = ys"
proof (induction xs arbitrary: ys)
  case (Cons x xs)
  then obtain y zs where ys: "ys = y # zs" by (cases ys) auto
  have len: "length xs = length zs" using Cons.prems(3) ys by simp
  have less: "valOf xs < 2 ^ length xs" "valOf zs < 2 ^ length xs" using valOf_less [of xs] valOf_less [of zs] Cons.prems ys len by auto
  have eq: "x * 2 ^ length xs + valOf xs = y * 2 ^ length xs + valOf zs" using Cons.prems(4) ys len by (simp add: valOf_Cons)
  have "x = (x * 2 ^ length xs + valOf xs) div 2 ^ length xs" using less(1) by simp
  also have "\<dots> = y" unfolding eq using less(2) by simp
  finally have "x = y" .
  then show ?case using Cons eq ys len by simp
qed simp

lemma valOf_bits: "valOf (map (\<lambda>i. bitOf n i) (rev [0..<k])) = n mod 2 ^ k"
proof (induction k)
  case (Suc k)
  have "n mod (2 ^ k * 2) = 2 ^ k * (n div 2 ^ k mod 2) + n mod 2 ^ k" by (rule mod_mult2_eq)
  then show ?case using Suc by (simp add: valOf_Cons bitOf_div algebra_simps)
qed simp

lemma bits8_facts [simp]: "length (bits8 b) = 8" "areBits (bits8 b)" "valOf (bits8 b) = unat b"
proof -
  show "length (bits8 b) = 8" by (simp add: bits8_def)
  show "areBits (bits8 b)" by (auto simp: bits8_def areBits_def bitOf_div)
  have "unat b < 2 ^ 8" using unsigned_less [of b] by simp
  then show "valOf (bits8 b) = unat b" unfolding bits8_def valOf_bits by simp
qed

lemma areBits_concat: "areBits (concat (map bits8 bs))"
  by (induction bs) simp_all

lemma length_concat_bits8 [simp]: "length (concat (map bits8 bs)) = 8 * length bs"
  by (induction bs) simp_all

lemma bits8_of_valOf: "areBits bs \<Longrightarrow> length bs = 8 \<Longrightarrow> bits8 (of_nat (valOf bs)) = bs"
proof (rule valOf_inject)
  assume "areBits bs" "length bs = 8"
  then have "valOf bs < 2 ^ 8" using valOf_less [of bs] by simp
  then show "valOf (bits8 (of_nat (valOf bs))) = valOf bs" by (simp add: unsigned_of_nat take_bit_nat_eq_self)
qed simp_all

lemma take_chunk: "i < length bs \<Longrightarrow> take 8 (drop (8 * i) (concat (map bits8 bs) @ q)) = bits8 (bs ! i)"
proof (induction bs arbitrary: i)
  case (Cons b bs)
  then show ?case by (cases i) simp_all
qed simp

lemma byteAt_chunk:
  assumes "i < length bs" "n = length p + 8 * i"
  shows "byteAt (p @ concat (map bits8 bs) @ q) n = bs ! i"
  using take_chunk [OF assms(1), of q] by (simp add: byteAt_def assms(2))

lemma toBytes_chunk:
  assumes "areBits bs"
  shows "foldl (\<lambda>b v. push_bit 1 b OR of_nat v) (of_nat a) bs = (of_nat (foldl (\<lambda>a b. 2 * a + b) a bs) :: byte)"
  using assms
proof (induction bs arbitrary: a)
  case (Cons v bs)
  have "push_bit 1 (of_nat a) OR of_nat v = (of_nat (2 * a + v) :: byte)"
  proof (cases "v = 0")
    case False
    then have "v = 1" using Cons.prems by simp
    then show ?thesis by (simp add: or_one_eq mult.commute)
  qed (simp add: mult.commute)
  then show ?case using Cons.IH [of "2 * a + v"] Cons.prems by simp
qed simp

lemma toBytes_Cons:
  assumes "areBits xs" "xs \<noteq> []"
  shows "toBytes xs = of_nat (valOf (take 8 xs)) # toBytes (drop 8 xs)"
proof (cases xs)
  case (Cons y ys)
  then show ?thesis using toBytes_chunk [OF areBits_sub(1) [OF assms(1)], of 0 8] by (simp add: valOf_def)
qed (use assms in simp)

lemma bits_toBytes:
  assumes "areBits xs" "length xs = 8 * n"
  shows "concat (map bits8 (toBytes xs)) = xs \<and> length (toBytes xs) = n"
  using assms
proof (induction n arbitrary: xs)
  case (Suc n)
  then have ne: "xs \<noteq> []" by auto
  have t: "areBits (take 8 xs)" "length (take 8 xs) = 8" "areBits (drop 8 xs)" "length (drop 8 xs) = 8 * n"
    using Suc.prems areBits_sub by auto
  show ?case using Suc.IH [OF t(3,4)] bits8_of_valOf [OF t(1,2)] by (simp add: toBytes_Cons [OF Suc.prems(1) ne])
qed simp

section \<open>The payload\<close>

lemma padCodewords_pads:
  "length bits + 8 * k = maxBits \<Longrightarrow> \<exists>rest. padCodewords maxBits p bits = bits @ rest \<and> areBits rest \<and> length rest = 8 * k"
proof (induction k arbitrary: p bits)
  case 0
  then show ?case by (subst padCodewords.simps) simp
next
  case (Suc k)
  let ?pad = "bits8 (if p mod 2 = 0 then 0xEC else 0x11)"
  have "length (bits @ ?pad) + 8 * k = maxBits" using Suc.prems by simp
  from Suc.IH [OF this, of "p + 1"] obtain rest where
    "padCodewords maxBits (p + 1) (bits @ ?pad) = (bits @ ?pad) @ rest" "areBits rest" "length rest = 8 * k" by blast
  then show ?case using Suc.prems by (subst padCodewords.simps) (intro exI [of _ "?pad @ rest"], simp)
qed

lemma encodeBits_shape:
  assumes "length bytes + 2 \<le> cap"
  obtains rest where "encodeBits bytes cap = ([0, 1, 0, 0] @ bits8 (of_nat (length bytes))) @ concat (map bits8 bytes) @ rest"
    "areBits (encodeBits bytes cap)" "length (encodeBits bytes cap) = 8 * cap"
proof -
  let ?b = "([0, 1, 0, 0] @ bits8 (of_nat (length bytes))) @ concat (map bits8 bytes)"
  obtain k where k: "cap = length bytes + 2 + k" using assms le_Suc_ex by blast
  have "terminator (cap * 8) ?b = ?b @ [0, 0, 0, 0]" 
  proof -
    have "[0..<4] = [0, 1, 2, 3 :: nat]" by (simp add: upt_rec)
    then show ?thesis by (simp add: terminator_def k)
  qed
  moreover have "padAlign (?b @ [0, 0, 0, 0]) = ?b @ [0, 0, 0, 0]" by (subst padAlign.simps) simp
  moreover obtain rest where "padCodewords (cap * 8) 0 (?b @ [0, 0, 0, 0]) = (?b @ [0, 0, 0, 0]) @ rest" "areBits rest" "length rest = 8 * k"
    using padCodewords_pads [of "?b @ [0, 0, 0, 0]" k "cap * 8" 0] k by auto
  ultimately have "encodeBits bytes cap = ?b @ [0, 0, 0, 0] @ rest" by (simp add: encodeBits_def Let_def)
  then show thesis using that [of "[0, 0, 0, 0] @ rest"] \<open>areBits rest\<close> \<open>length rest = 8 * k\<close> k by (simp add: areBits_concat)
qed

lemma readPayload_encoded:
  assumes "length bytes + 2 \<le> cap" "length bytes < 256"
  shows "readPayload (toBytes (encodeBits bytes cap)) = Some bytes"
proof -
  obtain rest where bits: "encodeBits bytes cap = ([0, 1, 0, 0] @ bits8 (of_nat (length bytes))) @ concat (map bits8 bytes) @ rest"
    "areBits (encodeBits bytes cap)" "length (encodeBits bytes cap) = 8 * cap" by (rule encodeBits_shape [OF assms(1)])
  have same: "concat (map bits8 (toBytes (encodeBits bytes cap))) = encodeBits bytes cap" using bits_toBytes [OF bits(2,3)] by blast
  have "byteAt (encodeBits bytes cap) 4 = of_nat (length bytes)"
    unfolding bits(1) using byteAt_chunk [of 0 "[of_nat (length bytes)]" 4 "[0, 1, 0, 0]" "concat (map bits8 bytes) @ rest"] by simp
  moreover have "unat (of_nat (length bytes) :: byte) = length bytes" using assms(2) by (simp add: unsigned_of_nat take_bit_nat_eq_self)
  moreover have "map (\<lambda>i. byteAt (encodeBits bytes cap) (12 + 8 * i)) [0..<length bytes] = bytes"
    unfolding bits(1) by (intro nth_equalityI) (simp_all add: byteAt_chunk del: append_assoc append_Cons)
  moreover have "take 4 (encodeBits bytes cap) = [0, 1, 0, 0]" unfolding bits(1) by simp
  ultimately show ?thesis by (simp add: readPayload_def same Let_def)
qed

section \<open>Blocks\<close>

lemma makeBlocks_single:
  assumes "groups info = [(nb, nd)]"
  shows "makeBlocks data info =
    map (\<lambda>j. \<lparr>blk_d = take nd (drop (j * nd) data), blk_e = rsEncode (take nd (drop (j * nd) data)) (ec info)\<rparr>) [0..<nb]"
proof -
  let ?b = "\<lambda>j. \<lparr>blk_d = take nd (drop (j * nd) data), blk_e = rsEncode (take nd (drop (j * nd) data)) (ec info)\<rparr>"
  have "fold (\<lambda>b (blocks, di). (blocks @ [\<lparr>blk_d = take nd (drop di data), blk_e = rsEncode (take nd (drop di data)) (ec info)\<rparr>], di + nd)) [0..<k] ([], 0) =
    (map ?b [0..<k], k * nd)" for k
    by (induction k) (simp_all add: add.commute)
  then show ?thesis by (simp add: makeBlocks_def assms)
qed

lemma concat_rows:
  assumes "\<And>i. i < n \<Longrightarrow> length (f i) = m"
  shows "length (concat (map f [0..<n])) = n * m" "i < n \<Longrightarrow> j < m \<Longrightarrow> concat (map f [0..<n]) ! (i * m + j) = f i ! j"
proof -
  have len: "k \<le> n \<Longrightarrow> length (concat (map f [0..<k])) = k * m" for k
    by (induction k) (simp_all add: assms add.commute)
  then show "length (concat (map f [0..<n])) = n * m" by simp
  have "k \<le> n \<Longrightarrow> i < k \<Longrightarrow> j < m \<Longrightarrow> concat (map f [0..<k]) ! (i * m + j) = f i ! j" for k
  proof (induction k)
    case (Suc k)
    have "i * m + j < k * m" if "i < k"
    proof -
      have "Suc i * m \<le> k * m" using that by (intro mult_le_mono1) simp
      then show ?thesis using Suc.prems(3) by simp
    qed
    then show ?case using Suc len [of k] by (cases "i = k") (simp_all add: nth_append)
  qed simp
  then show "i < n \<Longrightarrow> j < m \<Longrightarrow> concat (map f [0..<n]) ! (i * m + j) = f i ! j" by simp
qed

lemma interleave_rows:
  assumes "blocks \<noteq> []" "\<forall>b \<in> set blocks. length (blk_d b) = nd \<and> length (blk_e b) = ne"
  shows "interleave blocks =
    concat (map (\<lambda>i. map (\<lambda>b. blk_d b ! i) blocks) [0..<nd]) @ concat (map (\<lambda>i. map (\<lambda>b. blk_e b ! i) blocks) [0..<ne])"
proof -
  have "(\<lambda>b. length (blk_d b)) ` set blocks = {nd}" using assms by (cases blocks) auto
  then have maxD: "Max (set (map (\<lambda>b. length (blk_d b)) blocks)) = nd" by simp
  have e: "length (blk_e (hd blocks)) = ne" using assms by (cases blocks) auto
  have "concat (map (\<lambda>blk. if i < length (blk_d blk) then [blk_d blk ! i] else []) bs) = map (\<lambda>b. blk_d b ! i) bs"
    if "i < nd" "set bs \<subseteq> set blocks" for i bs
    using that assms(2) by (induction bs) auto
  then have "concat (map (\<lambda>i. concat (map (\<lambda>blk. if i < length (blk_d blk) then [blk_d blk ! i] else []) blocks)) [0..<nd]) =
    concat (map (\<lambda>i. map (\<lambda>b. blk_d b ! i) blocks) [0..<nd])"
    by (intro arg_cong [where f = concat] map_cong) auto
  then show ?thesis unfolding interleave_def Let_def maxD e by simp
qed

lemma readBlock_interleave:
  assumes "blocks \<noteq> []" "\<forall>b \<in> set blocks. length (blk_d b) = nd \<and> length (blk_e b) = ne" "j < length blocks"
  shows "readBlock (interleave blocks) (length blocks) nd ne j = blk_d (blocks ! j) @ blk_e (blocks ! j)"
    "length (interleave blocks) = length blocks * (nd + ne)"
proof -
  let ?D = "concat (map (\<lambda>i. map (\<lambda>b. blk_d b ! i) blocks) [0..<nd])" and ?E = "concat (map (\<lambda>i. map (\<lambda>b. blk_e b ! i) blocks) [0..<ne])"
  note rows = interleave_rows [OF assms(1,2)]
  have D: "length ?D = nd * length blocks" "i < nd \<Longrightarrow> ?D ! (i * length blocks + j) = blk_d (blocks ! j) ! i" for i
    using concat_rows [of nd "\<lambda>i. map (\<lambda>b. blk_d b ! i) blocks" "length blocks"] assms(3) by simp_all
  have E: "length ?E = ne * length blocks" "i < ne \<Longrightarrow> ?E ! (i * length blocks + j) = blk_e (blocks ! j) ! i" for i
    using concat_rows [of ne "\<lambda>i. map (\<lambda>b. blk_e b ! i) blocks" "length blocks"] assms(3) by simp_all
  show "length (interleave blocks) = length blocks * (nd + ne)" unfolding rows by (simp add: D(1) E(1) algebra_simps)
  have len: "length (blk_d (blocks ! j)) = nd" "length (blk_e (blocks ! j)) = ne" using assms(2,3) nth_mem by blast+
  show "readBlock (interleave blocks) (length blocks) nd ne j = blk_d (blocks ! j) @ blk_e (blocks ! j)"
  proof (rule nth_equalityI)
    fix i assume "i < length (readBlock (interleave blocks) (length blocks) nd ne j)"
    then have i: "i < nd + ne" by (simp add: readBlock_def)
    show "readBlock (interleave blocks) (length blocks) nd ne j ! i = (blk_d (blocks ! j) @ blk_e (blocks ! j)) ! i"
    proof (cases "i < nd")
      case True
      have "Suc i * length blocks \<le> nd * length blocks" using True by (intro mult_le_mono1) simp
      then have "i * length blocks + j < length ?D" using assms(3) D(1) by simp
      then show ?thesis using True i D(2) len unfolding readBlock_def rows by (simp add: nth_append)
    next
      case False
      then obtain k where k: "i = nd + k" "k < ne" using i by (metis le_iff_add nat_add_left_cancel_less not_less)
      then have "i * length blocks + j = length ?D + (k * length blocks + j)" by (simp add: D(1) algebra_simps)
      then show ?thesis using k i E(2) len unfolding readBlock_def rows by (simp add: nth_append)
    qed
  qed (simp add: readBlock_def len)
qed

lemma concat_slices: "length data = nb * nd \<Longrightarrow> concat (map (\<lambda>j. take nd (drop (j * nd) data)) [0..<nb]) = data"
proof -
  assume l: "length data = nb * nd"
  have "k \<le> nb \<Longrightarrow> concat (map (\<lambda>j. take nd (drop (j * nd) data)) [0..<k]) = take (k * nd) data" for k
  proof (induction k)
    case (Suc k)
    have "take (Suc k * nd) data = take (k * nd + nd) data" by (simp add: add.commute)
    then show ?case using Suc by (simp only: take_add) simp
  qed simp
  from this [of nb] show ?thesis using l by simp
qed

section \<open>Versions\<close>

text \<open>The parameters of the versions: blocks, data bytes and check bytes per block.\<close>

lemma ECCM_versions:
  assumes "1 \<le> ver" "ver \<le> 7"
  shows "\<exists>nb nd. groups (the (ECCM ! ver)) = [(nb, nd)] \<and> 0 < nb \<and> ec (the (ECCM ! ver)) \<le> 255 \<and> capacity (the (ECCM ! ver)) = nb * nd"
proof -
  have "ver \<in> {1, 2, 3, 4, 5, 6, 7}" using assms by auto
  then show ?thesis by (auto simp: ECCM_def capacity_def)
qed

lemma ECCM_length: "length ECCM = 8"
  by (simp add: ECCM_def)

lemma selectVersion_bounds: "1 \<le> ver \<Longrightarrow> ver \<le> 7 \<Longrightarrow> 1 \<le> selectVersion need ver \<and> selectVersion need ver \<le> 7"
proof (induction need ver rule: selectVersion.induct)
  case (1 need ver)
  then show ?case using selectVersion.simps [of need ver] by (auto simp: ECCM_length)
qed

lemma selectVersion_fits:
  "need \<le> capacity (the (ECCM ! 6)) \<Longrightarrow> 1 \<le> ver \<Longrightarrow> ver \<le> 6 \<Longrightarrow>
    selectVersion need ver \<le> 6 \<and> need \<le> capacity (the (ECCM ! selectVersion need ver))"
proof (induction need ver rule: selectVersion.induct)
  case (1 need ver)
  then show ?case using selectVersion.simps [of need ver] by (cases "ver = 6") (auto simp: ECCM_length)
qed

section \<open>The zigzag\<close>

lemma distinct_concat_upt:
  assumes "\<And>i. i < n \<Longrightarrow> distinct (f i)" "\<And>i j. i < j \<Longrightarrow> j < n \<Longrightarrow> set (f i) \<inter> set (f j) = {}"
  shows "distinct (concat (map f [0..<n]))"
  using assms
proof (induction n)
  case (Suc n)
  have "set (f i) \<inter> set (f n) = {}" if "i < n" for i using Suc.prems(2) that by simp
  then show ?case using Suc by fastforce
qed simp

definition rightCol :: "nat \<Rightarrow> nat \<Rightarrow> nat" where
  "rightCol n k = (if n - 1 - 2 * k \<le> 6 then n - 2 - 2 * k else n - 1 - 2 * k)"

definition pairCells :: "nat \<Rightarrow> nat \<Rightarrow> (nat \<times> nat) list" where
  "pairCells n k = concat (map (\<lambda>r. [(r, rightCol n k), (r, rightCol n k - 1)]) (if even k then rev [0..<n] else [0..<n]))"

lemma zigzag_pairs: "zigzag n = concat (map (pairCells n) [0..<(n - 1) div 2])"
  unfolding zigzag_def Let_def pairCells_def [abs_def] rightCol_def ..

lemma pairCells_set: "set (pairCells n k) = {(r, c). r < n \<and> (c = rightCol n k \<or> c = rightCol n k - 1)}"
  by (auto simp: pairCells_def)

lemma rightCol_pos: "odd n \<Longrightarrow> k < (n - 1) div 2 \<Longrightarrow> 0 < rightCol n k"
  by (auto simp: rightCol_def elim!: oddE)

lemma pairCells_distinct:
  assumes "odd n" "k < (n - 1) div 2"
  shows "distinct (pairCells n k)"
proof -
  have "distinct rs \<Longrightarrow> distinct (concat (map (\<lambda>r. [(r, rightCol n k), (r, rightCol n k - 1)]) rs))" for rs :: "nat list"
    using rightCol_pos [OF assms] by (induction rs) auto
  then show ?thesis by (simp add: pairCells_def)
qed

lemma rightCol_mono: "odd n \<Longrightarrow> i < j \<Longrightarrow> j < (n - 1) div 2 \<Longrightarrow> rightCol n j + 2 \<le> rightCol n i"
  by (auto simp: rightCol_def elim!: oddE)

lemma zigzag_distinct:
  assumes "odd n"
  shows "distinct (zigzag n)"
  unfolding zigzag_pairs
proof (rule distinct_concat_upt)
  fix i j assume "i < j" "j < (n - 1) div 2"
  then show "set (pairCells n i) \<inter> set (pairCells n j) = {}"
    using rightCol_mono [OF assms, of i j] rightCol_pos [OF assms, of j] unfolding pairCells_set by auto
qed (simp add: pairCells_distinct assms)

lemma rightCol_odd: "k < h \<Longrightarrow> rightCol (2 * h + 1) k = (if h - k \<le> 3 then 2 * (h - k) - 1 else 2 * (h - k))"
  by (auto simp: rightCol_def)

lemma rightCol_range: "k < h \<Longrightarrow> 3 < h \<Longrightarrow> c = rightCol (2 * h + 1) k \<or> c = rightCol (2 * h + 1) k - 1 \<Longrightarrow> c < 2 * h + 1 \<and> c \<noteq> 6"
  unfolding rightCol_odd by (auto split: if_splits)

lemma rightCol_onto:
  assumes "3 < h" "c < 2 * h + 1" "c \<noteq> 6"
  shows "\<exists>k < h. c = rightCol (2 * h + 1) k \<or> c = rightCol (2 * h + 1) k - 1"
proof (cases "c < 6")
  case True
  then have "c \<in> {0, 1, 2, 3, 4, 5}" by auto
  then have "c = 2 * (c div 2 + 1) - 1 \<or> c = 2 * (c div 2 + 1) - 1 - 1" "c div 2 + 1 \<le> 3" by auto
  then show ?thesis using assms(1) rightCol_odd [of "h - (c div 2 + 1)" h] by (intro exI [of _ "h - (c div 2 + 1)"]) simp
next
  case False
  then have "3 < (c + 1) div 2" "(c + 1) div 2 \<le> h" using assms by auto
  moreover have "c = 2 * ((c + 1) div 2) \<or> c = 2 * ((c + 1) div 2) - 1" by arith
  ultimately show ?thesis using rightCol_odd [of "h - (c + 1) div 2" h] by (intro exI [of _ "h - (c + 1) div 2"]) simp
qed

lemma zigzag_set:
  assumes "odd n" "7 < n"
  shows "(r, c) \<in> set (zigzag n) \<longleftrightarrow> r < n \<and> c < n \<and> c \<noteq> 6"
proof -
  obtain h where n: "n = 2 * h + 1" using assms(1) by (auto elim: oddE)
  then have h: "3 < h" using assms(2) by simp
  have "(r, c) \<in> set (zigzag n) \<longleftrightarrow> r < n \<and> (\<exists>k < h. c = rightCol n k \<or> c = rightCol n k - 1)"
    unfolding zigzag_pairs set_concat set_map by (auto simp: pairCells_set n)
  then show ?thesis using rightCol_range [OF _ h] rightCol_onto [OF h] unfolding n by blast
qed

section \<open>Matrices\<close>

definition square :: "nat \<Rightarrow> matrix \<Rightarrow> bool" where
  "square n m \<longleftrightarrow> length m = n \<and> (\<forall>r < n. length (m ! r) = n)"

lemma square_mkMat: "square n (mkMat n)"
  by (simp add: square_def mkMat_def)

lemma square_setModule: "square n m \<Longrightarrow> square n (setModule r c v m)"
  by (cases "r < n") (auto simp: square_def setModule_def nth_list_update)

lemma setModule_nth:
  "square n m \<Longrightarrow> r' < n \<Longrightarrow> c' < n \<Longrightarrow> setModule r c v m ! r' ! c' = (if r = r' \<and> c = c' then v else m ! r' ! c')"
  by (cases "r = r'"; cases "r < n") (auto simp: square_def setModule_def nth_list_update)

lemma square_setModules: "square n m \<Longrightarrow> square n (setModules ws m)"
  unfolding setModules_def by (induction ws arbitrary: m) (auto simp: square_setModule)

lemma setModules_other:
  "square n m \<Longrightarrow> r < n \<Longrightarrow> c < n \<Longrightarrow> (\<And>v. (r, c, v) \<notin> set ws) \<Longrightarrow> setModules ws m ! r ! c = m ! r ! c"
  unfolding setModules_def
proof (induction ws arbitrary: m)
  case (Cons w ws)
  then show ?case by (cases w) (auto simp: square_setModule setModule_nth)
qed simp

text \<open>The last assignment to a module decides.\<close>

lemma setModules_last:
  assumes "square n m" "r < n" "c < n" "\<And>v. (r, c, v) \<notin> set zs"
  shows "setModules (ws @ (r, c, v) # zs) m ! r ! c = v"
proof -
  have "setModules (ws @ (r, c, v) # zs) m = setModules zs (setModule r c v (setModules ws m))" by (simp add: setModules_def)
  moreover have sq: "square n (setModule r c v (setModules ws m))" using assms(1) by (simp add: square_setModule square_setModules)
  ultimately show ?thesis using assms setModules_other [OF sq assms(2,3), of zs] by (simp add: setModule_nth [OF square_setModules])
qed

lemma square_reserve: "square n m \<Longrightarrow> square n (reserve ps m)"
  by (simp add: reserve_def square_setModules)

lemma reserve_nth:
  "square n m \<Longrightarrow> r < n \<Longrightarrow> c < n \<Longrightarrow> reserve ps m ! r ! c = (if (r, c) \<in> set ps then 1 else m ! r ! c)"
  unfolding reserve_def setModules_def
proof (induction ps arbitrary: m)
  case (Cons p ps)
  then show ?case by (cases p) (auto simp: square_setModule setModule_nth)
qed simp

section \<open>Data modules\<close>

lemma placeCell_free:
  "res ! r ! c = 0 \<Longrightarrow> placeCell res bits (r, c) (mat, bi) = (setModule r c (if bi < length bits then bits ! bi else 0) mat, bi + 1)"
  and placeCell_reserved: "res ! r ! c \<noteq> 0 \<Longrightarrow> placeCell res bits (r, c) (mat, bi) = (mat, bi)"
  by (simp_all add: placeCell_def)

text \<open>Writing the bits over a list of different positions.\<close>

lemma placeCells:
  assumes "distinct ps" "\<forall>(r, c) \<in> set ps. r < n \<and> c < n" "square n mat"
    and free: "free = filter (\<lambda>(r, c). res ! r ! c = 0) ps" and st: "fold (placeCell res bits) ps (mat, bi) = (mat', bi')"
  shows "square n mat' \<and> map (\<lambda>(r, c). mat' ! r ! c) free = map (\<lambda>k. if k < length bits then bits ! k else 0) [bi..<bi + length free] \<and>
    (\<forall>r < n. \<forall>c < n. (r, c) \<notin> set free \<longrightarrow> mat' ! r ! c = mat ! r ! c)"
  using assms
proof (induction ps arbitrary: mat bi free)
  case (Cons p ps)
  obtain r c where p: "p = (r, c)" by (cases p)
  have rc: "r < n" "c < n" "(r, c) \<notin> set ps" using Cons.prems(1,2) p by auto
  show ?case
  proof (cases "res ! r ! c = 0")
    case False
    then show ?thesis using Cons.IH [of mat "filter (\<lambda>(r, c). res ! r ! c = 0) ps" bi] Cons.prems p by (simp add: placeCell_reserved)
  next
    case True
    let ?v = "if bi < length bits then bits ! bi else 0" and ?free = "filter (\<lambda>(r, c). res ! r ! c = 0) ps"
    have st': "fold (placeCell res bits) ps (setModule r c ?v mat, bi + 1) = (mat', bi')" using Cons.prems(5) p True by (simp add: placeCell_free)
    have free: "free = (r, c) # ?free" using Cons.prems(4) p True by simp
    note ih = Cons.IH [OF _ _ square_setModule [OF Cons.prems(3)] refl st']
    have "mat' ! r ! c = ?v" using ih rc Cons.prems(1-3) by (simp add: setModule_nth)
    moreover have "mat' ! r' ! c' = mat ! r' ! c'" if "r' < n" "c' < n" "(r', c') \<notin> set free" for r' c'
      using ih that Cons.prems(1-3) free by (auto simp: setModule_nth)
    moreover have "[bi..<bi + length free] = bi # [Suc bi..<Suc bi + length ?free]"
      unfolding free by (subst upt_conv_Cons) (simp_all del: upt_Suc)
    ultimately show ?thesis using ih Cons.prems(1,2) unfolding free by simp
  qed
qed simp

lemma placeColumns_pairs:
  assumes "odd n" "7 < n" "k \<le> (n - 1) div 2"
  shows "placeColumns res bits n (even k) (if 6 \<le> n - 1 - 2 * k then n - 1 - 2 * k else n - 2 - 2 * k) st =
    fold (placeCell res bits) (concat (map (pairCells n) [k..<(n - 1) div 2])) st"
  using assms(3)
proof (induction "(n - 1) div 2 - k" arbitrary: k st)
  case 0
  then have "k = (n - 1) div 2" by simp
  then have "(if 6 \<le> n - 1 - 2 * k then n - 1 - 2 * k else n - 2 - 2 * k) = 0" using assms(1,2) by (auto elim!: oddE)
  then show ?case using 0 by (simp add: placeColumns.simps)
next
  case (Suc d)
  let ?col = "\<lambda>k. if 6 \<le> n - 1 - 2 * k then n - 1 - 2 * k else n - 2 - 2 * k"
  have k: "k < (n - 1) div 2" using Suc(2) by simp
  have pos: "0 < ?col k" and right: "(if ?col k = 6 then ?col k - 1 else ?col k) = rightCol n k" and nxt: "rightCol n k - 2 = ?col (Suc k)"
    using assms(1,2) k by (auto simp: rightCol_def elim!: oddE) presburger
  have cells: "fold (\<lambda>ri st. let r = (if even k then n - 1 - ri else ri) in fold (\<lambda>cd. placeCell res bits (r, rightCol n k - cd)) [0..<2] st) [0..<n] st =
    fold (placeCell res bits) (pairCells n k) st" for st
  proof -
    have two: "[0..<2] = [0, 1 :: nat]" by (simp add: upt_rec)
    have flat: "fold f (concat (map g rs)) st = fold (\<lambda>r. fold f (g r)) rs st" for f g and rs :: "nat list" and st :: "matrix \<times> nat"
      by (induction rs arbitrary: st) simp_all
    have turn: "rev [0..<n] = map (\<lambda>ri. n - 1 - ri) [0..<n]" by (intro nth_equalityI) (simp_all add: rev_nth)
    show ?thesis unfolding pairCells_def flat two Let_def by (simp add: turn fold_map comp_def)
  qed
  have "placeColumns res bits n (even k) (?col k) st =
    placeColumns res bits n (even (Suc k)) (?col (Suc k)) (fold (placeCell res bits) (pairCells n k) st)"
    using pos right nxt cells by (subst placeColumns.simps) (simp add: Let_def)
  also have "\<dots> = fold (placeCell res bits) (concat (map (pairCells n) [Suc k..<(n - 1) div 2])) (fold (placeCell res bits) (pairCells n k) st)"
    using Suc(1) [of "Suc k"] Suc(2) k by simp
  finally show ?case using k by (simp add: upt_rec [of k])
qed

lemma placeColumns_zigzag:
  "odd n \<Longrightarrow> 7 < n \<Longrightarrow> placeColumns res bits n True (n - 1) st = fold (placeCell res bits) (zigzag n) st"
proof -
  assume n: "odd n" "7 < n"
  then have "(if 6 \<le> n - 1 - 2 * 0 then n - 1 - 2 * 0 else n - 2 - 2 * 0) = n - 1" by simp
  with placeColumns_pairs [OF n, of 0 res bits st] show ?thesis unfolding zigzag_pairs by simp
qed

section \<open>Function modules\<close>

lemma square_places: "square n m \<Longrightarrow> square n (placeFinder m r c)" "square n m \<Longrightarrow> square n (placeAlign m cy cx)"
  by (simp_all add: placeFinder_def placeAlign_def square_setModules Let_def)

lemma aligns:
  fixes cs :: "(nat \<times> nat) list"
  assumes "square n mat" "square n res"
    and "fold (\<lambda>(cy, cx) (mat, res). if inFinderArea cy cx sz then (mat, res)
        else (placeAlign mat cy cx, reserve (List.product [cy - 2..<cy + 3] [cx - 2..<cx + 3]) res)) cs (mat, res) = (mat', res')"
  shows "square n mat' \<and> square n res' \<and> (\<forall>r < n. \<forall>c < n. res' ! r ! c =
    (if \<exists>(cy, cx) \<in> set cs. \<not> inFinderArea cy cx sz \<and> cy - 2 \<le> r \<and> r < cy + 3 \<and> cx - 2 \<le> c \<and> c < cx + 3 then 1 else res ! r ! c))"
  using assms
proof (induction cs arbitrary: mat res)
  case (Cons p cs)
  obtain cy cx where p: "p = (cy, cx)" by (cases p)
  show ?case
  proof (cases "inFinderArea cy cx sz")
    case True
    then show ?thesis using Cons.IH [of mat res] Cons.prems p by simp
  next
    case False
    let ?res = "reserve (List.product [cy - 2..<cy + 3] [cx - 2..<cx + 3]) res"
    note ih = Cons.IH [OF square_places(2) [OF Cons.prems(1)] square_reserve [OF Cons.prems(2)]]
    have ih': "square n mat' \<and> square n res' \<and> (\<forall>r < n. \<forall>c < n. res' ! r ! c =
      (if \<exists>(cy, cx) \<in> set cs. \<not> inFinderArea cy cx sz \<and> cy - 2 \<le> r \<and> r < cy + 3 \<and> cx - 2 \<le> c \<and> c < cx + 3 then 1 else ?res ! r ! c))"
      using ih [of cy cx "List.product [cy - 2..<cy + 3] [cx - 2..<cx + 3]"] Cons.prems(3) p False by simp
    have "?res ! r ! c = (if cy - 2 \<le> r \<and> r < cy + 3 \<and> cx - 2 \<le> c \<and> c < cx + 3 then 1 else res ! r ! c)" if "r < n" "c < n" for r c
      using reserve_nth [OF Cons.prems(2) that] by simp
    then show ?thesis using ih' p False by (auto split: if_splits)
  qed
qed simp

lemma align_cells:
  assumes "1 \<le> ver" "ver \<le> 6"
  shows "(\<exists>(cy, cx) \<in> set (List.product (ALIGNCTR ! ver) (ALIGNCTR ! ver)). \<not> inFinderArea cy cx (17 + 4 * ver) \<and>
      cy - 2 \<le> r \<and> r < cy + 3 \<and> cx - 2 \<le> c \<and> c < cx + 3) \<longleftrightarrow>
    (\<exists>cy \<in> set (centres ver). \<exists>cx \<in> set (centres ver). (cy, cx) \<notin> {(6, 6), (6, 4 * ver + 10), (4 * ver + 10, 6)} \<and>
      cy \<le> r + 2 \<and> r \<le> cy + 2 \<and> cx \<le> c + 2 \<and> c \<le> cx + 2)"
proof -
  have "ver \<in> {1, 2, 3, 4, 5, 6}" using assms by auto
  then show ?thesis by (elim insertE emptyE; simp add: ALIGNCTR_def centres_def inFinderArea_def; arith?)
qed

lemma functionModules_res:
  assumes ver: "1 \<le> ver" "ver \<le> 6" and n: "n = 17 + 4 * ver" and fm: "functionModules ver = (mat, res)"
  shows "square n mat \<and> square n res \<and> (\<forall>r < n. \<forall>c < n. res ! r ! c = (if isFunction ver (r, c) then 1 else 0))"
proof -
  let ?corners = "List.product [0..<9] [0..<9] @ List.product [0..<9] [n - 8..<n] @ List.product [n - 8..<n] [0..<9]"
  let ?timing = "concat (map (\<lambda>i. [(6, i), (i, 6)]) [8..<n - 8])"
  let ?res2 = "reserve ?timing (reserve ?corners (mkMat n))"
  let ?mat2 = "setModules (concat (map (\<lambda>i. [(6, i, if i mod 2 = 0 then 1 else 0), (i, 6, if i mod 2 = 0 then 1 else 0)]) [8..<n - 8]))
    (placeFinder (placeFinder (placeFinder (mkMat n) 0 0) 0 (int n - 7)) (int n - 7) 0)"
  have sq2: "square n ?mat2" by (simp add: square_setModules square_places square_mkMat)
  obtain mat3 res3 where al: "placeAligns ver n (?mat2, ?res2) = (mat3, res3)" by fastforce
  have out: "mat = setModule (4 * ver + 9) 8 1 mat3" "res = reserve [(4 * ver + 9, 8)] res3"
    using fm al unfolding functionModules_def Let_def n [symmetric] by simp_all
  have sq: "square n ?res2" by (simp add: square_reserve square_mkMat)
  note a = aligns [OF sq2 sq al [unfolded placeAligns_def]]
  have sq3: "square n res3" using a by blast
  have res2: "?res2 ! r ! c = (if r \<le> 8 \<and> c \<le> 8 \<or> r \<le> 8 \<and> n \<le> c + 8 \<or> n \<le> r + 8 \<and> c \<le> 8 \<or> r = 6 \<or> c = 6 then 1 else 0)"
    if "r < n" "c < n" for r c
  proof -
    have "?res2 ! r ! c = (if (r, c) \<in> set ?timing then 1 else if (r, c) \<in> set ?corners then 1 else 0)"
      using that by (simp only: reserve_nth [OF square_reserve [OF square_mkMat]] reserve_nth [OF square_mkMat]) (simp add: mkMat_def)
    moreover have "(r, c) \<in> set ?timing \<longleftrightarrow> r = 6 \<and> 8 \<le> c \<and> c < n - 8 \<or> c = 6 \<and> 8 \<le> r \<and> r < n - 8" by auto
    moreover have "(r, c) \<in> set ?corners \<longleftrightarrow> r \<le> 8 \<and> c \<le> 8 \<or> r \<le> 8 \<and> n \<le> c + 8 \<or> n \<le> r + 8 \<and> c \<le> 8"
      using that n by auto
    ultimately show ?thesis using that n by auto
  qed
  have "res ! r ! c = (if isFunction ver (r, c) then 1 else 0)" if "r < n" "c < n" for r c
  proof -
    define base where "base \<longleftrightarrow> r \<le> 8 \<and> c \<le> 8 \<or> r \<le> 8 \<and> n \<le> c + 8 \<or> n \<le> r + 8 \<and> c \<le> 8 \<or> r = 6 \<or> c = 6"
    define al where "al \<longleftrightarrow> (\<exists>cy \<in> set (centres ver). \<exists>cx \<in> set (centres ver). (cy, cx) \<notin> {(6, 6), (6, 4 * ver + 10), (4 * ver + 10, 6)} \<and>
      cy \<le> r + 2 \<and> r \<le> cy + 2 \<and> cx \<le> c + 2 \<and> c \<le> cx + 2)"
    have "res ! r ! c = (if (r, c) = (4 * ver + 9, 8) then 1 else res3 ! r ! c)"
      unfolding out(2) using reserve_nth [OF sq3 that] by simp
    moreover have "res3 ! r ! c = (if al then 1 else ?res2 ! r ! c)"
      using a that unfolding align_cells [OF ver, folded n] al_def by blast
    moreover have "?res2 ! r ! c = (if base then 1 else 0)" using res2 [OF that] unfolding base_def .
    moreover have "isFunction ver (r, c) \<longleftrightarrow> base \<or> al"
      using ver unfolding isFunction_def Let_def prod.case n [symmetric] base_def al_def by (simp add: disj_assoc)
    moreover have "base" if "(r, c) = (4 * ver + 9, 8)" using that n by (simp add: base_def)
    ultimately show ?thesis by simp
  qed
  then show ?thesis using a out by (simp add: square_setModule square_reserve)
qed


lemma isFunction_low:
  assumes "1 \<le> ver" "ver \<le> 6"
  shows "isFunction ver (r, c) \<longleftrightarrow> r \<le> 8 \<and> c \<le> 8 \<or> r \<le> 8 \<and> 9 + 4 * ver \<le> c \<or> 9 + 4 * ver \<le> r \<and> c \<le> 8 \<or> r = 6 \<or> c = 6 \<or>
    ver \<noteq> 1 \<and> 4 * ver + 8 \<le> r \<and> r \<le> 4 * ver + 12 \<and> 4 * ver + 8 \<le> c \<and> c \<le> 4 * ver + 12"
proof -
  have far: "4 * ver + 10 \<noteq> 6" by simp
  have "(\<exists>cy \<in> set (centres ver). \<exists>cx \<in> set (centres ver). (cy, cx) \<notin> {(6, 6), (6, 4 * ver + 10), (4 * ver + 10, 6)} \<and>
      cy \<le> r + 2 \<and> r \<le> cy + 2 \<and> cx \<le> c + 2 \<and> c \<le> cx + 2) \<longleftrightarrow>
    ver \<noteq> 1 \<and> 4 * ver + 8 \<le> r \<and> r \<le> 4 * ver + 12 \<and> 4 * ver + 8 \<le> c \<and> c \<le> 4 * ver + 12"
    using assms by (auto simp: centres_def)
  then show ?thesis using assms unfolding isFunction_def Let_def prod.case by auto
qed

lemma functionCells_card:
  assumes ver: "1 \<le> ver" "ver \<le> 6" and n: "n = 17 + 4 * ver"
  shows "card {(r, c). r < n \<and> c < n \<and> isFunction ver (r, c)} = 225 + 8 * ver + (if ver = 1 then 0 else 25)"
proof -
  define P :: "(nat \<times> nat) set" where "P = (if ver = 1 then {} else {4 * ver + 8..4 * ver + 12} \<times> {4 * ver + 8..4 * ver + 12})"
  let ?A = "{..8} \<times> {..8 :: nat}" and ?B = "{..8 :: nat} \<times> {4 * ver + 9..<n}" and ?C = "{4 * ver + 9..<n} \<times> {..8 :: nat}"
  let ?T = "{6 :: nat} \<times> {9..<4 * ver + 9}" and ?U = "{9..<4 * ver + 9} \<times> {6 :: nat}"
  have "{(r, c). r < n \<and> c < n \<and> isFunction ver (r, c)} = ?A \<union> (?B \<union> (?C \<union> (?T \<union> (?U \<union> P))))"
    unfolding isFunction_low [OF ver] P_def using ver n by auto
  moreover have "card (?U \<union> P) = 4 * ver + card P" by (subst card_Un_disjoint) (auto simp: P_def)
  moreover have "card (?T \<union> (?U \<union> P)) = 4 * ver + card (?U \<union> P)" by (subst card_Un_disjoint) (auto simp: P_def)
  moreover have "card (?C \<union> (?T \<union> (?U \<union> P))) = 72 + card (?T \<union> (?U \<union> P))"
    using n ver by (subst card_Un_disjoint) (auto simp: P_def card_cartesian_product)
  moreover have "card (?B \<union> (?C \<union> (?T \<union> (?U \<union> P)))) = 72 + card (?C \<union> (?T \<union> (?U \<union> P)))"
    using n ver by (subst card_Un_disjoint) (auto simp: P_def card_cartesian_product)
  moreover have "card (?A \<union> (?B \<union> (?C \<union> (?T \<union> (?U \<union> P))))) = 81 + card (?B \<union> (?C \<union> (?T \<union> (?U \<union> P))))"
    using n ver by (subst card_Un_disjoint) (auto simp: P_def card_cartesian_product)
  moreover have "card P = (if ver = 1 then 0 else 25)" by (simp add: P_def card_cartesian_product)
  ultimately show ?thesis by simp
qed

lemma dataModules_count:
  assumes ver: "1 \<le> ver" "ver \<le> 6"
  shows "length (dataModules ver) = (17 + 4 * ver) ^ 2 - (225 + 8 * ver + (if ver = 1 then 0 else 25))"
proof -
  define n where n: "n = 17 + 4 * ver"
  define F where "F = {(r, c). r < n \<and> c < n \<and> isFunction ver (r, c)}"
  have odd: "odd n" "7 < n" by (simp_all add: n)
  have six: "isFunction ver (r, 6)" for r by (simp add: isFunction_low [OF ver])
  have "rc \<in> set (dataModules ver) \<longleftrightarrow> rc \<in> {..<n} \<times> {..<n} - F" for rc
    using zigzag_set [OF odd, of "fst rc" "snd rc"] six [of "fst rc"]
    unfolding dataModules_def n [symmetric] F_def by (cases rc) auto
  then have "set (dataModules ver) = {..<n} \<times> {..<n} - F" by blast
  moreover have "distinct (dataModules ver)" using zigzag_distinct [OF odd(1)] by (simp add: dataModules_def n)
  ultimately have "length (dataModules ver) = card ({..<n} \<times> {..<n} - F)" by (metis distinct_card)
  also have "\<dots> = n ^ 2 - card F"
  proof -
    have F: "F \<subseteq> {..<n} \<times> {..<n}" by (auto simp: F_def)
    then show ?thesis using finite_subset [OF F] by (simp add: card_Diff_subset card_cartesian_product power2_eq_square)
  qed
  finally show ?thesis using functionCells_card [OF ver n] by (simp add: F_def n)
qed

section \<open>Mask and format\<close>

lemma applyMask_nth:
  assumes "square n mat" "r < n" "c < n"
  shows "applyMask res k mat ! r ! c = (if res ! r ! c = 0 \<and> maskFns k r c then mat ! r ! c XOR 1 else mat ! r ! c)"
    "square n (applyMask res k mat)"
proof -
  let ?f = "\<lambda>(r, c) m. if res ! r ! c = 0 \<and> maskFns k r c then setModule r c (m ! r ! c XOR 1) m else m"
  have "distinct ps \<Longrightarrow> square n m \<Longrightarrow> square n (fold ?f ps m) \<and>
    fold ?f ps m ! r ! c = (if (r, c) \<in> set ps \<and> res ! r ! c = 0 \<and> maskFns k r c then m ! r ! c XOR 1 else m ! r ! c)" for ps m
  proof (induction ps arbitrary: m)
    case (Cons p ps)
    obtain r' c' where p: "p = (r', c')" by (cases p)
    show ?case
    proof (cases "res ! r' ! c' = 0 \<and> maskFns k r' c'")
      case True
      then show ?thesis using Cons.IH [of "setModule r' c' (m ! r' ! c' XOR 1) m"] Cons.prems p assms(2,3)
        by (auto simp: square_setModule setModule_nth)
    next
      case False
      then show ?thesis using Cons.IH [of m] Cons.prems p by auto
    qed
  qed simp
  moreover have "distinct (List.product [0..<length mat] [0..<length mat])" by (simp add: distinct_product)
  ultimately show "applyMask res k mat ! r ! c = (if res ! r ! c = 0 \<and> maskFns k r c then mat ! r ! c XOR 1 else mat ! r ! c)"
    "square n (applyMask res k mat)"
    using assms unfolding applyMask_def by (simp_all add: square_def)
qed

lemma setModules_lookup:
  assumes "square n m" "r < n" "c < n"
  shows "setModules ws m ! r ! c = (case map_of (rev (map (\<lambda>(r, c, v). ((r, c), v)) ws)) (r, c) of Some v \<Rightarrow> v | None \<Rightarrow> m ! r ! c)"
proof (induction ws rule: rev_induct)
  case (snoc w ws)
  obtain r' c' v where w: "w = (r', c', v)" by (cases w) auto
  have "setModules (ws @ [w]) m ! r ! c = setModule r' c' v (setModules ws m) ! r ! c" by (simp add: setModules_def w)
  also have "\<dots> = (if r' = r \<and> c' = c then v else setModules ws m ! r ! c)"
    by (rule setModule_nth [OF square_setModules [OF assms(1)] assms(2,3)])
  finally show ?case using snoc by (auto simp: w)
qed (simp add: setModules_def)

lemma placeFormat_cells:
  assumes sq: "square n m" and n: "n = 17 + 4 * ver" and ver: "1 \<le> ver" "ver \<le> 6"
  shows "square n (placeFormat m k ver)"
    "r < n \<Longrightarrow> c < n \<Longrightarrow> \<not> isFunction ver (r, c) \<Longrightarrow> placeFormat m k ver ! r ! c = m ! r ! c"
    "map (\<lambda>(r, c). placeFormat m k ver ! r ! c) formatCells = map (bitOf (FMTM ! k)) (rev [0..<15])"
proof -
  have len: "length m = n" using sq by (simp add: square_def)
  show "square n (placeFormat m k ver)" using sq by (simp add: placeFormat_def Let_def square_setModules)
  show "placeFormat m k ver ! r ! c = m ! r ! c" if "r < n" "c < n" "\<not> isFunction ver (r, c)"
    unfolding placeFormat_def Let_def len
  proof (rule setModules_other [OF sq that(1,2)])
    show "(r, c, v) \<notin> set ([(8, i, bitOf (FMTM ! k) (14 - i)). i \<leftarrow> [0..<6]] @
          [(8, 7, bitOf (FMTM ! k) 8), (8, 8, bitOf (FMTM ! k) 7), (7, 8, bitOf (FMTM ! k) 6)] @
          [(i, 8, bitOf (FMTM ! k) i). i \<leftarrow> rev [0..<6]] @
          [(8, n - 1 - i, bitOf (FMTM ! k) i). i \<leftarrow> [0..<8]] @
          [(n - 7 + i, 8, bitOf (FMTM ! k) (14 - i)). i \<leftarrow> [0..<7]] @
          [(4 * ver + 9, 8, 1)])" for v
      using that n by (auto simp: isFunction_low [OF ver])
  qed
  have u: "[0..<6] = [0, 1, 2, 3, 4, 5 :: nat]" "[0..<7] = [0, 1, 2, 3, 4, 5, 6 :: nat]" "[0..<8] = [0, 1, 2, 3, 4, 5, 6, 7 :: nat]"
    "[0..<15] = [0, 1, 2, 3, 4, 5, 6, 7, 8, 9, 10, 11, 12, 13, 14 :: nat]" by (simp_all add: upt_rec)
  have in_range: "list_all (\<lambda>(r, c). r < n \<and> c < n) formatCells" by (simp add: formatCells_def n)
  have "placeFormat m k ver ! r ! c = (case map_of (rev (map (\<lambda>(r, c, v). ((r, c), v)) ([(8, i, bitOf (FMTM ! k) (14 - i)). i \<leftarrow> [0..<6]] @
          [(8, 7, bitOf (FMTM ! k) 8), (8, 8, bitOf (FMTM ! k) 7), (7, 8, bitOf (FMTM ! k) 6)] @
          [(i, 8, bitOf (FMTM ! k) i). i \<leftarrow> rev [0..<6]] @
          [(8, n - 1 - i, bitOf (FMTM ! k) i). i \<leftarrow> [0..<8]] @
          [(n - 7 + i, 8, bitOf (FMTM ! k) (14 - i)). i \<leftarrow> [0..<7]] @
          [(4 * ver + 9, 8, 1)]))) (r, c) of Some v \<Rightarrow> v | None \<Rightarrow> m ! r ! c)" if "r < n" "c < n" for r c
    unfolding placeFormat_def Let_def len by (rule setModules_lookup [OF sq that])
  note cell = this [unfolded u]
  show "map (\<lambda>(r, c). placeFormat m k ver ! r ! c) formatCells = map (bitOf (FMTM ! k)) (rev [0..<15])"
    unfolding formatCells_def u using ver by (simp add: cell n)
qed


lemma FMTM_codes: "map formatCode [0..<8] = FMTM"
proof -
  have "[0..<8] = [0, 1, 2, 3, 4, 5, 6, 7 :: nat]" by (simp add: upt_rec)
  then show ?thesis by (simp add: formatCode_def FMTM_def push_bit_eq_mult bit_0)
qed

lemma FMTM_facts: "k < 8 \<Longrightarrow> FMTM ! k < 2 ^ 15" "distinct FMTM" "length FMTM = 8"
proof -
  show len: "length FMTM = 8" and "distinct FMTM" by (simp_all add: FMTM_def)
  assume "k < 8"
  then have "FMTM ! k \<in> set FMTM" using len by (metis nth_mem)
  then show "FMTM ! k < 2 ^ 15" by (auto simp: FMTM_def)
qed

lemma find_code: "k < 8 \<Longrightarrow> find (\<lambda>j. formatCode j = FMTM ! k) [0..<8] = Some k"
proof -
  assume k: "k < 8"
  have code: "formatCode j = FMTM ! j" if "j < 8" for j using arg_cong [OF FMTM_codes, of "\<lambda>l. l ! j"] that by simp
  have "formatCode j = FMTM ! k \<longleftrightarrow> j = k" if "j < 8" for j
    using code [OF that] that k FMTM_facts(2,3) nth_eq_iff_index_eq [of FMTM j k] by simp
  then show ?thesis unfolding find_Some_iff using k by (intro exI [of _ k]) auto
qed

lemma bestMask_less: "bestMask mat res < 8"
proof -
  let ?f = "\<lambda>mask (best, bestScore). let sc = penaltyScore (masked mat res mask)
    in if (case bestScore of None \<Rightarrow> True | Some b \<Rightarrow> sc < b) then (mask, Some sc) else (best, bestScore)"
  have "fst st < 8 \<Longrightarrow> set ks \<subseteq> {..<8} \<Longrightarrow> fst (fold ?f ks st) < 8" for ks and st :: "nat \<times> nat option"
    by (induction ks arbitrary: st) (auto simp: Let_def split: prod.split)
  from this [of "(0, None)" "[0..<8]"] show ?thesis by (simp add: bestMask_def lessThan_atLeast0)
qed

lemma moduleAt_shown:
  "square n m \<Longrightarrow> r < n \<Longrightarrow> c < n \<Longrightarrow> moduleAt (map (map (\<lambda>v. v = 1)) m) (r, c) = (if m ! r ! c = 1 then 1 else 0)"
  by (simp add: moduleAt_def square_def)

lemma readFormat_placed:
  assumes "square n m" "n = 17 + 4 * ver" "1 \<le> ver" "ver \<le> 6" "k < 8"
  shows "readFormat (map (map (\<lambda>v. v = 1)) (placeFormat m k ver)) = Some k"
proof -
  let ?m = "placeFormat m k ver"
  note p = placeFormat_cells [OF assms(1-4)]
  have bit: "bitOf b i = 0 \<or> bitOf b i = 1" for b i by (auto simp: bitOf_div)
  have range: "fst rc < n \<and> snd rc < n" if "rc \<in> set formatCells" for rc using that assms(2) by (auto simp: formatCells_def)
  have cell: "?m ! fst rc ! snd rc \<in> {0, 1}" if "rc \<in> set formatCells" for rc
  proof -
    have "?m ! fst rc ! snd rc \<in> set (map (\<lambda>(r, c). ?m ! r ! c) formatCells)" using that by (force simp: case_prod_beta)
    then obtain i where "?m ! fst rc ! snd rc = bitOf (FMTM ! k) i" unfolding p(3) by auto
    then show ?thesis using bit [of "FMTM ! k" i] by simp
  qed
  have "map (moduleAt (map (map (\<lambda>v. v = 1)) ?m)) formatCells = map (\<lambda>(r, c). ?m ! r ! c) formatCells"
  proof (rule map_cong [OF refl])
    fix rc assume rc: "rc \<in> set formatCells"
    show "moduleAt (map (map (\<lambda>v. v = 1)) ?m) rc = (case rc of (r, c) \<Rightarrow> ?m ! r ! c)"
      using moduleAt_shown [OF p(1), of "fst rc" "snd rc"] range [OF rc] cell [OF rc] by (auto simp: case_prod_beta)
  qed
  then have "valOf (map (moduleAt (map (map (\<lambda>v. v = 1)) ?m)) formatCells) = FMTM ! k"
    unfolding p(3) using FMTM_facts(1) [OF assms(5)] valOf_bits [of "FMTM ! k" 15] by simp
  then show ?thesis using find_code [OF assms(5)] by (simp add: readFormat_def)
qed

lemma flip_back: "x < 2 \<Longrightarrow> ((if (if b then x XOR 1 else x) = 1 then 1 else 0) + (if b then 1 else 0)) mod 2 = (x :: nat)"
proof -
  assume "x < 2"
  then have "x = 0 \<or> x = 1" by auto
  then show ?thesis by auto
qed

lemma masked_square:
  assumes "1 \<le> ver" "ver \<le> 6" and n: "n = 17 + 4 * ver" and fm: "functionModules ver = (mat0, res)"
    and pc: "placeColumns res bits n True (n - 1) (mat0, 0) = (mat, bi)"
  shows "square n mat \<and> square n (applyMask res k mat)"
proof -
  have odd: "odd n" "7 < n" by (simp_all add: n)
  have cells: "\<forall>(r, c) \<in> set (zigzag n). r < n \<and> c < n" using zigzag_set [OF odd] by auto
  have "square n mat0" using functionModules_res [OF assms(1-4)] by blast
  then have "square n mat" using placeCells [OF zigzag_distinct [OF odd(1)] cells _ refl pc [unfolded placeColumns_zigzag [OF odd]]] by blast
  then show ?thesis using applyMask_nth(2) [of n mat 0 0] odd by simp
qed

lemma readData_placed:
  assumes ver: "1 \<le> ver" "ver \<le> 6" and n: "n = 17 + 4 * ver" and fm: "functionModules ver = (mat0, res)"
    and pc: "placeColumns res bits n True (n - 1) (mat0, 0) = (mat, bi)" and k: "k < 8" and bits: "areBits bits"
  shows "readData (map (map (\<lambda>v. v = 1)) (placeFormat (applyMask res k mat) k ver)) ver k =
    map (\<lambda>i. if i < length bits then bits ! i else 0) [0..<length (dataModules ver)]"
proof -
  let ?m = "placeFormat (applyMask res k mat) k ver"
  have odd: "odd n" "7 < n" by (simp_all add: n)
  note f = functionModules_res [OF ver n fm]
  have cells: "\<forall>(r, c) \<in> set (zigzag n). r < n \<and> c < n" using zigzag_set [OF odd] by auto
  have free: "dataModules ver = filter (\<lambda>(r, c). res ! r ! c = 0) (zigzag n)"
    unfolding dataModules_def n [symmetric]
  proof (rule filter_cong [OF refl])
    fix rc assume "rc \<in> set (zigzag n)"
    then have "fst rc < n" "snd rc < n" using cells by auto
    then show "(\<not> isFunction ver rc) = (case rc of (r, c) \<Rightarrow> res ! r ! c = 0)" using f by (cases rc) simp
  qed
  have put: "square n mat" "map (\<lambda>(r, c). mat ! r ! c) (dataModules ver) = map (\<lambda>i. if i < length bits then bits ! i else 0) [0..<length (dataModules ver)]"
    using placeCells [OF zigzag_distinct [OF odd(1)] cells conjunct1 [OF f] free pc [unfolded placeColumns_zigzag [OF odd]]] by simp_all
  have sq: "square n (applyMask res k mat)" using masked_square [OF ver n fm pc] by blast
  have "readData (map (map (\<lambda>v. v = 1)) ?m) ver k = map (\<lambda>(r, c). mat ! r ! c) (dataModules ver)"
    unfolding readData_def
  proof (rule map_cong [OF refl])
    fix rc assume rc: "rc \<in> set (dataModules ver)"
    obtain r c where p: "rc = (r, c)" by (cases rc)
    have in_range: "r < n" "c < n" and fn: "\<not> isFunction ver (r, c)" and res: "res ! r ! c = 0"
    proof -
      have z: "(r, c) \<in> set (zigzag n)" and "res ! r ! c = 0" using rc unfolding p free by simp_all
      moreover from z have "r < n" "c < n" using cells by auto
      ultimately show "r < n" "c < n" "\<not> isFunction ver (r, c)" "res ! r ! c = 0" using f by (auto split: if_splits)
    qed
    have "mat ! r ! c \<in> set (map (\<lambda>(r, c). mat ! r ! c) (dataModules ver))" using rc p by (force simp: case_prod_beta)
    then obtain i where i: "mat ! r ! c = (if i < length bits then bits ! i else 0)" unfolding put(2) set_map by blast
    have bit: "mat ! r ! c < 2"
    proof (cases "i < length bits")
      case True
      then have "bits ! i \<in> {0, 1}" using bits nth_mem [OF True] unfolding areBits_def by blast
      then show ?thesis using i True by auto
    qed (simp add: i)
    have "?m ! r ! c = (if maskFns k r c then mat ! r ! c XOR 1 else mat ! r ! c)"
      using placeFormat_cells(2) [OF sq n ver in_range fn] applyMask_nth(1) [OF put(1) in_range] res by simp
    then have "moduleAt (map (map (\<lambda>v. v = 1)) ?m) rc = (if (if maskFns k r c then mat ! r ! c XOR 1 else mat ! r ! c) = 1 then 1 else 0)"
      using moduleAt_shown [OF placeFormat_cells(1) [OF sq n ver] in_range] p by simp
    then show "(moduleAt (map (map (\<lambda>v. v = 1)) ?m) rc + (if maskFns k (fst rc) (snd rc) then 1 else 0)) mod 2 = (case rc of (r, c) \<Rightarrow> mat ! r ! c)"
      using flip_back [OF bit, of "maskFns k r c"] p by simp
  qed
  then show ?thesis unfolding put(2) .
qed


section \<open>A symbol reads back\<close>

lemma capacity_fits:
  assumes "1 \<le> ver" "ver \<le> 6" "groups (the (ECCM ! ver)) = [(nb, nd)]"
  shows "8 * (nb * (nd + ec (the (ECCM ! ver)))) \<le> length (dataModules ver)"
proof -
  have v: "ver \<in> {1, 2, 3, 4, 5, 6}" using assms(1,2) by auto
  have "length (dataModules ver) = (17 + 4 * ver) ^ 2 - (225 + 8 * ver + (if ver = 1 then 0 else 25))"
    by (rule dataModules_count [OF assms(1,2)])
  then show ?thesis using v assms(3) by (elim insertE emptyE; simp add: ECCM_def)
qed

lemma scan_blocks:
  assumes "length data = nb * nd" "0 < nb" "ec info \<le> 255" and groups: "groups info = [(nb, nd)]"
    and fb: "fb = interleave (makeBlocks data info)" and blocks: "blocks = map (readBlock fb nb nd (ec info)) [0..<nb]"
  shows "length fb = nb * (nd + ec info)" "list_all (\<lambda>b. isCodeword b (ec info)) blocks" "concat (map (take nd) blocks) = data"
proof -
  let ?d = "\<lambda>j. take nd (drop (j * nd) data)"
  let ?B = "makeBlocks data info"
  have B: "?B = map (\<lambda>j. \<lparr>blk_d = ?d j, blk_e = rsEncode (?d j) (ec info)\<rparr>) [0..<nb]" by (rule makeBlocks_single [OF groups])
  have len: "length (?d j) = nd" if "j < nb" for j
  proof -
    have "Suc j * nd \<le> nb * nd" using that by (intro mult_le_mono1) simp
    then show ?thesis using assms(1) by simp
  qed
  have shape: "\<forall>b \<in> set ?B. length (blk_d b) = nd \<and> length (blk_e b) = ec info" "?B \<noteq> []" "length ?B = nb"
    using len rsEncode_length [OF assms(3)] assms(2) by (auto simp: B)
  note rb = readBlock_interleave [OF shape(2,1), unfolded shape(3), folded fb]
  show "length fb = nb * (nd + ec info)" using rb(2) assms(2) by blast
  have bl: "blocks = map (\<lambda>j. ?d j @ rsEncode (?d j) (ec info)) [0..<nb]"
    unfolding blocks using rb(1) by (intro map_cong) (auto simp: B)
  show "list_all (\<lambda>b. isCodeword b (ec info)) blocks" using rsEncode_codeword [OF assms(3)] by (simp add: bl list_all_iff)
  have "map (take nd) blocks = map ?d [0..<nb]" unfolding bl using len by (simp add: comp_def)
  then show "concat (map (take nd) blocks) = data" using concat_slices [OF assms(1)] by simp
qed

lemma byteAt_prefix:
  assumes "8 * length bs \<le> L"
  shows "map (\<lambda>i. byteAt (map (\<lambda>i. if i < length (concat (map bits8 bs) @ q) then (concat (map bits8 bs) @ q) ! i else 0) [0..<L]) (8 * i)) [0..<length bs] = bs"
proof -
  let ?c = "concat (map bits8 bs)"
  let ?l = "map (\<lambda>i. if i < length (?c @ q) then (?c @ q) ! i else 0) [0..<L]"
  have "take (length ?c) ?l = ?c" using assms by (intro nth_equalityI) (simp_all add: nth_append)
  then have l: "?l = ?c @ drop (length ?c) ?l" by (metis append_take_drop_id)
  have "byteAt ?l (8 * i) = bs ! i" if "i < length bs" for i
    by (subst l) (use byteAt_chunk [of i bs "8 * i" "[]"] that in simp)
  then show ?thesis by (intro nth_equalityI) (simp_all only: length_map length_upt nth_map_upt, simp_all)
qed

lemma drawQR_scans:
  assumes "length bytes \<le> 106"
  shows "scanQR (map (map (\<lambda>v. v = 1)) (drawQR bytes)) = Some bytes"
proof -
  define ver where "ver = selectVersion (length bytes + 2) 1"
  define info where "info = the (ECCM ! ver)"
  define n where n: "n = 17 + 4 * ver"
  have cap6: "capacity (the (ECCM ! 6)) = 108" by (simp add: ECCM_def capacity_def)
  have ver: "1 \<le> ver" "ver \<le> 6" and fits: "length bytes + 2 \<le> capacity info"
    using selectVersion_fits [of "length bytes + 2" 1] selectVersion_bounds [of 1 "length bytes + 2"] assms
    by (simp_all add: ver_def info_def cap6)
  obtain nb nd where groups: "groups info = [(nb, nd)]" and info: "0 < nb" "ec info \<le> 255" "capacity info = nb * nd"
    using ECCM_versions [of ver] ver by (auto simp: info_def)
  define data where "data = toBytes (encodeBits bytes (capacity info))"
  define fb where "fb = interleave (makeBlocks data info)"
  obtain mat0 res where fm: "functionModules ver = (mat0, res)" by fastforce
  obtain mat bi where pc: "placeColumns res (finalBits fb ver) n True (n - 1) (mat0, 0) = (mat, bi)" by fastforce
  define best where "best = bestMask mat res"
  let ?m = "map (map (\<lambda>v. v = 1)) (placeFormat (applyMask res best mat) best ver)"
  have need: "(4 + 8 + 8 * length bytes + 4 + 7) div 8 = length bytes + 2" by simp
  have draw: "drawQR bytes = placeFormat (applyMask res best mat) best ver"
    unfolding drawQR_def need ver_def [symmetric] info_def [symmetric] n [symmetric] data_def [symmetric] fb_def [symmetric] Let_def fm prod.case pc best_def ..
  obtain rest where enc: "areBits (encodeBits bytes (capacity info))" "length (encodeBits bytes (capacity info)) = 8 * capacity info"
    by (rule encodeBits_shape [OF fits])
  have len: "length data = nb * nd" using bits_toBytes [OF enc] info by (simp add: data_def)
  note sb = scan_blocks [OF len info(1,2) groups fb_def refl]
  have bits: "areBits (finalBits fb ver)" by (simp add: finalBits_def areBits_concat)
  have mask: "best < 8" by (simp add: best_def bestMask_less)
  have room: "8 * length fb \<le> length (dataModules ver)" using capacity_fits [OF ver] groups sb(1) by (simp add: info_def)
  have cw: "map (\<lambda>i. byteAt (readData ?m ver best) (8 * i)) [0..<nb * (nd + ec info)] = fb"
    unfolding readData_placed [OF ver n fm pc mask bits] using byteAt_prefix [OF room, of "replicate (REMBITS ! ver) 0"] sb(1)
    by (simp only: finalBits_def)
  have sq: "square n (placeFormat (applyMask res best mat) best ver)" and "readFormat ?m = Some best"
    using masked_square [OF ver n fm pc] placeFormat_cells(1) [OF _ n ver] readFormat_placed [OF _ n ver mask] by blast+
  moreover have "(length ?m - 17) div 4 = ver" using sq by (simp add: square_def n)
  ultimately show ?thesis
    unfolding draw scanQR_def Let_def using readPayload_encoded [OF fits] assms
    by (simp add: info_def [symmetric] groups cw sb(2,3) data_def [symmetric] del: One_nat_def map_map)
qed


section \<open>The shape of a symbol\<close>

lemma square_functionModules: "functionModules ver = (mat, res) \<Longrightarrow> square (17 + 4 * ver) mat"
proof -
  let ?n = "17 + 4 * ver"
  assume fm: "functionModules ver = (mat, res)"
  have "square ?n m \<Longrightarrow> square ?n (fst (fold (\<lambda>(cy, cx) (mat, res). if inFinderArea cy cx sz then (mat, res)
        else (placeAlign mat cy cx, reserve (List.product [cy - 2..<cy + 3] [cx - 2..<cx + 3]) res)) cs (m, r)))" for m r sz and cs :: "(nat \<times> nat) list"
    by (induction cs arbitrary: m r) (auto simp: square_places)
  then have al: "square ?n m \<Longrightarrow> square ?n (fst (placeAligns ver sz (m, r)))" for m r sz by (simp add: placeAligns_def)
  let ?mat2 = "setModules (concat (map (\<lambda>i. [(6, i, if i mod 2 = 0 then 1 else 0), (i, 6, if i mod 2 = 0 then 1 else 0)]) [8..<?n - 8]))
    (placeFinder (placeFinder (placeFinder (mkMat ?n) 0 0) 0 (int ?n - 7)) (int ?n - 7) 0)"
  have sq: "square ?n ?mat2" by (intro square_setModules square_places square_mkMat)
  have "\<exists>r. mat = setModule (4 * ver + 9) 8 1 (fst (placeAligns ver ?n (?mat2, r)))"
    using fm unfolding functionModules_def Let_def by (simp only: case_prod_beta prod.inject fst_conv) blast
  then show "square ?n mat" using al [OF sq] square_setModule by blast
qed

lemma square_placeCells: "square n mat \<Longrightarrow> square n (fst (fold (placeCell res bits) ps (mat, bi)))"
  by (induction ps arbitrary: mat bi) (auto simp: placeCell_def square_setModule split: prod.splits)

lemma drawQR_square:
  assumes "ver = selectVersion (length bytes + 2) 1"
  shows "square (17 + 4 * ver) (drawQR bytes) \<and> 1 \<le> ver \<and> ver \<le> 7"
proof -
  define n where n: "n = 17 + 4 * ver"
  have odd: "odd n" "7 < n" by (simp_all add: n)
  have need: "(4 + 8 + 8 * length bytes + 4 + 7) div 8 = length bytes + 2" by simp
  obtain mat0 res where fm: "functionModules ver = (mat0, res)" by fastforce
  have "square n mat0" using square_functionModules [OF fm] by (simp add: n)
  then have "square n (fst (placeColumns res bits n True (n - 1) (mat0, 0)))" for bits
    unfolding placeColumns_zigzag [OF odd] by (rule square_placeCells)
  moreover have "square n m \<Longrightarrow> square n (placeFormat (applyMask res k m) k ver)" for k m
    using applyMask_nth(2) [of n m 0 0] odd by (simp add: placeFormat_def Let_def square_setModules)
  ultimately have sq: "square n (placeFormat (applyMask res k (fst (placeColumns res bits n True (n - 1) (mat0, 0)))) k ver)" for bits k by blast
  have "\<exists>bits k. drawQR bytes = placeFormat (applyMask res k (fst (placeColumns res bits n True (n - 1) (mat0, 0)))) k ver"
    unfolding drawQR_def need assms [symmetric] n [symmetric] Let_def fm case_prod_beta fst_conv snd_conv by blast
  then show ?thesis using sq selectVersion_bounds [of 1 "length bytes + 2"] assms by (auto simp: n)
qed


section \<open>Properties\<close>

text \<open>C30. Every symbol for a text of at most 106 bytes reads back: a reader that follows the standard
  finds the mask in the format information, collects codewords that pass the error correction
  check, and returns exactly the bytes of the text.\<close>

theorem generateQR_scans:
  assumes "length (utf8 text) \<le> 106"
  shows "scanQR (generateQR text) = Some (utf8 text)"
  unfolding generateQR_def by (rule drawQR_scans [OF assms])

theorem generateQR_scans_witness: "scanQR (generateQR ''grd1qxy'') = Some (utf8 ''grd1qxy'')"
  by (rule generateQR_scans) (simp add: utf8_def utf8_char_def)


end
