(* ===== verification/Storage.thy ===== *)
theory Storage
  imports Vault Keys
begin

text \<open>
  The device storage of the mobile wallet: \<open>mobile/utils/wallet-storage.ts\<close>.

  \<^item> \<open>AsyncStorage\<close> and \<open>SecureStore\<close> are packages, so they are parameters: a \<open>platform\<close> gives
    their operations and SHA-256 of the platform's \<open>crypto\<close>, a \<open>device\<close> holds the contents of
    both stores. \<open>lawful\<close> says what the code relies on: an item reads as it was last set, and
    setting or removing it leaves the items of other keys alone.
  \<^item> \<open>kv_store\<close> is the interface through which the wallet uses a store, interpreted for
    \<open>AsyncStorage\<close> and for the store of secrets, which is \<open>AsyncStorage\<close> in a browser.
    \<open>json_codec\<close> is the interface of a list kept as JSON text under one key.
  \<^item> A text under a key of the wallet that is not JSON of the declared type was not written by
    this code; its cast fails with a \<open>TypeError\<close>.
\<close>

section \<open>Stores and their laws\<close>

record 's kvs =
  kv_getItem :: "'s \<Rightarrow> string \<Rightarrow> string option"
  kv_setItem :: "string \<Rightarrow> string \<Rightarrow> 's \<Rightarrow> 's"
  kv_removeItem :: "string \<Rightarrow> 's \<Rightarrow> 's"

record ('a, 's) platform =
  pf_OS :: string
  pf_AsyncStorage :: "'a kvs"
  pf_SecureStore :: "'s kvs"
  pf_sha256 :: "byte list \<Rightarrow> byte list"

record ('a, 's) device =
  dv_async :: 'a
  dv_secure :: 's

definition kv_laws :: "'s kvs \<Rightarrow> bool" where
  "kv_laws K \<longleftrightarrow>
    (\<forall>s k v k'. kv_getItem K (kv_setItem K k v s) k' = (if k' = k then Some v else kv_getItem K s k')) \<and>
    (\<forall>s k k'. kv_getItem K (kv_removeItem K k s) k' = (if k' = k then None else kv_getItem K s k'))"

definition lawful :: "('a, 's) platform \<Rightarrow> bool" where
  "lawful P \<longleftrightarrow> kv_laws (pf_AsyncStorage P) \<and> kv_laws (pf_SecureStore P)"

definition asyncGet :: "('a, 's) platform \<Rightarrow> string \<Rightarrow> ('a, 's) device \<Rightarrow> string option" where
  "asyncGet P key d = kv_getItem (pf_AsyncStorage P) (dv_async d) key"

definition asyncSet :: "('a, 's) platform \<Rightarrow> string \<Rightarrow> string \<Rightarrow> ('a, 's) device \<Rightarrow> ('a, 's) device" where
  "asyncSet P key val d = d\<lparr>dv_async := kv_setItem (pf_AsyncStorage P) key val (dv_async d)\<rparr>"

definition asyncRemove :: "('a, 's) platform \<Rightarrow> string \<Rightarrow> ('a, 's) device \<Rightarrow> ('a, 's) device" where
  "asyncRemove P key d = d\<lparr>dv_async := kv_removeItem (pf_AsyncStorage P) key (dv_async d)\<rparr>"

definition secureSet :: "('a, 's) platform \<Rightarrow> string \<Rightarrow> string \<Rightarrow> ('a, 's) device \<Rightarrow> ('a, 's) device" where
  "secureSet P key val d =
    (if pf_OS P = ''web'' then asyncSet P key val d
     else d\<lparr>dv_secure := kv_setItem (pf_SecureStore P) key val (dv_secure d)\<rparr>)"

definition secureGet :: "('a, 's) platform \<Rightarrow> string \<Rightarrow> ('a, 's) device \<Rightarrow> string option" where
  "secureGet P key d =
    (if pf_OS P = ''web'' then asyncGet P key d else kv_getItem (pf_SecureStore P) (dv_secure d) key)"

definition secureDelete :: "('a, 's) platform \<Rightarrow> string \<Rightarrow> ('a, 's) device \<Rightarrow> ('a, 's) device" where
  "secureDelete P key d =
    (if pf_OS P = ''web'' then asyncRemove P key d
     else d\<lparr>dv_secure := kv_removeItem (pf_SecureStore P) key (dv_secure d)\<rparr>)"

section \<open>Lists kept as JSON text\<close>

text \<open>The test \<open>x ?\<close> of a string or null.\<close>

fun presentStr :: "string option \<Rightarrow> string option" where
  "presentStr None = None"
| "presentStr (Some s) = (if s = [] then None else Some s)"

definition parseAs :: "(json \<Rightarrow> 'x option) \<Rightarrow> string \<Rightarrow> 'x result" where
  "parseAs dec t = rbind (jsonParse t) (\<lambda>j. case dec j of None \<Rightarrow> Inl TypeError | Some x \<Rightarrow> Inr x)"

definition parseStored :: "(json \<Rightarrow> 'x option) \<Rightarrow> string option \<Rightarrow> 'x list result" where
  "parseStored dec raw = (case presentStr raw of None \<Rightarrow> Inr [] | Some t \<Rightarrow> parseAs (asArr dec) t)"

definition printList :: "('x \<Rightarrow> json) \<Rightarrow> 'x list \<Rightarrow> string" where
  "printList enc xs = stringify (JArr (map enc xs))"

text \<open>An optional member: it is left out when undefined.\<close>

fun optMember :: "string \<Rightarrow> ('v \<Rightarrow> json) \<Rightarrow> 'v option \<Rightarrow> (string \<times> json) list" where
  "optMember k enc None = []"
| "optMember k enc (Some v) = [(k, enc v)]"

definition asOpt :: "json \<Rightarrow> string \<Rightarrow> (json \<Rightarrow> 'v option) \<Rightarrow> 'v option option" where
  "asOpt j k dec = (case field j k of None \<Rightarrow> Some None | Some v \<Rightarrow> map_option Some (dec v))"

section \<open>The wallet\<close>

record WalletAccount =
  wa_id :: string
  wa_name :: string
  wa_address :: string
  wa_publicKey :: string
  wa_accountIndex :: nat
  wa_quantumAddress :: "string option"

record StoredWallet =
  sw_mnemonic :: string
  sw_accounts :: "WalletAccount list"
  sw_activeAccountId :: string

definition K_MNEMONIC :: string where "K_MNEMONIC = ''garuda_wallet_mnemonic''"
definition K_ADDRESS :: string where "K_ADDRESS = ''garuda_wallet_address''"
definition K_ACCOUNTS :: string where "K_ACCOUNTS = ''garuda_accounts_list''"
definition K_QUANTUM_ADDRESS :: string where "K_QUANTUM_ADDRESS = ''garuda_quantum_address''"
definition K_WALLET_EXISTS :: string where "K_WALLET_EXISTS = ''garuda_wallet_exists''"
definition K_PASSWORD_HASH :: string where "K_PASSWORD_HASH = ''garuda_password_hash''"
definition K_PASSWORD_SALT :: string where "K_PASSWORD_SALT = ''garuda_password_salt''"
definition K_ACTIVE :: string where "K_ACTIVE = ''garuda_active_account_id''"
definition K_imported :: "string \<Rightarrow> string" where "K_imported accountId = ''garuda_imported_key_'' @ accountId"

definition walletAccountJson :: "WalletAccount \<Rightarrow> json" where
  "walletAccountJson a =
    JObj ([(''id'', JStr (wa_id a)), (''name'', JStr (wa_name a)), (''address'', JStr (wa_address a)),
           (''publicKey'', JStr (wa_publicKey a)), (''accountIndex'', JNum (int (wa_accountIndex a)) 0)] @
          optMember ''quantumAddress'' JStr (wa_quantumAddress a))"

definition jsonWalletAccount :: "json \<Rightarrow> WalletAccount option" where
  "jsonWalletAccount j =
    (case (Option.bind (field j ''id'') asStr, Option.bind (field j ''name'') asStr,
           Option.bind (field j ''address'') asStr, Option.bind (field j ''publicKey'') asStr,
           Option.bind (field j ''accountIndex'') asNat, asOpt j ''quantumAddress'' asStr) of
       (Some i, Some n, Some a, Some p, Some x, Some q) \<Rightarrow>
         Some \<lparr>wa_id = i, wa_name = n, wa_address = a, wa_publicKey = p, wa_accountIndex = x, wa_quantumAddress = q\<rparr>
     | _ \<Rightarrow> None)"

definition storedAccounts :: "('a, 's) platform \<Rightarrow> ('a, 's) device \<Rightarrow> WalletAccount list result" where
  "storedAccounts P d = parseStored jsonWalletAccount (secureGet P K_ACCOUNTS d)"

definition setAccounts :: "('a, 's) platform \<Rightarrow> WalletAccount list \<Rightarrow> ('a, 's) device \<Rightarrow> ('a, 's) device" where
  "setAccounts P accounts d = secureSet P K_ACCOUNTS (printList walletAccountJson accounts) d"

definition saveWallet :: "('a, 's) platform \<Rightarrow> string \<Rightarrow> WalletAccount \<Rightarrow> ('a, 's) device \<Rightarrow> ('a, 's) device" where
  "saveWallet P mnemonic firstAccount d =
    (let wallet = \<lparr>sw_mnemonic = mnemonic, sw_accounts = [firstAccount], sw_activeAccountId = wa_id firstAccount\<rparr>;
         d1 = secureSet P K_MNEMONIC mnemonic d;
         d2 = setAccounts P (sw_accounts wallet) d1;
         d3 = secureSet P K_ADDRESS (wa_address firstAccount) d2;
         d4 = asyncSet P K_ACTIVE (wa_id firstAccount) d3
     in secureSet P K_WALLET_EXISTS ''true'' d4)"

definition loadWallet :: "('a, 's) platform \<Rightarrow> ('a, 's) device \<Rightarrow> StoredWallet option" where
  "loadWallet P d =
    (case presentStr (secureGet P K_WALLET_EXISTS d) of None \<Rightarrow> None
     | Some _ \<Rightarrow>
         (case presentStr (secureGet P K_MNEMONIC d) of None \<Rightarrow> None
          | Some mnemonic \<Rightarrow>
              (case storedAccounts P d of Inl _ \<Rightarrow> None
               | Inr accounts \<Rightarrow>
                   Some \<lparr>sw_mnemonic = mnemonic, sw_accounts = accounts,
                         sw_activeAccountId =
                           (case presentStr (asyncGet P K_ACTIVE d) of
                              Some activeAccountId \<Rightarrow> activeAccountId
                            | None \<Rightarrow> (case accounts of [] \<Rightarrow> [] | a # _ \<Rightarrow> wa_id a))\<rparr>)))"

definition hasWallet :: "('a, 's) platform \<Rightarrow> ('a, 's) device \<Rightarrow> bool" where
  "hasWallet P d \<longleftrightarrow> secureGet P K_WALLET_EXISTS d = Some ''true''"

definition getActiveAccount :: "('a, 's) platform \<Rightarrow> ('a, 's) device \<Rightarrow> WalletAccount option" where
  "getActiveAccount P d =
    (case loadWallet P d of None \<Rightarrow> None
     | Some wallet \<Rightarrow>
         (case find (\<lambda>a. wa_id a = sw_activeAccountId wallet) (sw_accounts wallet) of
            Some a \<Rightarrow> Some a
          | None \<Rightarrow> (case sw_accounts wallet of [] \<Rightarrow> None | a # _ \<Rightarrow> Some a)))"

definition getMnemonic :: "('a, 's) platform \<Rightarrow> ('a, 's) device \<Rightarrow> string option" where
  "getMnemonic P d = secureGet P K_MNEMONIC d"

definition addAccount :: "('a, 's) platform \<Rightarrow> WalletAccount \<Rightarrow> ('a, 's) device \<Rightarrow> unit result \<times> ('a, 's) device" where
  "addAccount P account d =
    (case storedAccounts P d of Inl e \<Rightarrow> (Inl e, d)
     | Inr accounts \<Rightarrow> (Inr (), setAccounts P (accounts @ [account]) d))"

definition setActiveAccount :: "('a, 's) platform \<Rightarrow> string \<Rightarrow> ('a, 's) device \<Rightarrow> ('a, 's) device" where
  "setActiveAccount P accountId d = asyncSet P K_ACTIVE accountId d"

fun renameFirst :: "string \<Rightarrow> string \<Rightarrow> WalletAccount list \<Rightarrow> WalletAccount list option" where
  "renameFirst accountId newName [] = None"
| "renameFirst accountId newName (a # as) =
    (if wa_id a = accountId then Some (a\<lparr>wa_name := newName\<rparr> # as)
     else map_option (\<lambda>as'. a # as') (renameFirst accountId newName as))"

definition updateAccountName ::
    "('a, 's) platform \<Rightarrow> string \<Rightarrow> string \<Rightarrow> ('a, 's) device \<Rightarrow> unit result \<times> ('a, 's) device" where
  "updateAccountName P accountId newName d =
    (case storedAccounts P d of Inl e \<Rightarrow> (Inl e, d)
     | Inr accounts \<Rightarrow>
         (case renameFirst accountId newName accounts of
            None \<Rightarrow> (Inr (), d)
          | Some accounts' \<Rightarrow> (Inr (), setAccounts P accounts' d)))"

definition removeAccount :: "('a, 's) platform \<Rightarrow> string \<Rightarrow> ('a, 's) device \<Rightarrow> unit result \<times> ('a, 's) device" where
  "removeAccount P accountId d =
    (case storedAccounts P d of Inl e \<Rightarrow> (Inl e, d)
     | Inr accounts \<Rightarrow>
         if length accounts \<le> 1 then (Inr (), d)
         else let remaining = filter (\<lambda>a. wa_id a \<noteq> accountId) accounts;
                  d1 = setAccounts P remaining d
              in if asyncGet P K_ACTIVE d1 = Some accountId then
                   (case remaining of [] \<Rightarrow> (Inl TypeError, d1)
                    | a # _ \<Rightarrow> (Inr (), asyncSet P K_ACTIVE (wa_id a) d1))
                 else (Inr (), d1))"

section \<open>The password\<close>

definition stretchPassword :: "('a, 's) platform \<Rightarrow> string \<Rightarrow> string \<Rightarrow> string result" where
  "stretchPassword P password saltHex =
    (let pwBytes = utf8 password; matches = matchPairs saltHex
     in if matches = [] then Inl TypeError
        else let saltBytes = map (\<lambda>h. storeByte (parseInt16 h)) matches;
                 combined = pwBytes @ saltBytes;
                 hash = pf_sha256 P combined
             in Inr (toHex ((pf_sha256 P ^^ 99999) hash)))"

definition randomHex32 :: "byte list \<Rightarrow> string" where
  "randomHex32 buf = toHex buf"

definition savePasswordHash ::
    "('a, 's) platform \<Rightarrow> byte list \<Rightarrow> string \<Rightarrow> ('a, 's) device \<Rightarrow> unit result \<times> ('a, 's) device" where
  "savePasswordHash P buf password d =
    (let saltHex = randomHex32 buf
     in case stretchPassword P password saltHex of Inl e \<Rightarrow> (Inl e, d)
        | Inr hashHex \<Rightarrow> (Inr (), secureSet P K_PASSWORD_HASH hashHex (secureSet P K_PASSWORD_SALT saltHex d)))"

definition verifyPassword :: "('a, 's) platform \<Rightarrow> string \<Rightarrow> ('a, 's) device \<Rightarrow> bool result" where
  "verifyPassword P password d =
    (case (presentStr (secureGet P K_PASSWORD_SALT d), presentStr (secureGet P K_PASSWORD_HASH d)) of
       (Some saltHex, Some stored) \<Rightarrow> rbind (stretchPassword P password saltHex) (\<lambda>hashHex. Inr (hashHex = stored))
     | _ \<Rightarrow> Inr False)"

definition hasPassword :: "('a, 's) platform \<Rightarrow> ('a, 's) device \<Rightarrow> bool" where
  "hasPassword P d \<longleftrightarrow> presentStr (secureGet P K_PASSWORD_HASH d) \<noteq> None"

definition saveQuantumAddress :: "('a, 's) platform \<Rightarrow> string \<Rightarrow> ('a, 's) device \<Rightarrow> ('a, 's) device" where
  "saveQuantumAddress P address d = secureSet P K_QUANTUM_ADDRESS address d"

definition getQuantumAddress :: "('a, 's) platform \<Rightarrow> ('a, 's) device \<Rightarrow> string option" where
  "getQuantumAddress P d = secureGet P K_QUANTUM_ADDRESS d"

definition saveImportedKey :: "('a, 's) platform \<Rightarrow> string \<Rightarrow> string \<Rightarrow> ('a, 's) device \<Rightarrow> ('a, 's) device" where
  "saveImportedKey P accountId privateKeyHex d = secureSet P (K_imported accountId) privateKeyHex d"

definition getImportedKey :: "('a, 's) platform \<Rightarrow> string \<Rightarrow> ('a, 's) device \<Rightarrow> string option" where
  "getImportedKey P accountId d = secureGet P (K_imported accountId) d"

definition clearWallet :: "('a, 's) platform \<Rightarrow> ('a, 's) device \<Rightarrow> ('a, 's) device" where
  "clearWallet P d =
    asyncRemove P K_ACTIVE
      (fold (secureDelete P)
        [K_MNEMONIC, K_ACCOUNTS, K_ADDRESS, K_QUANTUM_ADDRESS, K_PASSWORD_HASH, K_PASSWORD_SALT, K_WALLET_EXISTS] d)"

section \<open>The interface of a store\<close>

locale kv_store =
  fixes ok :: bool
    and get :: "string \<Rightarrow> 'd \<Rightarrow> string option"
    and put :: "string \<Rightarrow> string \<Rightarrow> 'd \<Rightarrow> 'd"
    and del :: "string \<Rightarrow> 'd \<Rightarrow> 'd"
  assumes get_put: "ok \<Longrightarrow> get k' (put k v d) = (if k' = k then Some v else get k' d)"
    and get_del: "ok \<Longrightarrow> get k' (del k d) = (if k' = k then None else get k' d)"
begin

lemma get_dels: "ok \<Longrightarrow> get k (fold del ks d) = (if k \<in> set ks then None else get k d)"
  by (induction ks arbitrary: d) (auto simp: get_del)

end

lemma lawfulD:
  assumes "lawful P"
  shows "kv_getItem (pf_AsyncStorage P) (kv_setItem (pf_AsyncStorage P) k v a) k' =
           (if k' = k then Some v else kv_getItem (pf_AsyncStorage P) a k')"
    and "kv_getItem (pf_AsyncStorage P) (kv_removeItem (pf_AsyncStorage P) k a) k' =
           (if k' = k then None else kv_getItem (pf_AsyncStorage P) a k')"
    and "kv_getItem (pf_SecureStore P) (kv_setItem (pf_SecureStore P) k v s) k' =
           (if k' = k then Some v else kv_getItem (pf_SecureStore P) s k')"
    and "kv_getItem (pf_SecureStore P) (kv_removeItem (pf_SecureStore P) k s) k' =
           (if k' = k then None else kv_getItem (pf_SecureStore P) s k')"
  using assms by (simp_all add: lawful_def kv_laws_def)

interpretation asyncKV: kv_store "lawful P" "asyncGet P" "asyncSet P" "asyncRemove P" for P :: "('a, 's) platform"
  by unfold_locales (simp_all add: asyncGet_def asyncSet_def asyncRemove_def lawfulD)

interpretation secureKV: kv_store "lawful P" "secureGet P" "secureSet P" "secureDelete P" for P :: "('a, 's) platform"
  by unfold_locales
     (simp_all add: secureGet_def secureSet_def secureDelete_def asyncKV.get_put asyncKV.get_del lawfulD)

text \<open>In a browser the two stores are one, so an operation on one of them is seen through the
  other, but never under another key.\<close>

lemma secure_async_frame:
  assumes "lawful P" "k' \<noteq> k"
  shows "secureGet P k' (asyncSet P k v d) = secureGet P k' d"
    and "secureGet P k' (asyncRemove P k d) = secureGet P k' d"
    and "asyncGet P k' (secureSet P k v d) = asyncGet P k' d"
    and "asyncGet P k' (secureDelete P k d) = asyncGet P k' d"
  using assms asyncKV.get_put [of P] asyncKV.get_del [of P]
  by (auto simp: secureGet_def secureSet_def secureDelete_def asyncSet_def asyncRemove_def asyncGet_def)

lemmas store_laws =
  asyncKV.get_put asyncKV.get_del secureKV.get_put secureKV.get_del secure_async_frame

lemmas key_defs = K_MNEMONIC_def K_ADDRESS_def K_ACCOUNTS_def K_QUANTUM_ADDRESS_def K_WALLET_EXISTS_def
  K_PASSWORD_HASH_def K_PASSWORD_SALT_def K_ACTIVE_def K_imported_def

section \<open>The interface of stored lists\<close>

locale json_codec =
  fixes enc :: "'x \<Rightarrow> json" and dec :: "json \<Rightarrow> 'x option" and fits :: "'x \<Rightarrow> bool"
  assumes dec_enc: "dec (enc x) = Some x"
    and wf_enc: "fits x \<Longrightarrow> wf_json (enc x)"
begin

lemma parse_one: "fits x \<Longrightarrow> parseAs dec (stringify (enc x)) = Inr x"
  by (simp add: parseAs_def json_roundtrip wf_enc dec_enc)

lemma parse_printed: "list_all fits xs \<Longrightarrow> parseStored dec (Some (printList enc xs)) = Inr xs"
  using json_roundtrip [of "JArr (map enc xs)"]
  by (simp add: parseStored_def printList_def parseAs_def list_all_iff wf_enc omap_map dec_enc)

end

definition fitsAccount :: "WalletAccount \<Rightarrow> bool" where
  "fitsAccount a \<longleftrightarrow> wa_accountIndex a < 10 ^ 21"

interpretation accounts: json_codec walletAccountJson jsonWalletAccount fitsAccount
proof
  show "jsonWalletAccount (walletAccountJson a) = Some a" for a
    by (cases "wa_quantumAddress a") (simp_all add: walletAccountJson_def jsonWalletAccount_def asOpt_def)
  show "fitsAccount a \<Longrightarrow> wf_json (walletAccountJson a)" for a
    by (cases "wa_quantumAddress a") (simp_all add: walletAccountJson_def fitsAccount_def)
qed

section \<open>What the operations do to a wallet\<close>

text \<open>The abstract wallet: its accounts and the id of the active one. The other operations of the
  module leave it unchanged.\<close>

record wallet_view =
  wv_accounts :: "WalletAccount list"
  wv_active :: string

datatype wallet_op =
    AddAccount WalletAccount
  | SetActive string
  | Rename string string
  | Remove string
  | Password "byte list" string
  | Quantum string
  | Imported string string

fun spec_op :: "wallet_op \<Rightarrow> wallet_view \<Rightarrow> wallet_view" where
  "spec_op (AddAccount a) w = w\<lparr>wv_accounts := wv_accounts w @ [a]\<rparr>"
| "spec_op (SetActive i) w = w\<lparr>wv_active := i\<rparr>"
| "spec_op (Rename i n) w =
    (case renameFirst i n (wv_accounts w) of None \<Rightarrow> w | Some as \<Rightarrow> w\<lparr>wv_accounts := as\<rparr>)"
| "spec_op (Remove i) w =
    (if length (wv_accounts w) \<le> 1 then w
     else let rest = filter (\<lambda>a. wa_id a \<noteq> i) (wv_accounts w)
          in w\<lparr>wv_accounts := rest, wv_active := (if wv_active w = i \<and> rest \<noteq> [] then wa_id (hd rest) else wv_active w)\<rparr>)"
| "spec_op _ w = w"

fun run_op :: "('a, 's) platform \<Rightarrow> wallet_op \<Rightarrow> ('a, 's) device \<Rightarrow> ('a, 's) device" where
  "run_op P (AddAccount a) d = snd (addAccount P a d)"
| "run_op P (SetActive i) d = setActiveAccount P i d"
| "run_op P (Rename i n) d = snd (updateAccountName P i n d)"
| "run_op P (Remove i) d = snd (removeAccount P i d)"
| "run_op P (Password buf p) d = snd (savePasswordHash P buf p d)"
| "run_op P (Quantum a) d = saveQuantumAddress P a d"
| "run_op P (Imported i k) d = saveImportedKey P i k d"

fun fits_op :: "wallet_op \<Rightarrow> bool" where
  "fits_op (AddAccount a) \<longleftrightarrow> fitsAccount a"
| "fits_op _ \<longleftrightarrow> True"

definition shown :: "string \<Rightarrow> wallet_view \<Rightarrow> StoredWallet" where
  "shown mnemonic w =
    \<lparr>sw_mnemonic = mnemonic, sw_accounts = wv_accounts w,
     sw_activeAccountId =
       (if wv_active w \<noteq> [] then wv_active w else case wv_accounts w of [] \<Rightarrow> [] | a # _ \<Rightarrow> wa_id a)\<rparr>"

definition keeps :: "('a, 's) platform \<Rightarrow> string \<Rightarrow> wallet_view \<Rightarrow> ('a, 's) device \<Rightarrow> bool" where
  "keeps P mnemonic w d \<longleftrightarrow>
    secureGet P K_WALLET_EXISTS d = Some ''true'' \<and> secureGet P K_MNEMONIC d = Some mnemonic \<and>
    secureGet P K_ACCOUNTS d = Some (printList walletAccountJson (wv_accounts w)) \<and>
    asyncGet P K_ACTIVE d = Some (wv_active w) \<and> list_all fitsAccount (wv_accounts w)"

lemma keeps_save:
  assumes "lawful P" "fitsAccount a"
  shows "keeps P mnemonic \<lparr>wv_accounts = [a], wv_active = wa_id a\<rparr> (saveWallet P mnemonic a d)"
  using assms by (simp add: keeps_def saveWallet_def setAccounts_def Let_def store_laws key_defs)

lemma keeps_accounts: "keeps P mnemonic w d \<Longrightarrow> storedAccounts P d = Inr (wv_accounts w)"
  by (simp add: keeps_def storedAccounts_def accounts.parse_printed)

lemma keeps_load: "keeps P mnemonic w d \<Longrightarrow> mnemonic \<noteq> [] \<Longrightarrow> loadWallet P d = Some (shown mnemonic w)"
  using keeps_accounts [of P mnemonic w d] by (simp add: loadWallet_def shown_def keeps_def)

lemma keeps_setAccounts:
  assumes "lawful P" "keeps P mnemonic w d" "list_all fitsAccount as"
  shows "keeps P mnemonic (w\<lparr>wv_accounts := as\<rparr>) (setAccounts P as d)"
  using assms by (simp add: keeps_def setAccounts_def store_laws key_defs)

lemma keeps_active: "lawful P \<Longrightarrow> keeps P mnemonic w d \<Longrightarrow> keeps P mnemonic (w\<lparr>wv_active := i\<rparr>) (asyncSet P K_ACTIVE i d)"
  by (simp add: keeps_def store_laws key_defs)

lemma keeps_other:
  assumes "lawful P" "keeps P mnemonic w d" "k \<notin> {K_WALLET_EXISTS, K_MNEMONIC, K_ACCOUNTS, K_ACTIVE}"
  shows "keeps P mnemonic w (secureSet P k v d)"
  using assms by (auto simp: keeps_def store_laws)

lemma fits_rename: "renameFirst i n as = Some as' \<Longrightarrow> list_all fitsAccount as \<Longrightarrow> list_all fitsAccount as'"
  by (induction as arbitrary: as') (auto simp: fitsAccount_def split: if_splits)

lemma keeps_remove:
  assumes "lawful P" "keeps P mnemonic w d"
  shows "keeps P mnemonic (spec_op (Remove i) w) (snd (removeAccount P i d))"
proof (cases "length (wv_accounts w) \<le> 1")
  case True
  then show ?thesis using assms by (simp add: removeAccount_def keeps_accounts)
next
  case False
  define rest where "rest = filter (\<lambda>a. wa_id a \<noteq> i) (wv_accounts w)"
  let ?d = "setAccounts P rest d"
  have "list_all fitsAccount rest"
    using assms(2) by (auto simp: keeps_def list_all_iff rest_def)
  with assms have k: "keeps P mnemonic (w\<lparr>wv_accounts := rest\<rparr>) ?d"
    by (intro keeps_setAccounts)
  then have a: "asyncGet P K_ACTIVE ?d = Some (wv_active w)" by (simp add: keeps_def)
  have run: "removeAccount P i d =
      (if wv_active w = i then case rest of [] \<Rightarrow> (Inl TypeError, ?d) | b # _ \<Rightarrow> (Inr (), asyncSet P K_ACTIVE (wa_id b) ?d)
       else (Inr (), ?d))"
    using False a by (simp add: removeAccount_def keeps_accounts [OF assms(2)] Let_def flip: rest_def)
  have spec: "spec_op (Remove i) w =
      w\<lparr>wv_accounts := rest, wv_active := (if wv_active w = i \<and> rest \<noteq> [] then wa_id (hd rest) else wv_active w)\<rparr>"
    using False by (simp add: Let_def flip: rest_def)
  from k keeps_active [OF assms(1) k, of "wa_id (hd rest)"] show ?thesis
    unfolding run spec by (cases rest) auto
qed

lemma keeps_op:
  assumes "lawful P" "keeps P mnemonic w d" "fits_op op"
  shows "keeps P mnemonic (spec_op op w) (run_op P op d)"
proof (cases op)
  case (AddAccount a)
  have "list_all fitsAccount (wv_accounts w @ [a])"
    using assms AddAccount by (simp add: keeps_def)
  with assms AddAccount show ?thesis
    by (simp add: addAccount_def keeps_accounts keeps_setAccounts)
next
  case (Rename i n)
  have "list_all fitsAccount (wv_accounts w)" using assms by (simp add: keeps_def)
  with assms Rename show ?thesis
    by (auto simp: updateAccountName_def keeps_accounts intro: keeps_setAccounts fits_rename split: option.splits)
next
  case (Remove i)
  with keeps_remove [OF assms(1,2), of i] show ?thesis by simp
qed (use assms in \<open>auto simp: setActiveAccount_def savePasswordHash_def saveQuantumAddress_def saveImportedKey_def Let_def
      key_defs intro!: keeps_active [unfolded key_defs] keeps_other split: sum.splits\<close>)

lemma keeps_ops:
  "lawful P \<Longrightarrow> keeps P mnemonic w d \<Longrightarrow> list_all fits_op ops \<Longrightarrow>
   keeps P mnemonic (fold spec_op ops w) (fold (run_op P) ops d)"
  by (induction ops arbitrary: w d) (auto intro: keeps_op)

section \<open>Resetting the wallet\<close>

lemma clearWallet_secure:
  assumes "lawful P"
  shows "secureGet P k (clearWallet P d) =
    (if k \<in> {K_MNEMONIC, K_ACCOUNTS, K_ADDRESS, K_QUANTUM_ADDRESS, K_PASSWORD_HASH, K_PASSWORD_SALT, K_WALLET_EXISTS}
     then None else secureGet P k (asyncRemove P K_ACTIVE d))"
proof (cases "k = K_ACTIVE")
  case True
  have "secureGet P K_ACTIVE (asyncRemove P K_ACTIVE e) = (if pf_OS P = ''web'' then None else secureGet P K_ACTIVE e)" for e
    using asyncKV.get_del [OF assms] by (simp add: secureGet_def asyncRemove_def)
  then show ?thesis using True
    by (simp add: clearWallet_def secureKV.get_dels [OF assms] secureKV.get_del [OF assms]
        key_defs)
next
  case False
  then show ?thesis
    by (auto simp: clearWallet_def secure_async_frame [OF assms] secureKV.get_del [OF assms])
qed

text \<open>A reset forgets the phrase, the accounts and the password, but the private keys that were
  imported for single accounts stay in the store.\<close>

lemma clearWallet_effect:
  assumes "lawful P"
  shows "loadWallet P (clearWallet P d) = None" "\<not> hasWallet P (clearWallet P d)"
    "getMnemonic P (clearWallet P d) = None" "\<not> hasPassword P (clearWallet P d)"
    "verifyPassword P q (clearWallet P d) = Inr False" "getQuantumAddress P (clearWallet P d) = None"
    "getActiveAccount P (clearWallet P d) = None"
    "getImportedKey P i (clearWallet P d) = getImportedKey P i d"
  using clearWallet_secure [OF assms, of _ d] secure_async_frame(2) [OF assms, of "K_imported i" K_ACTIVE d]
  by (simp_all add: loadWallet_def hasWallet_def getMnemonic_def hasPassword_def verifyPassword_def getQuantumAddress_def
      getActiveAccount_def getImportedKey_def) (simp add: key_defs)

section \<open>Passwords\<close>

lemma funpow_collision:
  "(f ^^ n) x = (f ^^ n) y \<Longrightarrow> x \<noteq> y \<Longrightarrow> \<exists>i<n. (f ^^ i) x \<noteq> (f ^^ i) y \<and> f ((f ^^ i) x) = f ((f ^^ i) y)"
proof (induction n)
  case (Suc n)
  then show ?case by (cases "(f ^^ n) x = (f ^^ n) y") (auto intro: less_SucI)
qed simp

lemma funpow_last: "0 < n \<Longrightarrow> \<exists>y. ((f :: 'a \<Rightarrow> 'a) ^^ n) x = f y"
  by (cases n) auto

lemma toHex_inject [simp]: "toHex xs = toHex ys \<longleftrightarrow> xs = ys"
  by (metis fromHex_toHex)

lemma stretch_random:
  assumes "length buf = 32"
  shows "stretchPassword P p (randomHex32 buf) = Inr (toHex ((pf_sha256 P ^^ 100000) (utf8 p @ buf)))"
proof -
  have "matchPairs (randomHex32 buf) = map byteHex buf" "map byteHex buf \<noteq> []"
    using assms by (auto simp: randomHex32_def matchPairs_toHex)
  moreover have "(pf_sha256 P ^^ 99999) (pf_sha256 P z) = (pf_sha256 P ^^ 100000) z" for z
    using fun_cong [OF funpow_Suc_right [of 99999 "pf_sha256 P"], of z] by (simp only: comp_apply Suc_numeral Num.add_num_simps)
  ultimately show ?thesis by (simp add: stretchPassword_def Let_def comp_def parse_byteHex)
qed

lemma verify_saved:
  assumes "lawful P" "length buf = 32" "\<forall>x. pf_sha256 P x \<noteq> []"
  shows "verifyPassword P q (snd (savePasswordHash P buf p d)) =
    Inr ((pf_sha256 P ^^ 100000) (utf8 q @ buf) = (pf_sha256 P ^^ 100000) (utf8 p @ buf))"
proof -
  define H where "H r = (pf_sha256 P ^^ 100000) (utf8 r @ buf)" for r
  have st: "stretchPassword P r (randomHex32 buf) = Inr (toHex (H r))" for r
    using stretch_random [OF assms(2)] by (simp add: H_def del: funpow.simps)
  have "H p \<noteq> []"
    using assms(3) funpow_last [of 100000 "pf_sha256 P" "utf8 p @ buf"] unfolding H_def by (metis zero_less_numeral)
  then have "toHex (H p) \<noteq> []" using length_toHex [of "H p"] by auto
  moreover have "randomHex32 buf \<noteq> []" using assms(2) length_toHex [of buf] by (auto simp: randomHex32_def)
  ultimately show ?thesis using assms(1)
    by (simp add: savePasswordHash_def verifyPassword_def Let_def st store_laws flip: H_def) (simp add: key_defs)
qed

section \<open>Concrete platforms\<close>

definition sample_kvs :: "(string \<times> string) list kvs" where
  "sample_kvs = \<lparr>kv_getItem = map_of, kv_setItem = mput, kv_removeItem = mdelete\<rparr>"

definition sample_phone :: "((string \<times> string) list, (string \<times> string) list) platform" where
  "sample_phone = \<lparr>pf_OS = ''android'', pf_AsyncStorage = sample_kvs, pf_SecureStore = sample_kvs,
    pf_sha256 = \<lambda>x. take 32 (x @ replicate 32 0)\<rparr>"

definition sample_device :: "((string \<times> string) list, (string \<times> string) list) device" where
  "sample_device = \<lparr>dv_async = [], dv_secure = []\<rparr>"

lemma lawful_phone: "lawful sample_phone"
  by (simp add: lawful_def sample_phone_def kv_laws_def sample_kvs_def)

definition sample_walletAccount :: "string \<Rightarrow> WalletAccount" where
  "sample_walletAccount i = \<lparr>wa_id = i, wa_name = ''Akun 1'', wa_address = ''grd1q'', wa_publicKey = ''02'', wa_accountIndex = 0,
    wa_quantumAddress = None\<rparr>"



text \<open>C35. The password that was saved is accepted. Another password is accepted only if the two
  hash chains of 100000 rounds of SHA-256 meet: at some round two different inputs of SHA-256
  have the same digest.\<close>

theorem password_verified:
  assumes "lawful P" "length buf = 32" "\<forall>x. pf_sha256 P x \<noteq> []"
  shows "verifyPassword P p (snd (savePasswordHash P buf p d)) = Inr True \<and>
    hasPassword P (snd (savePasswordHash P buf p d)) \<and>
    (verifyPassword P q (snd (savePasswordHash P buf p d)) = Inr True \<longrightarrow> q \<noteq> p \<longrightarrow>
      (\<exists>i<100000. let x = (pf_sha256 P ^^ i) (utf8 q @ buf); y = (pf_sha256 P ^^ i) (utf8 p @ buf)
                  in x \<noteq> y \<and> pf_sha256 P x = pf_sha256 P y))"
proof (intro conjI impI)
  show "verifyPassword P p (snd (savePasswordHash P buf p d)) = Inr True"
    using verify_saved [OF assms] by simp
  then show "hasPassword P (snd (savePasswordHash P buf p d))"
    by (auto simp: verifyPassword_def hasPassword_def split: option.splits)
  assume "verifyPassword P q (snd (savePasswordHash P buf p d)) = Inr True" "q \<noteq> p"
  then have "(pf_sha256 P ^^ 100000) (utf8 q @ buf) = (pf_sha256 P ^^ 100000) (utf8 p @ buf)" "utf8 q @ buf \<noteq> utf8 p @ buf"
    using verify_saved [OF assms] utf8_inject by auto
  from funpow_collision [OF this] show "\<exists>i<100000. let x = (pf_sha256 P ^^ i) (utf8 q @ buf); y = (pf_sha256 P ^^ i) (utf8 p @ buf)
                  in x \<noteq> y \<and> pf_sha256 P x = pf_sha256 P y"
    unfolding Let_def .
qed

theorem password_verified_witness:
  "verifyPassword sample_phone ''rahasia'' (snd (savePasswordHash sample_phone (replicate 32 7) ''rahasia'' sample_device)) = Inr True"
  using password_verified [OF lawful_phone, of "replicate 32 7" "''rahasia''" sample_device "''rahasia''"]
  by (simp add: sample_phone_def)

end
