(* ===== verification/Accounts.thy ===== *)
theory Accounts
  imports Storage
begin

text \<open>
  The screens of the mobile wallet that create, import and unlock it
  (\<open>mobile/app/buat-akun.tsx\<close>, \<open>dompet-siap.tsx\<close>, \<open>impor-dompet.tsx\<close>, \<open>impor-akun-frasa.tsx\<close>,
  \<open>impor-kunci-privat.tsx\<close>, \<open>set-password-only.tsx\<close>, \<open>unlock.tsx\<close>), over the device storage and the
  key derivation.

  A handler takes the fields of its screen and the device; it returns what the user sees and the
  device afterwards. A handler runs to its end once it is started: \<open>loading\<close> disables its
  button until then. The current time is an argument.
\<close>

section \<open>What the user sees\<close>

datatype shown_ui =
    Alerted string string     \<comment> \<open>\<open>Alert.alert(title, message)\<close>\<close>
  | Failed string             \<comment> \<open>\<open>setError(message)\<close>\<close>
  | Opened string             \<comment> \<open>\<open>router.replace(path)\<close> or \<open>router.push(path)\<close>\<close>

section \<open>Creating an account\<close>

definition defaultName :: "('a, 's) platform \<Rightarrow> ('a, 's) device \<Rightarrow> string" where
  "defaultName P d =
    (case loadWallet P d of None \<Rightarrow> ''Akun 2''
     | Some wallet \<Rightarrow> ''Akun '' @ toString10 (length (sw_accounts wallet) + 1))"

definition initials :: "string \<Rightarrow> string" where
  "initials name = toUpperCase (take 2 (concat (map (take 1) (splitSpace (trim name)))))"

definition accountId :: "nat \<Rightarrow> string" where
  "accountId accountIndex = ''account-'' @ toString10 accountIndex"

definition handleCreate ::
    "('a, 's) platform \<Rightarrow> crypto \<Rightarrow> string \<Rightarrow> ('a, 's) device \<Rightarrow> shown_ui list \<times> ('a, 's) device" where
  "handleCreate P C name d =
    (if trim name = [] then ([Alerted ''Nama Diperlukan'' ''Masukkan nama untuk akun ini.''], d)
     else case loadWallet P d of
       None \<Rightarrow> ([Alerted ''Error'' ''Dompet tidak ditemukan. Buat dompet terlebih dahulu.''], d)
     | Some wallet \<Rightarrow>
         let accountIndex = length (sw_accounts wallet);
             gagal = [Alerted ''Gagal'' ''Terjadi kesalahan saat membuat akun. Coba lagi.'']
         in case deriveKey C (sw_mnemonic wallet) accountIndex of
              Inl _ \<Rightarrow> (gagal, d)
            | Inr derived \<Rightarrow>
                let newAccount = \<lparr>wa_id = accountId accountIndex, wa_name = trim name, wa_address = dk_address derived,
                      wa_publicKey = dk_publicKeyHex derived, wa_accountIndex = accountIndex, wa_quantumAddress = None\<rparr>
                in case addAccount P newAccount d of
                     (Inl _, d1) \<Rightarrow> (gagal, d1)
                   | (Inr _, d1) \<Rightarrow>
                       ([Alerted ''Berhasil'' (''Akun '' @ [CHR 0x22] @ trim name @ [CHR 0x22] @ '' berhasil dibuat.'')],
                        setActiveAccount P (wa_id newAccount) d1))"

section \<open>A new or a recovered wallet\<close>

definition mainAccount :: "DerivedKey \<Rightarrow> DerivedQuantumKey \<Rightarrow> WalletAccount" where
  "mainAccount key qkey =
    \<lparr>wa_id = ''account-0'', wa_name = ''Akun 1'', wa_address = dk_address key, wa_publicKey = dk_publicKeyHex key,
     wa_accountIndex = 0, wa_quantumAddress = Some (q_address qkey)\<rparr>"

definition handleOpen ::
    "('a, 's) platform \<Rightarrow> crypto \<Rightarrow> byte list \<Rightarrow> string \<Rightarrow> string \<Rightarrow> ('a, 's) device \<Rightarrow> shown_ui list \<times> ('a, 's) device" where
  "handleOpen P C buf mnemonic password d =
    (case deriveKey C mnemonic 0 of Inl _ \<Rightarrow> ([], d)
     | Inr key \<Rightarrow>
         let qkey = deriveQuantumKey C mnemonic 0;
             d1 = saveWallet P mnemonic (mainAccount key qkey) d;
             d2 = saveQuantumAddress P (q_address qkey) d1
         in if password = [] then ([Opened ''/beranda''], d2)
            else case savePasswordHash P buf password d2 of
                   (Inl _, d3) \<Rightarrow> ([], d3)
                 | (Inr _, d3) \<Rightarrow> ([Opened ''/beranda''], d3))"

definition wordCount :: "string \<Rightarrow> nat" where
  "wordCount phrase = (if trim phrase = [] then 0 else length (splitSpace (trim phrase)))"

definition importWallet ::
    "('a, 's) platform \<Rightarrow> crypto \<Rightarrow> string \<Rightarrow> ('a, 's) device \<Rightarrow> shown_ui list \<times> ('a, 's) device" where
  "importWallet P C phrase d =
    (if \<not> (wordCount phrase = 24 \<and> validateMnemonic (trim phrase)) then ([], d)
     else case deriveKey C (trim phrase) 0 of
            Inl _ \<Rightarrow> ([Failed ''Gagal mengimpor dompet. Periksa frasa pemulihan.''], d)
          | Inr key \<Rightarrow>
              let qkey = deriveQuantumKey C (trim phrase) 0;
                  d1 = saveWallet P (trim phrase) (mainAccount key qkey) d
              in ([Opened ''/set-password-only''], saveQuantumAddress P (q_address qkey) d1))"

section \<open>Imported accounts\<close>

definition accountCount :: "('a, 's) platform \<Rightarrow> ('a, 's) device \<Rightarrow> nat" where
  "accountCount P d = (case loadWallet P d of Some wallet \<Rightarrow> length (sw_accounts wallet) | None \<Rightarrow> 0)"

definition importedName :: "string \<Rightarrow> string" where
  "importedName name = (if trim name = [] then ''Akun Impor'' else trim name)"

definition importPhrase ::
    "('a, 's) platform \<Rightarrow> crypto \<Rightarrow> nat \<Rightarrow> string \<Rightarrow> string \<Rightarrow> ('a, 's) device \<Rightarrow> shown_ui list \<times> ('a, 's) device" where
  "importPhrase P C now name phrase d =
    (if \<not> ((wordCount phrase = 12 \<or> wordCount phrase = 24) \<and> validateMnemonic (trim phrase)) then ([], d)
     else let accountIndex = accountCount P d; gagal = [Failed ''Gagal mengimpor. Periksa frasa pemulihan Anda.'']
          in case deriveKey C (trim phrase) 0 of Inl _ \<Rightarrow> (gagal, d)
             | Inr key \<Rightarrow>
                 let qkey = deriveQuantumKey C (trim phrase) 0;
                     accountId = ''imported-frasa-'' @ toString10 now;
                     newAccount = \<lparr>wa_id = accountId, wa_name = importedName name, wa_address = dk_address key,
                       wa_publicKey = dk_publicKeyHex key, wa_accountIndex = accountIndex,
                       wa_quantumAddress = Some (q_address qkey)\<rparr>
                 in case addAccount P newAccount d of
                      (Inl _, d1) \<Rightarrow> (gagal, d1)
                    | (Inr _, d1) \<Rightarrow>
                        ([Alerted ''Berhasil'' (''Akun '' @ [CHR 0x22] @ wa_name newAccount @ [CHR 0x22] @
                            '' berhasil diimpor dari frasa pemulihan.'')],
                         setActiveAccount P accountId d1))"

definition isHexKey :: "string \<Rightarrow> bool" where
  "isHexKey s \<longleftrightarrow> length s = 64 \<and> list_all (\<lambda>c. hexValue c \<noteq> None) s"

definition importPrivateKey ::
    "('a, 's) platform \<Rightarrow> crypto \<Rightarrow> nat \<Rightarrow> string \<Rightarrow> string \<Rightarrow> ('a, 's) device \<Rightarrow> shown_ui list \<times> ('a, 's) device" where
  "importPrivateKey P C now name privateKey d =
    (if \<not> isHexKey (trim privateKey) then ([], d)
     else let accountIndex = accountCount P d; key = toLowerCase (trim privateKey);
              gagal = [Failed ''Kunci privat tidak valid. Pastikan 64 karakter hex.'']
          in case deriveKeyFromPrivate C key of Inl _ \<Rightarrow> (gagal, d)
             | Inr (address, publicKeyHex) \<Rightarrow>
                 let accountId = ''imported-'' @ toString10 now;
                     newAccount = \<lparr>wa_id = accountId, wa_name = importedName name, wa_address = address,
                       wa_publicKey = publicKeyHex, wa_accountIndex = accountIndex, wa_quantumAddress = None\<rparr>
                 in case addAccount P newAccount d of
                      (Inl _, d1) \<Rightarrow> (gagal, d1)
                    | (Inr _, d1) \<Rightarrow>
                        ([Alerted ''Berhasil'' (''Akun '' @ [CHR 0x22] @ wa_name newAccount @ [CHR 0x22] @ '' berhasil diimpor.'')],
                         setActiveAccount P accountId (saveImportedKey P accountId key d1)))"

section \<open>Password and unlocking\<close>

definition handleSave ::
    "('a, 's) platform \<Rightarrow> byte list \<Rightarrow> string \<Rightarrow> string \<Rightarrow> ('a, 's) device \<Rightarrow> shown_ui list \<times> ('a, 's) device" where
  "handleSave P buf password confirm d =
    (if \<not> (length password \<ge> 8 \<and> password = confirm) then ([], d)
     else case savePasswordHash P buf password d of
            (Inl _, d1) \<Rightarrow> ([], d1)
          | (Inr _, d1) \<Rightarrow> ([Opened ''/beranda''], d1))"

definition MAX_ATTEMPTS :: nat where "MAX_ATTEMPTS = 5"

record unlock_screen =
  us_password :: string
  us_attempts :: nat
  us_error :: string

definition handleUnlock :: "('a, 's) platform \<Rightarrow> ('a, 's) device \<Rightarrow> unlock_screen \<Rightarrow> shown_ui list \<times> unlock_screen" where
  "handleUnlock P d u =
    (if trim (us_password u) = [] then ([], u)
     else let u1 = u\<lparr>us_error := []\<rparr>
          in if \<not> hasPassword P d then ([Opened ''/set-password-only''], u1)
             else case verifyPassword P (us_password u) d of
                    Inl _ \<Rightarrow> ([], u1)
                  | Inr True \<Rightarrow> ([Opened ''/beranda''], u1)
                  | Inr False \<Rightarrow>
                      let newAttempts = us_attempts u1 + 1;
                          u2 = u1\<lparr>us_attempts := newAttempts, us_password := []\<rparr>
                      in if newAttempts \<ge> MAX_ATTEMPTS then
                           ([Alerted ''Terlalu Banyak Percobaan''
                               ''Kamu telah salah memasukkan password 5 kali. Gunakan frasa pemulihan untuk reset dompet.''], u2)
                         else ([], u2\<lparr>us_error := ''Password salah. '' @ toString10 (MAX_ATTEMPTS - newAttempts) @
                                 '' percobaan tersisa.''\<rparr>))"

text \<open>The button \<open>Coba Lagi\<close> of the alert.\<close>

definition retryUnlock :: "unlock_screen \<Rightarrow> unlock_screen" where
  "retryUnlock u = u\<lparr>us_attempts := 0\<rparr>"

text \<open>The confirmed reset; a dialog that is cancelled changes nothing.\<close>

definition handleReset ::
    "('a, 's) platform \<Rightarrow> bool \<Rightarrow> ('a, 's) device \<Rightarrow> shown_ui list \<times> ('a, 's) device" where
  "handleReset P confirmed d = (if confirmed then ([Opened ''/''], clearWallet P d) else ([], d))"

section \<open>Accounts that are created\<close>

text \<open>The keys of the accounts come from the phrase of the wallet and their number in the list.\<close>

definition createdAccount :: "crypto \<Rightarrow> string \<Rightarrow> nat \<Rightarrow> string \<Rightarrow> WalletAccount \<Rightarrow> bool" where
  "createdAccount C mnemonic n name a \<longleftrightarrow>
    (case deriveKey C mnemonic n of Inl _ \<Rightarrow> False
     | Inr key \<Rightarrow> a = \<lparr>wa_id = accountId n, wa_name = trim name, wa_address = dk_address key,
         wa_publicKey = dk_publicKeyHex key, wa_accountIndex = n, wa_quantumAddress = None\<rparr>)"

lemma handleCreate_keeps:
  assumes "lawful P" "keeps P mnemonic w d" "mnemonic \<noteq> []" "trim name \<noteq> []" "length (wv_accounts w) < 10 ^ 21"
    and "\<And>n. \<exists>k. deriveKey C mnemonic n = Inr k"
  shows "\<exists>a. createdAccount C mnemonic (length (wv_accounts w)) name a \<and>
    keeps P mnemonic (spec_op (SetActive (wa_id a)) (spec_op (AddAccount a) w)) (snd (handleCreate P C name d))"
proof -
  let ?n = "length (wv_accounts w)"
  obtain key where key: "deriveKey C mnemonic ?n = Inr key" using assms(6) by blast
  define a where "a = \<lparr>wa_id = accountId ?n, wa_name = trim name, wa_address = dk_address key,
    wa_publicKey = dk_publicKeyHex key, wa_accountIndex = ?n, wa_quantumAddress = None\<rparr>"
  have f: "fitsAccount a" using assms(5) by (simp add: a_def fitsAccount_def)
  have "snd (handleCreate P C name d) = run_op P (SetActive (wa_id a)) (run_op P (AddAccount a) d)"
    using assms(2-4) key keeps_accounts [OF assms(2)]
    by (simp add: handleCreate_def keeps_load shown_def addAccount_def Let_def a_def)
  then show ?thesis
    using keeps_op [OF assms(1) keeps_op [OF assms(1,2), of "AddAccount a"], of "SetActive (wa_id a)"] f key
    by (intro exI [of _ a]) (simp add: createdAccount_def a_def)
qed

lemma accountId_inject [simp]: "accountId m = accountId n \<longleftrightarrow> m = n"
  using toString10_facts by (auto simp: accountId_def) metis

lemma createdAccount_id: "createdAccount C mnemonic n name a \<Longrightarrow> wa_id a = accountId n"
  by (auto simp: createdAccount_def split: sum.splits)

lemma accountId_numeral: "accountId 0 = ''account-0''" "accountId 1 = ''account-1''"
  by (simp_all add: accountId_def toString10_0) (simp add: toString10.simps hexDigit_def)

abbreviation creating :: "('a, 's) platform \<Rightarrow> crypto \<Rightarrow> string list \<Rightarrow> ('a, 's) device \<Rightarrow> ('a, 's) device" where
  "creating P C names d \<equiv> fold (\<lambda>name d. snd (handleCreate P C name d)) names d"

lemma creating_keeps:
  assumes "lawful P" "mnemonic \<noteq> []" "fitsAccount a" "\<And>n. \<exists>k. deriveKey C mnemonic n = Inr k"
  shows "list_all (\<lambda>name. trim name \<noteq> []) names \<Longrightarrow> length names < 10 ^ 20 \<Longrightarrow>
    \<exists>as. keeps P mnemonic \<lparr>wv_accounts = a # as, wv_active = wa_id (last (a # as))\<rparr> (creating P C names (saveWallet P mnemonic a d)) \<and>
      length as = length names \<and> (\<forall>i<length names. createdAccount C mnemonic (Suc i) (names ! i) (as ! i))"
proof (induction names rule: rev_induct)
  case Nil
  then show ?case using keeps_save [OF assms(1,3), of mnemonic d] by simp
next
  case (snoc name names)
  then obtain as where k: "keeps P mnemonic \<lparr>wv_accounts = a # as, wv_active = wa_id (last (a # as))\<rparr>
        (creating P C names (saveWallet P mnemonic a d))" "length as = length names"
      "\<forall>i<length names. createdAccount C mnemonic (Suc i) (names ! i) (as ! i)"
    by auto
  from handleCreate_keeps [OF assms(1) k(1) assms(2) _ _ assms(4), of name] snoc.prems k(2)
  obtain b where "createdAccount C mnemonic (Suc (length as)) name b"
      "keeps P mnemonic \<lparr>wv_accounts = a # as @ [b], wv_active = wa_id b\<rparr>
        (snd (handleCreate P C name (creating P C names (saveWallet P mnemonic a d))))"
    by auto
  with k snoc.prems show ?case
    by (intro exI [of _ "as @ [b]"]) (auto simp: nth_append less_Suc_eq)
qed

lemma created_distinct:
  assumes "wa_id a = accountId 0" "\<forall>i<length as. createdAccount C mnemonic (Suc i) (names ! i) (as ! i)"
  shows "distinct (map wa_id (a # as))"
proof -
  have "map wa_id (a # as) = map accountId [0..<Suc (length as)]"
    using assms by (intro nth_equalityI) (auto simp: nth_Cons createdAccount_id simp del: upt_Suc split: nat.splits)
  then show ?thesis by (simp add: distinct_map inj_on_def del: upt_Suc)
qed

section \<open>Properties\<close>



text \<open>Once an account was removed, the number of accounts is used again. Two accounts then have the
  same id and the same keys, and removing that id empties the list: \<open>removeAccount\<close> throws, and
  the wallet has no account left, although at least one should remain.\<close>

theorem removed_account_id_reused:
  fixes P :: "('a, 's) platform" and d :: "('a, 's) device"
  assumes "lawful P" "mnemonic \<noteq> []" "fitsAccount a" "wa_id a = ''account-0''" "\<forall>n. \<exists>k. deriveKey C mnemonic n = Inr k"
    and "trim name \<noteq> []" "trim name' \<noteq> []"
  defines "d2 \<equiv> snd (removeAccount P ''account-0'' (snd (handleCreate P C name (saveWallet P mnemonic a d))))"
  defines "d3 \<equiv> snd (handleCreate P C name' d2)"
  shows "\<exists>b c. storedAccounts P d3 = Inr [b, c] \<and> wa_id b = wa_id c \<and> wa_address b = wa_address c"
    and "fst (removeAccount P ''account-1'' d3) = Inl TypeError"
    and "getActiveAccount P (snd (removeAccount P ''account-1'' d3)) = None"
proof -
  let ?d0 = "saveWallet P mnemonic a d"
  obtain b where b: "createdAccount C mnemonic 1 name b"
      "keeps P mnemonic \<lparr>wv_accounts = [a, b], wv_active = wa_id b\<rparr> (snd (handleCreate P C name ?d0))"
    using handleCreate_keeps [OF assms(1) keeps_save [OF assms(1,3), of mnemonic d] assms(2,6)] assms(5) by auto
  have ib: "wa_id b = ''account-1''" using createdAccount_id [OF b(1)] accountId_numeral(2) by simp
  have k2: "keeps P mnemonic \<lparr>wv_accounts = [b], wv_active = wa_id b\<rparr> d2"
    using keeps_remove [OF assms(1) b(2), of "''account-0''"] ib assms(4) by (simp add: d2_def)
  obtain c where c: "createdAccount C mnemonic 1 name' c"
      "keeps P mnemonic \<lparr>wv_accounts = [b, c], wv_active = wa_id c\<rparr> d3"
    using handleCreate_keeps [OF assms(1) k2 assms(2,7)] assms(5) by (auto simp: d3_def)
  have ic: "wa_id c = ''account-1''" using createdAccount_id [OF c(1)] accountId_numeral(2) by simp
  have "wa_address b = wa_address c" using b(1) c(1) by (auto simp: createdAccount_def split: sum.splits)
  then show "\<exists>b c. storedAccounts P d3 = Inr [b, c] \<and> wa_id b = wa_id c \<and> wa_address b = wa_address c"
    using keeps_accounts [OF c(2)] ib ic by (intro exI [of _ b] exI [of _ c]) simp
  have k4: "keeps P mnemonic \<lparr>wv_accounts = [], wv_active = wa_id c\<rparr> (snd (removeAccount P ''account-1'' d3))"
    using keeps_remove [OF assms(1) c(2), of "''account-1''"] ib ic by simp
  then show "getActiveAccount P (snd (removeAccount P ''account-1'' d3)) = None"
    using keeps_load [OF k4 assms(2)] by (simp add: getActiveAccount_def shown_def)
  have "asyncGet P K_ACTIVE (setAccounts P [] d3) = Some ''account-1''"
    using c(2) ic assms(1) by (simp add: keeps_def setAccounts_def store_laws key_defs)
  then show "fst (removeAccount P ''account-1'' d3) = Inl TypeError"
    using keeps_accounts [OF c(2)] ib ic by (simp add: removeAccount_def Let_def)
qed

end
