(* ===== verification/Numbers.thy ===== *)
theory Numbers
  imports Complex_Main Json
begin

text \<open>
  Numbers and their texts in the mobile wallet. A number is the rational it stands for; \<open>rnd\<close>
  is the rounding of a result to the nearest double and is an argument wherever the code
  computes with fractions. \<open>NaN\<close> is \<open>None\<close>; infinities are outside the model.

  \<open>toFixed\<close>, \<open>parseFloat\<close>, \<open>Math.round\<close> and the Indonesian format of \<open>toLocaleString\<close> follow ECMA-262
  and ECMA-402. A stored amount is a decimal fraction in lowest terms (\<open>dec\<close>), which is how
  JSON prints it.
\<close>

text \<open>A text outside Latin-1 is written as its UTF-8 bytes.\<close>

definition pict :: "nat list \<Rightarrow> string" where
  "pict bytes = map char_of bytes"

type_synonym dec = "int \<times> nat"

fun dec_value :: "dec \<Rightarrow> rat" where
  "dec_value (n, k) = of_int n / 10 ^ k"

fun printDec :: "dec \<Rightarrow> string" where
  "printDec (n, k) = printNum n k"

definition math_round :: "rat \<Rightarrow> int" where
  "math_round x = \<lfloor>x + 1 / 2\<rfloor>"

text \<open>\<open>x.toFixed(k)\<close>: the nearest multiple of \<open>10 ^ - k\<close>, the larger one of two.\<close>

definition toFixed :: "nat \<Rightarrow> rat \<Rightarrow> string" where
  "toFixed k x =
    (if x < 0 then ''-'' @ printNum \<lfloor>- x * 10 ^ k + 1 / 2\<rfloor> k else printNum \<lfloor>x * 10 ^ k + 1 / 2\<rfloor> k)"

text \<open>\<open>parseFloat\<close> reads the longest prefix that is a decimal literal.\<close>

definition exponentOf :: "string \<Rightarrow> int" where
  "exponentOf s =
    (if s \<noteq> [] \<and> hd s \<in> set ''eE'' then
       let neg = (tl s \<noteq> [] \<and> hd (tl s) = CHR ''-'');
           ds = takeWhile isDigit (if tl s \<noteq> [] \<and> hd (tl s) \<in> set ''+-'' then tl (tl s) else tl s)
       in if neg then - int (digits_val ds) else int (digits_val ds)
     else 0)"

definition scale10 :: "int \<Rightarrow> rat" where
  "scale10 e = (if e < 0 then 1 / 10 ^ nat (- e) else 10 ^ nat e)"

definition parseFloat :: "(rat \<Rightarrow> rat) \<Rightarrow> string \<Rightarrow> rat option" where
  "parseFloat rnd s =
    (let t = dropWhile js_space s;
         neg = (t \<noteq> [] \<and> hd t = CHR ''-'');
         u = (if t \<noteq> [] \<and> hd t \<in> set ''+-'' then tl t else t);
         d = takeWhile isDigit u; r = dropWhile isDigit u;
         dot = (r \<noteq> [] \<and> hd r = CHR ''.'');
         f = (if dot then takeWhile isDigit (tl r) else []);
         r' = (if dot then dropWhile isDigit (tl r) else r);
         m = of_nat (digits_val (d @ f)) / 10 ^ length f * scale10 (exponentOf r')
     in if d = [] \<and> f = [] then None else Some (rnd (if neg then - m else m)))"

text \<open>\<open>parseInt(s, 10)\<close>: the digits after an optional sign.\<close>

definition parseInt10 :: "string \<Rightarrow> int option" where
  "parseInt10 s =
    (let t = dropWhile js_space s;
         neg = (t \<noteq> [] \<and> hd t = CHR ''-'');
         d = takeWhile isDigit (if t \<noteq> [] \<and> hd t \<in> set ''+-'' then tl t else t)
     in if d = [] then None else Some (if neg then - int (digits_val d) else int (digits_val d)))"

section \<open>The Indonesian format\<close>

text \<open>Groups of three digits with a dot between them, and a comma before the fraction.\<close>

fun group3 :: "string \<Rightarrow> string" where
  "group3 (a # b # c # d # s) = a # b # c # CHR ''.'' # group3 (d # s)"
| "group3 s = s"

definition grouped :: "nat \<Rightarrow> string" where
  "grouped n = rev (group3 (rev (toString10 n)))"

fun stripZeros :: "nat \<Rightarrow> string \<Rightarrow> string" where
  "stripZeros minimum [] = []"
| "stripZeros minimum (c # s) =
    (if c = CHR ''0'' \<and> minimum < length (c # s) then stripZeros minimum s else c # s)"

definition localeId :: "nat \<Rightarrow> nat \<Rightarrow> rat \<Rightarrow> string" where
  "localeId minF maxF x =
    (let n = nat \<lfloor>\<bar>x\<bar> * 10 ^ maxF + 1 / 2\<rfloor>;
         frac = (if maxF = 0 then [] else rev (stripZeros minF (rev (padStart maxF (CHR ''0'') (toString10 (n mod 10 ^ maxF))))))
     in (if x < 0 then ''-'' else []) @ grouped (n div 10 ^ maxF) @ (if frac = [] then [] else '','' @ frac))"

abbreviation toLocaleId :: "int \<Rightarrow> string" where
  "toLocaleId n \<equiv> localeId 0 3 (of_int n)"

section \<open>Amounts with a fixed number of decimals\<close>

text \<open>\<open>parseFloat(x.toFixed(k))\<close>.\<close>

definition fixedDec :: "nat \<Rightarrow> rat \<Rightarrow> dec" where
  "fixedDec k x = lowest (if x < 0 then - \<lfloor>- x * 10 ^ k + 1 / 2\<rfloor> else \<lfloor>x * 10 ^ k + 1 / 2\<rfloor>) k"

lemma lowest_value: "dec_value (lowest n k) = of_int n / 10 ^ k"
proof (induction n k rule: lowest.induct)
  case (2 n k)
  then show ?case by (cases "n mod 10 = 0") (auto simp: elim!: dvdE simp flip: dvd_eq_mod_eq_0)
qed simp

lemma lowest_wf: "lowest n k = (n', k') \<Longrightarrow> k' \<le> k \<and> (k' = 0 \<or> n' mod 10 \<noteq> 0) \<and> \<bar>n'\<bar> \<le> \<bar>n\<bar>"
proof (induction n k rule: lowest.induct)
  case (2 n k)
  have "\<bar>n div 10\<bar> \<le> \<bar>n\<bar>" by presburger
  with 2 show ?case by (cases "n mod 10 = 0") auto
qed simp

lemma parse_printNum:
  assumes "0 \<le> n"
  shows "parseFloat rnd (printNum n k) = Some (rnd (of_int n / 10 ^ k))"
proof -
  let ?i = "toString10 (nat n div 10 ^ k)" and ?f = "padStart k (CHR ''0'') (toString10 (nat n mod 10 ^ k))"
  have i: "list_all isDigit ?i" "digits_val ?i = nat n div 10 ^ k" "?i \<noteq> []"
    using toString10_facts by auto
  have h: "dropWhile js_space (?i @ r) = ?i @ r" "\<not> (hd (?i @ r) \<in> set ''+-'')" "hd (?i @ r) \<noteq> CHR ''-''" for r
    using i(1,3) by (cases ?i; auto simp: isDigit_def js_space_def)+
  have t: "takeWhile isDigit (?i @ r) = ?i" "dropWhile isDigit (?i @ r) = r" if "r = [] \<or> \<not> isDigit (hd r)" for r
    using takeWhile_digits [OF i(1) that] by auto
  show ?thesis
  proof (cases "k = 0")
    case True
    then show ?thesis using i h [of "[]"] assms t [of "[]", unfolded append_Nil2]
      by (simp add: parseFloat_def printNum_def Let_def exponentOf_def scale10_def takeWhile_eq_all_conv [THEN iffD2])
  next
    case False
    have f: "list_all isDigit ?f" "digits_val ?f = nat n mod 10 ^ k" "length ?f = k"
      using padStart_digits [of "nat n mod 10 ^ k" k] False by auto
    have v: "digits_val (?i @ ?f) = nat n"
      using f i div_mult_mod_eq [of "nat n" "10 ^ k"] by (simp add: digits_val_append del: div_mult_mod_eq)
    have dot: "\<not> isDigit (hd (''.'' @ ?f))" by (simp add: isDigit_def)
    show ?thesis
      using False i h [of "''.'' @ ?f"] t [of "''.'' @ ?f"] dot f v assms takeWhile_digits [OF f(1), of "[]"]
      by (simp add: parseFloat_def printNum_def Let_def exponentOf_def scale10_def takeWhile_eq_all_conv [THEN iffD2])
  qed
qed

lemma fixedDec_toFixed:
  assumes "0 \<le> x"
  shows "parseFloat rnd (toFixed k x) = Some (rnd (dec_value (fixedDec k x)))"
  using assms by (simp add: toFixed_def fixedDec_def parse_printNum lowest_value)

end
