(* ===== verification/Dates.thy ===== *)
theory Dates
  imports Numbers
begin

text \<open>
  Points in time: \<open>Date.now()\<close> is a number of milliseconds since 1970, \<open>toISOString\<close> prints it and
  \<open>new Date(s).getTime()\<close> reads such a text (any other text is \<open>NaN\<close> here). Years have four
  digits, so the model covers the times before the year 10000; the round trip is proved for
  \<open>soon\<close>, which ends in the year 9892.
\<close>

definition leap :: "nat \<Rightarrow> bool" where
  "leap y \<longleftrightarrow> 4 dvd y \<and> (\<not> 100 dvd y \<or> 400 dvd y)"

definition yearDays :: "nat \<Rightarrow> nat" where
  "yearDays y = (if leap y then 366 else 365)"

definition monthDays :: "nat \<Rightarrow> nat list" where
  "monthDays y = [31, if leap y then 29 else 28, 31, 30, 31, 30, 31, 31, 30, 31, 30, 31]"

function yearOf :: "nat \<Rightarrow> nat \<Rightarrow> nat \<times> nat" where
  "yearOf y days = (if days < yearDays y then (y, days) else yearOf (y + 1) (days - yearDays y))"
  by pat_completeness auto
termination by (relation "measure snd") (auto simp: yearDays_def)

declare yearOf.simps [simp del]

fun monthOf :: "nat \<Rightarrow> nat list \<Rightarrow> nat \<Rightarrow> nat \<times> nat" where
  "monthOf m [] days = (m, days)"
| "monthOf m (l # ls) days = (if days < l then (m, days) else monthOf (m + 1) ls (days - l))"

definition pad :: "nat \<Rightarrow> nat \<Rightarrow> string" where
  "pad k n = padStart k (CHR ''0'') (toString10 n)"

definition toISOString :: "nat \<Rightarrow> string" where
  "toISOString t =
    (let ms = t mod 86400000;
         (y, yd) = yearOf 1970 (t div 86400000);
         (mo, d) = monthOf 1 (monthDays y) yd
     in pad 4 y @ ''-'' @ pad 2 mo @ ''-'' @ pad 2 (d + 1) @ ''T'' @ pad 2 (ms div 3600000) @ '':'' @
        pad 2 (ms div 60000 mod 60) @ '':'' @ pad 2 (ms div 1000 mod 60) @ ''.'' @ pad 3 (ms mod 1000) @ ''Z'')"

definition readPart :: "nat \<Rightarrow> char \<Rightarrow> string \<Rightarrow> (nat \<times> string) option" where
  "readPart n c s =
    (if n < length s \<and> list_all isDigit (take n s) \<and> s ! n = c then Some (digits_val (take n s), drop (Suc n) s) else None)"

definition daysBefore :: "nat \<Rightarrow> nat \<Rightarrow> nat" where
  "daysBefore y mo = sum_list (map yearDays [1970..<y]) + sum_list (take (mo - 1) (monthDays y))"

definition getTime :: "string \<Rightarrow> nat option" where
  "getTime s =
    Option.bind (readPart 4 (CHR ''-'') s) (\<lambda>(y, s1).
    Option.bind (readPart 2 (CHR ''-'') s1) (\<lambda>(mo, s2).
    Option.bind (readPart 2 (CHR ''T'') s2) (\<lambda>(d, s3).
    Option.bind (readPart 2 (CHR '':'') s3) (\<lambda>(h, s4).
    Option.bind (readPart 2 (CHR '':'') s4) (\<lambda>(mi, s5).
    Option.bind (readPart 2 (CHR ''.'') s5) (\<lambda>(sec, s6).
    Option.bind (readPart 3 (CHR ''Z'') s6) (\<lambda>(ms, s7).
      if s7 = [] \<and> 1970 \<le> y \<and> 1 \<le> mo \<and> mo \<le> 12 \<and> 1 \<le> d \<and> d \<le> monthDays y ! (mo - 1) \<and> h < 24 \<and> mi < 60 \<and> sec < 60
      then Some ((daysBefore y mo + (d - 1)) * 86400000 + h * 3600000 + mi * 60000 + sec * 1000 + ms)
      else None)))))))"

text \<open>\<open>getHours\<close> and \<open>getMinutes\<close> in a time zone \<open>tz\<close> minutes ahead of UTC.\<close>

definition clockTime :: "int \<Rightarrow> nat \<Rightarrow> string" where
  "clockTime tz t =
    (let local = int t + tz * 60000
     in pad 2 (nat (local div 3600000 mod 24)) @ '':'' @ pad 2 (nat (local div 60000 mod 60)))"

definition soon :: "nat \<Rightarrow> bool" where
  "soon t \<longleftrightarrow> t < 250000000000000"

section \<open>Reading a printed time\<close>

lemma yearOf_spec:
  "yearOf y d = (y', r) \<Longrightarrow> r < yearDays y' \<and> y \<le> y' \<and> sum_list (map yearDays [y..<y']) + r = d"
proof (induction y d rule: yearOf.induct)
  case (1 y d)
  show ?case
  proof (cases "d < yearDays y")
    case True
    with 1 show ?thesis by (simp add: yearOf.simps)
  next
    case False
    with 1 have "r < yearDays y' \<and> y + 1 \<le> y' \<and> sum_list (map yearDays [y + 1..<y']) + r = d - yearDays y"
      by (simp add: yearOf.simps [of y d])
    with False show ?thesis by (auto simp: upt_conv_Cons)
  qed
qed

lemma yearDays_sum: "y \<le> y' \<Longrightarrow> 365 * (y' - y) \<le> sum_list (map yearDays [y..<y'])"
proof (induction y')
  case (Suc y')
  then show ?case by (cases "y = Suc y'") (auto simp: yearDays_def)
qed simp

lemma monthOf_spec:
  "monthOf m ls d = (m', r) \<Longrightarrow> d < sum_list ls \<Longrightarrow>
   m \<le> m' \<and> m' < m + length ls \<and> r < ls ! (m' - m) \<and> sum_list (take (m' - m) ls) + r = d"
proof (induction m ls d rule: monthOf.induct)
  case (2 m l ls days)
  show ?case
  proof (cases "days < l")
    case False
    with 2 have "m + 1 \<le> m' \<and> m' < m + 1 + length ls \<and> r < ls ! (m' - (m + 1)) \<and> sum_list (take (m' - (m + 1)) ls) + r = days - l"
      by simp
    moreover have "m' - m = Suc (m' - (m + 1))" if "m + 1 \<le> m'" using that by simp
    ultimately show ?thesis using False by auto
  qed (use 2 in simp)
qed simp

lemma monthDays_sum: "sum_list (monthDays y) = yearDays y"
  by (simp add: monthDays_def yearDays_def)

lemma monthDays_nth: "i < 12 \<Longrightarrow> monthDays y ! i \<le> 31"
  by (auto simp: monthDays_def nth_Cons' )

lemma readPart_pad: "n < 10 ^ k \<Longrightarrow> 0 < k \<Longrightarrow> readPart k c (pad k n @ c # r) = Some (n, r)"
  using padStart_digits [of n k] by (simp add: readPart_def pad_def nth_append)

lemma day_parts:
  "a div 3600000 * 3600000 + a div 60000 mod 60 * 60000 + a div 1000 mod 60 * 1000 + a mod 1000 = (a :: nat)"
proof -
  define s where "s = a div 1000"
  have q: "a div 60000 = s div 60" "a div 3600000 = s div 60 div 60"
    using div_mult2_eq [of a 1000 60] div_mult2_eq [of a 1000 3600] div_mult2_eq [of s 60 60] by (simp_all add: s_def)
  have "s * 1000 + a mod 1000 = a" "s div 60 * 60 + s mod 60 = s" "s div 60 div 60 * 60 + s div 60 mod 60 = s div 60"
    unfolding s_def by (rule div_mult_mod_eq)+
  then show ?thesis unfolding q s_def [symmetric] by linarith
qed

lemma getTime_print:
  assumes "1970 \<le> y" "y < 10 ^ 4" "1 \<le> mo" "mo \<le> 12" "d < monthDays y ! (mo - 1)" "h < 24" "mi < 60" "sec < 60" "ms < 1000"
  shows "getTime (pad 4 y @ ''-'' @ pad 2 mo @ ''-'' @ pad 2 (d + 1) @ ''T'' @ pad 2 h @ '':'' @ pad 2 mi @ '':'' @
      pad 2 sec @ ''.'' @ pad 3 ms @ ''Z'') = Some ((daysBefore y mo + d) * 86400000 + h * 3600000 + mi * 60000 + sec * 1000 + ms)"
proof -
  have "monthDays y ! (mo - 1) \<le> 31" using assms(3,4) by (intro monthDays_nth) simp
  then have "d + 1 < 10 ^ 2" using assms(5) by simp
  then show ?thesis using assms by (simp add: getTime_def readPart_pad)
qed

lemma getTime_ISO:
  assumes "soon t"
  shows "getTime (toISOString t) = Some t"
proof -
  obtain y yd where y: "yearOf 1970 (t div 86400000) = (y, yd)" by fastforce
  obtain mo d where m: "monthOf 1 (monthDays y) yd = (mo, d)" by fastforce
  note ys = yearOf_spec [OF y]
  have "365 * (y - 1970) \<le> t div 86400000" using ys yearDays_sum [of 1970 y] by linarith
  moreover have "t div 86400000 < 2893519" using assms by (simp add: soon_def less_mult_imp_div_less)
  ultimately have y4: "1970 \<le> y" "y < 10 ^ 4" using ys by auto
  have ms: "1 \<le> mo \<and> mo < 13 \<and> d < monthDays y ! (mo - 1) \<and> sum_list (take (mo - 1) (monthDays y)) + d = yd"
    using monthOf_spec [OF m] ys by (simp add: monthDays_sum) (simp add: monthDays_def)
  define a where "a = t mod 86400000"
  have "a < 24 * 3600000" by (simp add: a_def)
  then have h: "a div 3600000 < 24" by (rule less_mult_imp_div_less)
  have "daysBefore y mo + d = t div 86400000" using ys ms by (simp add: daysBefore_def)
  then have "(daysBefore y mo + d) * 86400000 + a = t" unfolding a_def by (simp only: div_mult_mod_eq)
  then have "(daysBefore y mo + d) * 86400000 + a div 3600000 * 3600000 + a div 60000 mod 60 * 60000 + a div 1000 mod 60 * 1000 + a mod 1000 = t"
    using day_parts [of a] by linarith
  moreover have "toISOString t = pad 4 y @ ''-'' @ pad 2 mo @ ''-'' @ pad 2 (d + 1) @ ''T'' @ pad 2 (a div 3600000) @ '':'' @
      pad 2 (a div 60000 mod 60) @ '':'' @ pad 2 (a div 1000 mod 60) @ ''.'' @ pad 3 (a mod 1000) @ ''Z''"
    by (simp only: toISOString_def Let_def y m prod.case a_def)
  ultimately show ?thesis
    using getTime_print [of y mo d "a div 3600000" "a div 60000 mod 60" "a div 1000 mod 60" "a mod 1000"] y4 ms h by simp
qed

end
