(* ===== verification/P2P.thy ===== *)
theory P2P
  imports Accounts Dates
begin

text \<open>
  The peer-to-peer market of the mobile wallet: orders and listings in \<open>AsyncStorage\<close>
  (\<open>mobile/utils/p2p-storage.ts\<close>) and the screens that create listings
  (\<open>p2p-buat-iklan.tsx\<close>), place orders (\<open>p2p-order.tsx\<close>), carry them out (\<open>p2p-chat.tsx\<close>) and list them
  (the market tab of \<open>beranda.tsx\<close>).

  \<^item> Orders and listings are records with the fields of the interfaces; they are stored as JSON
    text with the members in the order of the interface. A text that cannot be read counts as no
    orders.
  \<^item> A handler runs at one instant \<open>now\<close>, in a time zone \<open>tz\<close> minutes ahead of UTC, and to its end.
  \<^item> Pictographs in messages are written as their UTF-8 bytes; no code looks into them.
\<close>

section \<open>Orders and listings\<close>

datatype OrderStatus = Menunggu | Dibayar | Selesai | AutoLepas | Dibatalkan | Sengketa

datatype MessageFrom = Buyer | Seller | System

record P2PMessage =
  pm_id :: string
  pm_from :: MessageFrom
  pm_text :: string
  pm_time :: string
  pm_timestamp :: string
  pm_isEscrow :: "bool option"
  pm_isWarning :: "bool option"

record P2POrder =
  po_id :: string
  po_listingId :: string
  po_myRole :: MessageFrom       \<comment> \<open>\<open>Buyer\<close> or \<open>Seller\<close>\<close>
  po_traderName :: string
  po_asset :: string
  po_assetAmount :: dec
  po_idrAmount :: int
  po_priceNum :: int
  po_paymentMethod :: string
  po_paymentNoRek :: string
  po_paymentNama :: string
  po_status :: OrderStatus
  po_createdAt :: string
  po_paidAt :: "string option"
  po_releasedAt :: "string option"
  po_autoReleaseAt :: "string option"
  po_messages :: "P2PMessage list"

record Payment =
  py_method :: string
  py_noRek :: string
  py_nama :: string

datatype ListingType = Jual | Beli

record P2PMyListing =
  ml_id :: string
  ml_type :: ListingType
  ml_asset :: string
  ml_price :: string
  ml_priceNum :: int
  ml_limitMin :: int
  ml_limitMax :: int
  ml_payment :: string
  ml_payments :: "Payment list"
  ml_active :: bool              \<comment> \<open>status \<open>aktif\<close> or \<open>nonaktif\<close>\<close>
  ml_orders :: int
  ml_createdAt :: string
  ml_requirements :: "string option"
  ml_timeLimit :: "int option"

subsection \<open>Their JSON\<close>

fun statusText :: "OrderStatus \<Rightarrow> string" where
  "statusText Menunggu = ''menunggu''"
| "statusText Dibayar = ''dibayar''"
| "statusText Selesai = ''selesai''"
| "statusText AutoLepas = ''auto_lepas''"
| "statusText Dibatalkan = ''dibatalkan''"
| "statusText Sengketa = ''sengketa''"

fun fromText :: "MessageFrom \<Rightarrow> string" where
  "fromText Buyer = ''buyer''"
| "fromText Seller = ''seller''"
| "fromText System = ''system''"

definition asOneOf :: "('v \<Rightarrow> string) \<Rightarrow> 'v list \<Rightarrow> json \<Rightarrow> 'v option" where
  "asOneOf txt vs j = Option.bind (asStr j) (\<lambda>s. find (\<lambda>v. txt v = s) vs)"

fun nullStr :: "string option \<Rightarrow> json" where
  "nullStr None = JNull"
| "nullStr (Some s) = JStr s"

fun asNullStr :: "json \<Rightarrow> string option option" where
  "asNullStr JNull = Some None"
| "asNullStr (JStr s) = Some (Some s)"
| "asNullStr _ = None"

fun decJson :: "dec \<Rightarrow> json" where
  "decJson (n, k) = JNum n k"

fun asDec :: "json \<Rightarrow> dec option" where
  "asDec (JNum n k) = Some (n, k)"
| "asDec _ = None"

fun asInteger :: "json \<Rightarrow> int option" where
  "asInteger (JNum n 0) = Some n"
| "asInteger _ = None"

fun asBool :: "json \<Rightarrow> bool option" where
  "asBool (JBool b) = Some b"
| "asBool _ = None"

definition messageJson :: "P2PMessage \<Rightarrow> json" where
  "messageJson m =
    JObj ([(''id'', JStr (pm_id m)), (''from'', JStr (fromText (pm_from m))), (''text'', JStr (pm_text m)),
           (''time'', JStr (pm_time m)), (''timestamp'', JStr (pm_timestamp m))] @
          optMember ''isEscrow'' JBool (pm_isEscrow m) @ optMember ''isWarning'' JBool (pm_isWarning m))"

definition jsonMessage :: "json \<Rightarrow> P2PMessage option" where
  "jsonMessage j =
    (case (Option.bind (field j ''id'') asStr, Option.bind (field j ''from'') (asOneOf fromText [Buyer, Seller, System]),
           Option.bind (field j ''text'') asStr, Option.bind (field j ''time'') asStr, Option.bind (field j ''timestamp'') asStr,
           asOpt j ''isEscrow'' asBool, asOpt j ''isWarning'' asBool) of
       (Some i, Some f, Some t, Some c, Some s, Some e, Some w) \<Rightarrow>
         Some \<lparr>pm_id = i, pm_from = f, pm_text = t, pm_time = c, pm_timestamp = s, pm_isEscrow = e, pm_isWarning = w\<rparr>
     | _ \<Rightarrow> None)"

definition orderJson :: "P2POrder \<Rightarrow> json" where
  "orderJson p =
    JObj [(''id'', JStr (po_id p)), (''listingId'', JStr (po_listingId p)), (''myRole'', JStr (fromText (po_myRole p))),
          (''traderName'', JStr (po_traderName p)), (''asset'', JStr (po_asset p)), (''assetAmount'', decJson (po_assetAmount p)),
          (''idrAmount'', JNum (po_idrAmount p) 0), (''priceNum'', JNum (po_priceNum p) 0),
          (''paymentMethod'', JStr (po_paymentMethod p)), (''paymentNoRek'', JStr (po_paymentNoRek p)),
          (''paymentNama'', JStr (po_paymentNama p)), (''status'', JStr (statusText (po_status p))),
          (''createdAt'', JStr (po_createdAt p)), (''paidAt'', nullStr (po_paidAt p)), (''releasedAt'', nullStr (po_releasedAt p)),
          (''autoReleaseAt'', nullStr (po_autoReleaseAt p)), (''messages'', JArr (map messageJson (po_messages p)))]"

definition jsonOrder :: "json \<Rightarrow> P2POrder option" where
  "jsonOrder j =
    (case (Option.bind (field j ''id'') asStr, Option.bind (field j ''listingId'') asStr,
           Option.bind (field j ''myRole'') (asOneOf fromText [Buyer, Seller, System]), Option.bind (field j ''traderName'') asStr,
           Option.bind (field j ''asset'') asStr, Option.bind (field j ''assetAmount'') asDec,
           Option.bind (field j ''idrAmount'') asInteger, Option.bind (field j ''priceNum'') asInteger) of
       (Some i, Some l, Some r, Some tn, Some a, Some aa, Some ia, Some pn) \<Rightarrow>
         (case (Option.bind (field j ''paymentMethod'') asStr, Option.bind (field j ''paymentNoRek'') asStr,
                Option.bind (field j ''paymentNama'') asStr,
                Option.bind (field j ''status'') (asOneOf statusText [Menunggu, Dibayar, Selesai, AutoLepas, Dibatalkan, Sengketa]),
                Option.bind (field j ''createdAt'') asStr, Option.bind (field j ''paidAt'') asNullStr,
                Option.bind (field j ''releasedAt'') asNullStr, Option.bind (field j ''autoReleaseAt'') asNullStr,
                Option.bind (field j ''messages'') (asArr jsonMessage)) of
            (Some pm, Some pr, Some nm, Some st, Some ca, Some pa, Some ra, Some ar, Some ms) \<Rightarrow>
              Some \<lparr>po_id = i, po_listingId = l, po_myRole = r, po_traderName = tn, po_asset = a, po_assetAmount = aa,
                po_idrAmount = ia, po_priceNum = pn, po_paymentMethod = pm, po_paymentNoRek = pr, po_paymentNama = nm,
                po_status = st, po_createdAt = ca, po_paidAt = pa, po_releasedAt = ra, po_autoReleaseAt = ar, po_messages = ms\<rparr>
          | _ \<Rightarrow> None)
     | _ \<Rightarrow> None)"

definition paymentJson :: "Payment \<Rightarrow> json" where
  "paymentJson p = JObj [(''method'', JStr (py_method p)), (''noRek'', JStr (py_noRek p)), (''nama'', JStr (py_nama p))]"

definition jsonPayment :: "json \<Rightarrow> Payment option" where
  "jsonPayment j =
    (case (Option.bind (field j ''method'') asStr, Option.bind (field j ''noRek'') asStr, Option.bind (field j ''nama'') asStr) of
       (Some a, Some n, Some o') \<Rightarrow> Some \<lparr>py_method = a, py_noRek = n, py_nama = o'\<rparr>
     | _ \<Rightarrow> None)"

fun typeText :: "ListingType \<Rightarrow> string" where
  "typeText Jual = ''jual''"
| "typeText Beli = ''beli''"

definition activeText :: "bool \<Rightarrow> string" where
  "activeText b = (if b then ''aktif'' else ''nonaktif'')"

definition listingJson :: "P2PMyListing \<Rightarrow> json" where
  "listingJson l =
    JObj ([(''id'', JStr (ml_id l)), (''type'', JStr (typeText (ml_type l))), (''asset'', JStr (ml_asset l)),
           (''price'', JStr (ml_price l)), (''priceNum'', JNum (ml_priceNum l) 0), (''limitMin'', JNum (ml_limitMin l) 0),
           (''limitMax'', JNum (ml_limitMax l) 0), (''payment'', JStr (ml_payment l)),
           (''payments'', JArr (map paymentJson (ml_payments l))), (''status'', JStr (activeText (ml_active l))),
           (''orders'', JNum (ml_orders l) 0), (''createdAt'', JStr (ml_createdAt l))] @
          optMember ''requirements'' JStr (ml_requirements l) @ optMember ''timeLimit'' (\<lambda>n. JNum n 0) (ml_timeLimit l))"

definition jsonListing :: "json \<Rightarrow> P2PMyListing option" where
  "jsonListing j =
    (case (Option.bind (field j ''id'') asStr, Option.bind (field j ''type'') (asOneOf typeText [Jual, Beli]),
           Option.bind (field j ''asset'') asStr, Option.bind (field j ''price'') asStr, Option.bind (field j ''priceNum'') asInteger,
           Option.bind (field j ''limitMin'') asInteger, Option.bind (field j ''limitMax'') asInteger) of
       (Some i, Some t, Some a, Some p, Some pn, Some mi, Some ma) \<Rightarrow>
         (case (Option.bind (field j ''payment'') asStr, Option.bind (field j ''payments'') (asArr jsonPayment),
                Option.bind (field j ''status'') (asOneOf activeText [True, False]), Option.bind (field j ''orders'') asInteger,
                Option.bind (field j ''createdAt'') asStr, asOpt j ''requirements'' asStr, asOpt j ''timeLimit'' asInteger) of
            (Some py, Some ps, Some st, Some n, Some ca, Some rq, Some tml) \<Rightarrow>
              Some \<lparr>ml_id = i, ml_type = t, ml_asset = a, ml_price = p, ml_priceNum = pn, ml_limitMin = mi, ml_limitMax = ma,
                ml_payment = py, ml_payments = ps, ml_active = st, ml_orders = n, ml_createdAt = ca, ml_requirements = rq,
                ml_timeLimit = tml\<rparr>
          | _ \<Rightarrow> None)
     | _ \<Rightarrow> None)"

section \<open>Storage of orders and listings\<close>

definition AUTO_RELEASE_MS :: nat where "AUTO_RELEASE_MS = 24 * 60 * 60 * 1000"
definition ORDERS_KEY :: string where "ORDERS_KEY = ''garuda_p2p_orders''"
definition LISTINGS_KEY :: string where "LISTINGS_KEY = ''garuda_p2p_my_listings''"

definition nowTime :: "int \<Rightarrow> nat \<Rightarrow> string" where
  "nowTime tz now = clockTime tz now"

definition formatCountdown :: "int \<Rightarrow> string" where
  "formatCountdown ms =
    (if ms \<le> 0 then ''00:00:00''
     else let totalSec = nat ms div 1000; h = totalSec div 3600; m = totalSec mod 3600 div 60; s = totalSec mod 60
          in join '':'' (map (pad 2) [h, m, s]))"

definition msUntil :: "string \<Rightarrow> nat \<Rightarrow> int option" where
  "msUntil s now = map_option (\<lambda>t. int t - int now) (getTime s)"

definition autoReleaseLabel :: "nat \<Rightarrow> string option \<Rightarrow> string" where
  "autoReleaseLabel now auto =
    (case presentStr auto of None \<Rightarrow> []
     | Some s \<Rightarrow> (case msUntil s now of Some diff \<Rightarrow> if diff > 0 then formatCountdown diff else ''00:00:00'' | None \<Rightarrow> ''00:00:00''))"

definition getAllOrders :: "('a, 's) platform \<Rightarrow> ('a, 's) device \<Rightarrow> P2POrder list" where
  "getAllOrders P d = (case parseStored jsonOrder (asyncGet P ORDERS_KEY d) of Inl _ \<Rightarrow> [] | Inr orders \<Rightarrow> orders)"

definition saveAllOrders :: "('a, 's) platform \<Rightarrow> P2POrder list \<Rightarrow> ('a, 's) device \<Rightarrow> ('a, 's) device" where
  "saveAllOrders P orders d = asyncSet P ORDERS_KEY (printList orderJson orders) d"

definition getOrderById :: "('a, 's) platform \<Rightarrow> string \<Rightarrow> ('a, 's) device \<Rightarrow> P2POrder option" where
  "getOrderById P i d = find (\<lambda>p. po_id p = i) (getAllOrders P d)"

definition createOrder :: "('a, 's) platform \<Rightarrow> P2POrder \<Rightarrow> ('a, 's) device \<Rightarrow> ('a, 's) device" where
  "createOrder P order d = saveAllOrders P (order # getAllOrders P d) d"

fun replaceFirst :: "P2POrder \<Rightarrow> P2POrder list \<Rightarrow> P2POrder list option" where
  "replaceFirst updated [] = None"
| "replaceFirst updated (p # ps) =
    (if po_id p = po_id updated then Some (updated # ps) else map_option (\<lambda>ps'. p # ps') (replaceFirst updated ps))"

definition updateOrder :: "('a, 's) platform \<Rightarrow> P2POrder \<Rightarrow> ('a, 's) device \<Rightarrow> ('a, 's) device" where
  "updateOrder P updated d =
    (let orders = getAllOrders P d
     in saveAllOrders P (case replaceFirst updated orders of Some orders' \<Rightarrow> orders' | None \<Rightarrow> updated # orders) d)"

text \<open>A message before its timestamp is set.\<close>

definition chatMessage :: "string \<Rightarrow> MessageFrom \<Rightarrow> string \<Rightarrow> string \<Rightarrow> bool option \<Rightarrow> bool option \<Rightarrow> P2PMessage" where
  "chatMessage i from txt time escrow warning =
    \<lparr>pm_id = i, pm_from = from, pm_text = txt, pm_time = time, pm_timestamp = [], pm_isEscrow = escrow, pm_isWarning = warning\<rparr>"

definition stamped :: "nat \<Rightarrow> P2PMessage list \<Rightarrow> P2PMessage list" where
  "stamped now msgs = map (\<lambda>m. m\<lparr>pm_timestamp := toISOString now\<rparr>) msgs"

definition assetText :: "P2POrder \<Rightarrow> string" where
  "assetText p = printDec (po_assetAmount p) @ '' '' @ po_asset p"

definition rupiah :: "int \<Rightarrow> string" where
  "rupiah n = ''Rp '' @ toLocaleId n"

definition expired :: "nat \<Rightarrow> P2POrder \<Rightarrow> bool" where
  "expired now p \<longleftrightarrow>
    po_status p = Dibayar \<and>
    (case presentStr (po_autoReleaseAt p) of None \<Rightarrow> False
     | Some s \<Rightarrow> (case getTime s of None \<Rightarrow> False | Some t \<Rightarrow> t \<le> now))"

definition autoReleased :: "int \<Rightarrow> nat \<Rightarrow> P2POrder \<Rightarrow> P2POrder" where
  "autoReleased tz now p =
    (let t = nowTime tz now; penalized = ''Penjual''
     in p\<lparr>po_status := AutoLepas, po_releasedAt := Some (toISOString now),
          po_messages := po_messages p @ stamped now
            [chatMessage (''ar-warn-'' @ toString10 now) System
               (pict [0xE2, 0x9A, 0xA0, 0xEF, 0xB8, 0x8F] @ '' PENANGGUHAN: '' @ penalized @
                '' tidak melepas aset dalam 24 jam. Akun '' @ toLowerCase penalized @ '' ditangguhkan 72 jam.'') t None (Some True),
             chatMessage (''ar-done-'' @ toString10 (now + 1)) System
               (pict [0xE2, 0x9C, 0x85] @ '' SISTEM: '' @ assetText p @ '' otomatis dilepaskan ke '' @
                (if po_myRole p = Buyer then ''dompet kamu'' else ''pembeli'') @ ''. Transaksi selesai secara otomatis.'')
               t (Some True) None]\<rparr>)"

definition releaseStep :: "int \<Rightarrow> nat \<Rightarrow> P2POrder \<Rightarrow> P2POrder" where
  "releaseStep tz now p = (if expired now p then autoReleased tz now p else p)"

definition processAutoReleases :: "('a, 's) platform \<Rightarrow> int \<Rightarrow> nat \<Rightarrow> ('a, 's) device \<Rightarrow> string list \<times> ('a, 's) device" where
  "processAutoReleases P tz now d =
    (let orders = getAllOrders P d; released = map po_id (filter (expired now) orders)
     in (released, if released \<noteq> [] then saveAllOrders P (map (releaseStep tz now) orders) d else d))"

definition getMyListings :: "('a, 's) platform \<Rightarrow> ('a, 's) device \<Rightarrow> P2PMyListing list" where
  "getMyListings P d = (case parseStored jsonListing (asyncGet P LISTINGS_KEY d) of Inl _ \<Rightarrow> [] | Inr ls \<Rightarrow> ls)"

definition saveMyListings :: "('a, 's) platform \<Rightarrow> P2PMyListing list \<Rightarrow> ('a, 's) device \<Rightarrow> ('a, 's) device" where
  "saveMyListings P ls d = asyncSet P LISTINGS_KEY (printList listingJson ls) d"

definition addMyListing :: "('a, 's) platform \<Rightarrow> P2PMyListing \<Rightarrow> ('a, 's) device \<Rightarrow> ('a, 's) device" where
  "addMyListing P l d = saveMyListings P (l # getMyListings P d) d"

section \<open>Publishing a listing\<close>

definition HARGA_REF :: "(string \<times> int) list" where
  "HARGA_REF = [(''USDT'', 16550), (''BTC'', 1640000000), (''ETH'', 55100000), (''BNB'', 9200000), (''SOL'', 2400000)]"

record iklan_form =
  ik_step :: nat
  ik_tipe :: ListingType
  ik_aset :: string
  ik_hargaInput :: string
  ik_jumlah :: string
  ik_minLimit :: string
  ik_maxLimit :: string
  ik_paymentDetails :: "Payment list"
  ik_waktuPembayaran :: string
  ik_addPayMethod :: "string option"
  ik_addNoRek :: string
  ik_addNama :: string
  ik_showAddPayment :: bool
  ik_persyaratan :: string

text \<open>\<open>parseInt(s.replace(/\D/g, "") || "0", 10)\<close>.\<close>

definition digitsNum :: "string \<Rightarrow> int" where
  "digitsNum s = int (digits_val (filter isDigit s))"

definition refHarga :: "iklan_form \<Rightarrow> int" where
  "refHarga k = (case map_of HARGA_REF (ik_aset k) of Some n \<Rightarrow> if n = 0 then 1 else n | None \<Rightarrow> 1)"

definition hargaMin :: "(rat \<Rightarrow> rat) \<Rightarrow> iklan_form \<Rightarrow> int" where
  "hargaMin rnd k = math_round (rnd (of_int (refHarga k) * rnd (97 / 100)))"

definition hargaMax :: "(rat \<Rightarrow> rat) \<Rightarrow> iklan_form \<Rightarrow> int" where
  "hargaMax rnd k = math_round (rnd (of_int (refHarga k) * rnd (123 / 100)))"

definition jumlahNum :: "(rat \<Rightarrow> rat) \<Rightarrow> iklan_form \<Rightarrow> rat option" where
  "jumlahNum rnd k = parseFloat rnd (if ik_jumlah k = [] then ''0'' else ik_jumlah k)"

definition formatRp :: "int \<Rightarrow> string" where
  "formatRp n = ''Rp'' @ toLocaleId n"

definition canGoStep2 :: "(rat \<Rightarrow> rat) \<Rightarrow> iklan_form \<Rightarrow> bool" where
  "canGoStep2 rnd k \<longleftrightarrow>
    (let hargaNum = digitsNum (ik_hargaInput k) in hargaNum > 0 \<and> hargaNum \<ge> hargaMin rnd k \<and> hargaNum \<le> hargaMax rnd k)"

definition canGoStep3 :: "(rat \<Rightarrow> rat) \<Rightarrow> iklan_form \<Rightarrow> bool" where
  "canGoStep3 rnd k \<longleftrightarrow>
    ik_paymentDetails k \<noteq> [] \<and>
    (ik_jumlah k = [] \<or> (case jumlahNum rnd k of Some n \<Rightarrow> n > 0 | None \<Rightarrow> False))"

definition removePayment :: "nat \<Rightarrow> iklan_form \<Rightarrow> iklan_form" where
  "removePayment idx k = k\<lparr>ik_paymentDetails := take idx (ik_paymentDetails k) @ drop (Suc idx) (ik_paymentDetails k)\<rparr>"

definition confirmAddPayment :: "iklan_form \<Rightarrow> iklan_form" where
  "confirmAddPayment k =
    (case presentStr (ik_addPayMethod k) of None \<Rightarrow> k
     | Some payMethod \<Rightarrow>
         if trim (ik_addNoRek k) = [] \<or> trim (ik_addNama k) = [] then k
         else k\<lparr>ik_paymentDetails := ik_paymentDetails k @
                  [\<lparr>py_method = payMethod, py_noRek = trim (ik_addNoRek k), py_nama = toUpperCase (trim (ik_addNama k))\<rparr>],
                ik_addPayMethod := None, ik_addNoRek := [], ik_addNama := [], ik_showAddPayment := False\<rparr>)"

definition goNext :: "(rat \<Rightarrow> rat) \<Rightarrow> iklan_form \<Rightarrow> shown_ui list \<times> iklan_form" where
  "goNext rnd k =
    (if ik_step k = 1 \<and> \<not> canGoStep2 rnd k then
       ([Alerted ''Harga Tidak Valid'' (''Masukkan harga antara '' @ formatRp (hargaMin rnd k) @ '' dan '' @
           formatRp (hargaMax rnd k) @ ''.'')], k)
     else if ik_step k = 2 \<and> \<not> canGoStep3 rnd k then
       ([Alerted ''Belum Lengkap'' ''Tambahkan minimal 1 metode pembayaran.''], k)
     else ([], if ik_step k < 3 then k\<lparr>ik_step := ik_step k + 1\<rparr> else k))"

definition hasJam :: "string \<Rightarrow> bool" where
  "hasJam s \<longleftrightarrow> list_ex (\<lambda>i. take 3 (drop i s) = ''jam'') [0..<length s]"

definition timeLimitOf :: "string \<Rightarrow> int option" where
  "timeLimitOf waktu =
    (if hasJam waktu then map_option (\<lambda>n. n * 60) (parseInt10 waktu)
     else Some (case parseInt10 waktu of Some n \<Rightarrow> if n = 0 then 15 else n | None \<Rightarrow> 15))"

definition newListing :: "nat \<Rightarrow> iklan_form \<Rightarrow> P2PMyListing" where
  "newListing now k =
    (let hargaNum = digitsNum (ik_hargaInput k)
     in \<lparr>ml_id = ''listing_'' @ toString10 now, ml_type = ik_tipe k, ml_asset = ik_aset k, ml_price = formatRp hargaNum,
         ml_priceNum = hargaNum, ml_limitMin = digitsNum (ik_minLimit k), ml_limitMax = digitsNum (ik_maxLimit k),
         ml_payment = join '', '' (map py_method (ik_paymentDetails k)), ml_payments = ik_paymentDetails k, ml_active = True,
         ml_orders = 0, ml_createdAt = toISOString now, ml_requirements = presentStr (Some (trim (ik_persyaratan k))),
         ml_timeLimit = timeLimitOf (ik_waktuPembayaran k)\<rparr>)"

definition handlePratinjau ::
    "('a, 's) platform \<Rightarrow> nat \<Rightarrow> iklan_form \<Rightarrow> ('a, 's) device \<Rightarrow> shown_ui list \<times> ('a, 's) device" where
  "handlePratinjau P now k d =
    (if ik_paymentDetails k = [] then
       ([Alerted ''Belum Lengkap'' ''Tambahkan minimal 1 metode pembayaran dengan nomor rekening.''], d)
     else ([Alerted (''Iklan Berhasil Diterbitkan! '' @ pict [0xF0, 0x9F, 0x8E, 0x89])
              (''Iklan '' @ toUpperCase (typeText (ik_tipe k)) @ '' '' @ ik_aset k @ '' seharga '' @
               formatRp (digitsNum (ik_hargaInput k)) @ '' kini tayang di pasar P2P.'')],
           addMyListing P (newListing now k) d))"

section \<open>The market tab\<close>

definition toggleStatus :: "('a, 's) platform \<Rightarrow> string \<Rightarrow> P2PMyListing list \<Rightarrow> ('a, 's) device \<Rightarrow> P2PMyListing list \<times> ('a, 's) device" where
  "toggleStatus P i prev d =
    (let updated = map (\<lambda>l. if ml_id l = i then l\<lparr>ml_active := \<not> ml_active l\<rparr> else l) prev
     in (updated, saveMyListings P updated d))"

definition deleteListing :: "('a, 's) platform \<Rightarrow> string \<Rightarrow> P2PMyListing list \<Rightarrow> ('a, 's) device \<Rightarrow> P2PMyListing list \<times> ('a, 's) device" where
  "deleteListing P i prev d =
    (let updated = filter (\<lambda>l. ml_id l \<noteq> i) prev in (updated, saveMyListings P updated d))"

definition isInfix :: "string \<Rightarrow> string \<Rightarrow> bool" where
  "isInfix p s \<longleftrightarrow> list_ex (\<lambda>i. take (length p) (drop i s) = p) [0..<Suc (length s)]"

definition offered :: "ListingType \<Rightarrow> string \<Rightarrow> string list \<Rightarrow> P2PMyListing \<Rightarrow> bool" where
  "offered tradeSide filterAsset filterPembayaran l \<longleftrightarrow>
    ml_active l \<and> (if tradeSide = Beli then ml_type l = Jual else ml_type l = Beli) \<and> ml_asset l = filterAsset \<and>
    (filterPembayaran = [] \<or>
     list_ex (\<lambda>fp. list_ex (\<lambda>p. isInfix (toLowerCase fp) (toLowerCase (py_method p))) (ml_payments l)) filterPembayaran)"

record market =
  mk_realOrders :: "P2POrder list"
  mk_myListings :: "P2PMyListing list"
  mk_walletName :: string

definition focusMarket :: "('a, 's) platform \<Rightarrow> int \<Rightarrow> nat \<Rightarrow> market \<Rightarrow> ('a, 's) device \<Rightarrow> market \<times> ('a, 's) device" where
  "focusMarket P tz now k d =
    (let d1 = snd (processAutoReleases P tz now d)
     in (\<lparr>mk_realOrders = getAllOrders P d1, mk_myListings = getMyListings P d1,
          mk_walletName = (case getActiveAccount P d1 of Some account \<Rightarrow> wa_name account | None \<Rightarrow> mk_walletName k)\<rparr>, d1))"

definition activeChats :: "market \<Rightarrow> P2POrder list" where
  "activeChats k = filter (\<lambda>p. po_status p \<noteq> Dibatalkan) (mk_realOrders k)"

definition pendingOrders :: "market \<Rightarrow> nat" where
  "pendingOrders k = length (filter (\<lambda>p. po_status p = Menunggu \<or> po_status p = Dibayar) (mk_realOrders k))"

section \<open>Stored orders read back\<close>

interpretation messages: json_codec messageJson jsonMessage "\<lambda>m. True"
proof
  show "jsonMessage (messageJson m) = Some m" for m
    by (cases "pm_from m"; cases "pm_isEscrow m"; cases "pm_isWarning m")
       (simp_all add: jsonMessage_def messageJson_def asOpt_def asOneOf_def)
  show "wf_json (messageJson m)" for m
    by (cases "pm_isEscrow m"; cases "pm_isWarning m") (simp_all add: messageJson_def)
qed

definition fitsOrder :: "P2POrder \<Rightarrow> bool" where
  "fitsOrder p \<longleftrightarrow> wf_json (decJson (po_assetAmount p)) \<and> \<bar>po_idrAmount p\<bar> < 10 ^ 21 \<and> \<bar>po_priceNum p\<bar> < 10 ^ 21"

lemma asOneOf_role: "asOneOf fromText [Buyer, Seller, System] (JStr (fromText r)) = Some r"
  by (cases r) (simp_all add: asOneOf_def)

lemma asOneOf_status:
  "asOneOf statusText [Menunggu, Dibayar, Selesai, AutoLepas, Dibatalkan, Sengketa] (JStr (statusText s)) = Some s"
  by (cases s) (simp_all add: asOneOf_def)

lemma asNullStr_nullStr [simp]: "asNullStr (nullStr s) = Some s"
  by (cases s) simp_all

lemma asDec_decJson [simp]: "asDec (decJson x) = Some x"
  by (cases x) simp

lemma wf_nullStr [simp]: "wf_json (nullStr s)"
  by (cases s) simp_all

interpretation orders: json_codec orderJson jsonOrder fitsOrder
proof
  show "jsonOrder (orderJson p) = Some p" for p
    by (simp add: jsonOrder_def orderJson_def asOneOf_role asOneOf_status omap_map messages.dec_enc)
  show "fitsOrder p \<Longrightarrow> wf_json (orderJson p)" for p
    by (simp add: orderJson_def fitsOrder_def messages.wf_enc)
qed

definition fitsListing :: "P2PMyListing \<Rightarrow> bool" where
  "fitsListing l \<longleftrightarrow> \<bar>ml_priceNum l\<bar> < 10 ^ 21 \<and> \<bar>ml_limitMin l\<bar> < 10 ^ 21 \<and> \<bar>ml_limitMax l\<bar> < 10 ^ 21 \<and>
    \<bar>ml_orders l\<bar> < 10 ^ 21 \<and> (case ml_timeLimit l of None \<Rightarrow> True | Some n \<Rightarrow> \<bar>n\<bar> < 10 ^ 21)"

interpretation payments: json_codec paymentJson jsonPayment "\<lambda>p. True"
  by unfold_locales (simp_all add: paymentJson_def jsonPayment_def)

interpretation listings: json_codec listingJson jsonListing fitsListing
proof
  have t: "asOneOf typeText [Jual, Beli] (JStr (typeText x)) = Some x" for x
    by (cases x) (simp_all add: asOneOf_def)
  have a: "asOneOf activeText [True, False] (JStr (activeText b)) = Some b" for b
    by (cases b) (simp_all add: asOneOf_def activeText_def)
  show "jsonListing (listingJson l) = Some l" for l
    by (cases "ml_requirements l"; cases "ml_timeLimit l")
       (simp_all add: jsonListing_def listingJson_def asOpt_def omap_map payments.dec_enc t a)
  show "fitsListing l \<Longrightarrow> wf_json (listingJson l)" for l
    by (cases "ml_requirements l"; cases "ml_timeLimit l") (auto simp: listingJson_def fitsListing_def payments.wf_enc)
qed

lemma getAll_save: "lawful P \<Longrightarrow> list_all fitsOrder ps \<Longrightarrow> getAllOrders P (saveAllOrders P ps d) = ps"
  by (simp add: getAllOrders_def saveAllOrders_def asyncKV.get_put orders.parse_printed)

lemma listings_save: "lawful P \<Longrightarrow> list_all fitsListing ls \<Longrightarrow> getMyListings P (saveMyListings P ls d) = ls"
  by (simp add: getMyListings_def saveMyListings_def asyncKV.get_put listings.parse_printed)

text \<open>Orders, listings and the wallet are kept under different keys, also in a browser.\<close>

lemma market_frame:
  assumes "lawful P"
  shows "getMyListings P (saveAllOrders P ps d) = getMyListings P d"
    and "getAllOrders P (saveMyListings P ls d) = getAllOrders P d"
    and "keeps P mnemonic w d \<Longrightarrow> keeps P mnemonic w (saveAllOrders P ps d)"
  using assms by (simp_all add: getMyListings_def saveAllOrders_def getAllOrders_def saveMyListings_def keeps_def store_laws
      ORDERS_KEY_def LISTINGS_KEY_def key_defs)

lemma released_none: "filter (expired now) ps = [] \<Longrightarrow> map (releaseStep tz now) ps = ps"
  by (induction ps) (auto simp: releaseStep_def split: if_splits)

lemma fits_release [simp]: "fitsOrder (releaseStep tz now p) = fitsOrder p"
  by (simp add: releaseStep_def autoReleased_def Let_def fitsOrder_def)

lemma getAll_release:
  assumes "lawful P" "list_all fitsOrder (getAllOrders P d)"
  shows "getAllOrders P (snd (processAutoReleases P tz now d)) = map (releaseStep tz now) (getAllOrders P d)"
  using assms released_none [of now "getAllOrders P d" tz]
  by (auto simp: processAutoReleases_def Let_def getAll_save list.pred_map comp_def)

lemma release_id [simp]: "po_id (releaseStep tz now p) = po_id p"
  by (simp add: releaseStep_def autoReleased_def Let_def)

lemma map_po_id_release [simp]: "map po_id (map (releaseStep tz now) ps) = map po_id ps"
  by simp

definition putOrder :: "P2POrder \<Rightarrow> P2POrder list \<Rightarrow> P2POrder list" where
  "putOrder u ps = map (\<lambda>p. if po_id p = po_id u then u else p) ps"

lemma replaceFirst_put:
  "distinct (map po_id ps) \<Longrightarrow> po_id u \<in> set (map po_id ps) \<Longrightarrow> replaceFirst u ps = Some (putOrder u ps)"
proof (induction ps)
  case (Cons p ps)
  show ?case
  proof (cases "po_id p = po_id u")
    case True
    with Cons.prems(1) have "po_id u \<notin> po_id ` set ps" by simp
    then have "\<forall>q \<in> set ps. po_id q \<noteq> po_id u" by (metis imageI)
    then have "map (\<lambda>q. if po_id q = po_id u then u else q) ps = map id ps" by (intro map_cong) auto
    with True show ?thesis by (simp add: putOrder_def)
  next
    case False
    with Cons show ?thesis by (auto simp: putOrder_def)
  qed
qed simp

lemma getAll_update:
  assumes "lawful P" "list_all fitsOrder (getAllOrders P d)" "fitsOrder u" "distinct (map po_id (getAllOrders P d))"
    and "po_id u \<in> po_id ` set (getAllOrders P d)"
  shows "getAllOrders P (updateOrder P u d) = putOrder u (getAllOrders P d)"
proof -
  have "list_all fitsOrder (putOrder u (getAllOrders P d))"
    using assms(2,3) by (auto simp: putOrder_def list_all_iff)
  with assms show ?thesis by (simp add: updateOrder_def Let_def replaceFirst_put getAll_save)
qed

lemma putOrder_ids [simp]: "map po_id (putOrder u ps) = map po_id ps"
  by (simp add: putOrder_def)

end
