(* ===== verification/P2PChat.thy ===== *)
theory P2PChat
  imports P2P
begin

text \<open>
  Placing an order (\<open>mobile/app/p2p-order.tsx\<close>) and carrying it out in the chat of the order
  (\<open>mobile/app/p2p-chat.tsx\<close>), as a system of the stored orders, the open chat and the clock.

  The state of the chat has the order as it was last loaded or saved (\<open>ch_order\<close>), the deadline of
  the running countdown and the open dialog, which keeps the order it was opened with. A step
  is one action of the user, one tick of the countdown, or a visit of the market; a button
  can be pressed when the screen shows it, and an open dialog covers the other buttons, but not
  the countdown.
\<close>

section \<open>Placing an order\<close>

record order_form =
  of_idrMode :: bool          \<comment> \<open>\<open>inputMode\<close> is \<open>idr\<close>, not \<open>asset\<close>\<close>
  of_inputValue :: string
  of_selectedPayIdx :: nat

fun replaceChar :: "char \<Rightarrow> char \<Rightarrow> string \<Rightarrow> string" where
  "replaceChar a b [] = []"
| "replaceChar a b (c # s) = (if c = a then b # s else c # replaceChar a b s)"

definition rawValue :: "(rat \<Rightarrow> rat) \<Rightarrow> string \<Rightarrow> rat" where
  "rawValue rnd inputValue =
    (case parseFloat rnd (replaceChar (CHR '','') (CHR ''.'') (filter (\<lambda>c. c \<noteq> CHR ''.'') inputValue)) of
       Some v \<Rightarrow> v | None \<Rightarrow> 0)"

definition perPrice :: "(rat \<Rightarrow> rat) \<Rightarrow> P2PMyListing \<Rightarrow> rat \<Rightarrow> rat" where
  "perPrice rnd listing v = (if ml_priceNum listing > 0 then rnd (v / of_int (ml_priceNum listing)) else 0)"

definition orderAmounts :: "(rat \<Rightarrow> rat) \<Rightarrow> P2PMyListing \<Rightarrow> order_form \<Rightarrow> rat \<times> rat" where
  "orderAmounts rnd listing k =
    (let raw = rawValue rnd (of_inputValue k)
     in if of_idrMode k then (raw, perPrice rnd listing raw) else (rnd (raw * of_int (ml_priceNum listing)), raw))"

definition isValidOrder :: "(rat \<Rightarrow> rat) \<Rightarrow> P2PMyListing \<Rightarrow> order_form \<Rightarrow> bool" where
  "isValidOrder rnd listing k \<longleftrightarrow>
    (let (idrAmount, assetAmount) = orderAmounts rnd listing k
     in rawValue rnd (of_inputValue k) > 0 \<and>
        (if of_idrMode k then of_int (ml_limitMin listing) \<le> idrAmount \<and> idrAmount \<le> of_int (ml_limitMax listing)
         else perPrice rnd listing (of_int (ml_limitMin listing)) \<le> assetAmount \<and>
              assetAmount \<le> perPrice rnd listing (of_int (ml_limitMax listing))))"

text \<open>The buttons that fill in the largest amount and the whole balance, which is still the constant 0.\<close>

definition handleMaks :: "(rat \<Rightarrow> rat) \<Rightarrow> P2PMyListing \<Rightarrow> order_form \<Rightarrow> order_form" where
  "handleMaks rnd listing k =
    k\<lparr>of_inputValue := (if of_idrMode k then toLocaleId (ml_limitMax listing)
        else toFixed 4 (min 0 (perPrice rnd listing (of_int (ml_limitMax listing)))))\<rparr>"

definition handleSemua :: "order_form \<Rightarrow> order_form" where
  "handleSemua k = k\<lparr>of_inputValue := toFixed 4 0\<rparr>"

definition selectedPay :: "P2PMyListing \<Rightarrow> order_form \<Rightarrow> Payment option" where
  "selectedPay listing k =
    (if of_selectedPayIdx k < length (ml_payments listing) then Some (ml_payments listing ! of_selectedPayIdx k)
     else case ml_payments listing of [] \<Rightarrow> None | p # _ \<Rightarrow> Some p)"

definition lastSix :: "string \<Rightarrow> string" where
  "lastSix s = toUpperCase (drop (length s - 6) s)"

definition initMessages :: "int \<Rightarrow> nat \<Rightarrow> P2PMyListing \<Rightarrow> Payment \<Rightarrow> rat \<Rightarrow> rat \<Rightarrow> string \<Rightarrow> P2PMessage list" where
  "initMessages tz now listing pay idrAmount assetAmount orderId =
    (let t = nowTime tz now; idrFmt = rupiah (math_round idrAmount); nl = [CHR 0x0A]
     in stamped now
       [chatMessage (''sys-escrow-'' @ toString10 now) System
          (pict [0xF0, 0x9F, 0x94, 0x92] @ '' ESCROW AKTIF: '' @ toFixed 4 assetAmount @ '' '' @ ml_asset listing @
           '' dikunci dalam escrow GarudaChain. Dana aman terlindungi hingga transaksi selesai.'') t (Some True) None,
        chatMessage (''sys-info-'' @ toString10 (now + 1)) System
          (pict [0xF0, 0x9F, 0x93, 0x8B] @ '' Order #'' @ lastSix orderId @ '' dibuat.'' @
           (if ml_type listing = Jual
            then nl @ nl @ ''Silakan transfer '' @ idrFmt @ '' via '' @ py_method pay @ '' ke:'' @ nl @
                 pict [0xF0, 0x9F, 0x8F, 0xA6] @ '' '' @ py_method pay @ nl @ pict [0xF0, 0x9F, 0x93, 0x8B] @ '' '' @ py_noRek pay @ nl @
                 pict [0xF0, 0x9F, 0x91, 0xA4] @ '' '' @ py_nama pay @ nl @ nl @ pict [0xE2, 0x9A, 0xA0, 0xEF, 0xB8, 0x8F] @
                 '' Kosongkan kolom berita/catatan transfer.''
            else '' Tunggu konfirmasi pembayaran IDR '' @ idrFmt @ '' ke rekening kamu dari Admin.'')) t (Some False) None])"

definition newOrder :: "(rat \<Rightarrow> rat) \<Rightarrow> int \<Rightarrow> nat \<Rightarrow> P2PMyListing \<Rightarrow> Payment \<Rightarrow> order_form \<Rightarrow> P2POrder" where
  "newOrder rnd tz now listing pay k =
    (let (idrAmount, assetAmount) = orderAmounts rnd listing k; orderId = ''ord_'' @ toString10 now
     in \<lparr>po_id = orderId, po_listingId = ml_id listing, po_myRole = (if ml_type listing = Jual then Buyer else Seller),
         po_traderName = ''Admin'', po_asset = ml_asset listing, po_assetAmount = fixedDec 4 assetAmount,
         po_idrAmount = math_round idrAmount, po_priceNum = ml_priceNum listing, po_paymentMethod = py_method pay,
         po_paymentNoRek = py_noRek pay, po_paymentNama = py_nama pay, po_status = Menunggu, po_createdAt = toISOString now,
         po_paidAt = None, po_releasedAt = None, po_autoReleaseAt = None,
         po_messages = initMessages tz now listing pay idrAmount assetAmount orderId\<rparr>)"

definition handlePasangOrder ::
    "('a, 's) platform \<Rightarrow> (rat \<Rightarrow> rat) \<Rightarrow> int \<Rightarrow> nat \<Rightarrow> P2PMyListing \<Rightarrow> order_form \<Rightarrow> ('a, 's) device \<Rightarrow>
     shown_ui list result \<times> ('a, 's) device" where
  "handlePasangOrder P rnd tz now listing k d =
    (if \<not> isValidOrder rnd listing k then
       (Inr [Alerted ''Jumlah Tidak Valid'' ''Masukkan jumlah antara batas minimum dan maksimum.''], d)
     else case selectedPay listing k of None \<Rightarrow> (Inl TypeError, d)
          | Some pay \<Rightarrow> (Inr [Opened ''/p2p-chat''], createOrder P (newOrder rnd tz now listing pay k) d))"

section \<open>The chat\<close>

datatype dialog = AskLepas P2POrder | AskBatal P2POrder

record chat =
  ch_orderId :: string
  ch_order :: "P2POrder option"
  ch_loading :: bool
  ch_inputText :: string
  ch_msLeft :: int
  ch_autoReleased :: bool
  ch_deadline :: "string option"   \<comment> \<open>the deadline of the running interval\<close>
  ch_dialog :: "dialog option"
  ch_alerts :: "(string \<times> string) list"

definition openChat :: "string \<Rightarrow> chat" where
  "openChat orderId = \<lparr>ch_orderId = orderId, ch_order = None, ch_loading = True, ch_inputText = [], ch_msLeft = 0,
    ch_autoReleased = False, ch_deadline = None, ch_dialog = None, ch_alerts = []\<rparr>"

text \<open>The effect of the countdown depends on the status and the deadline of the order.\<close>

definition countdownOf :: "P2POrder \<Rightarrow> string option" where
  "countdownOf p = (if po_status p = Dibayar then presentStr (po_autoReleaseAt p) else None)"

definition setOrder :: "P2POrder \<Rightarrow> chat \<Rightarrow> chat" where
  "setOrder p c =
    (case ch_order c of
       Some q \<Rightarrow> if po_status q = po_status p \<and> po_autoReleaseAt q = po_autoReleaseAt p then c\<lparr>ch_order := Some p\<rparr>
                 else c\<lparr>ch_order := Some p, ch_deadline := countdownOf p\<rparr>
     | None \<Rightarrow> c\<lparr>ch_order := Some p, ch_deadline := countdownOf p\<rparr>)"

definition loadOrder :: "('a, 's) platform \<Rightarrow> int \<Rightarrow> nat \<Rightarrow> chat \<Rightarrow> ('a, 's) device \<Rightarrow> chat \<times> ('a, 's) device" where
  "loadOrder P tz now c d =
    (if ch_orderId c = [] then (c, d)
     else let d1 = snd (processAutoReleases P tz now d)
          in case getOrderById P (ch_orderId c) d1 of
               None \<Rightarrow> (c\<lparr>ch_loading := False\<rparr>, d1)
             | Some p \<Rightarrow>
                 let c1 = setOrder p c;
                     c2 = (case countdownOf p of None \<Rightarrow> c1
                           | Some s \<Rightarrow> (case msUntil s now of None \<Rightarrow> c1 | Some diff \<Rightarrow> c1\<lparr>ch_msLeft := max 0 diff\<rparr>));
                     c3 = (if po_status p = AutoLepas then c2\<lparr>ch_autoReleased := True\<rparr> else c2)
                 in (c3\<lparr>ch_loading := False\<rparr>, d1))"

definition countdownTick :: "('a, 's) platform \<Rightarrow> int \<Rightarrow> nat \<Rightarrow> chat \<Rightarrow> ('a, 's) device \<Rightarrow> chat \<times> ('a, 's) device" where
  "countdownTick P tz now c d =
    (case ch_deadline c of None \<Rightarrow> (c, d)
     | Some s \<Rightarrow>
         (case msUntil s now of None \<Rightarrow> (c, d)
          | Some diff \<Rightarrow> if diff \<le> 0 then loadOrder P tz now (c\<lparr>ch_deadline := None, ch_msLeft := 0\<rparr>) d
                         else (c\<lparr>ch_msLeft := diff\<rparr>, d)))"

definition saveAndSet :: "('a, 's) platform \<Rightarrow> P2POrder \<Rightarrow> chat \<Rightarrow> ('a, 's) device \<Rightarrow> chat \<times> ('a, 's) device" where
  "saveAndSet P updated c d = (setOrder updated c, updateOrder P updated d)"

definition withMessages :: "nat \<Rightarrow> P2POrder \<Rightarrow> P2PMessage list \<Rightarrow> P2POrder" where
  "withMessages now current msgs = current\<lparr>po_messages := po_messages current @ stamped now msgs\<rparr>"

definition addMessages ::
    "('a, 's) platform \<Rightarrow> nat \<Rightarrow> P2POrder \<Rightarrow> P2PMessage list \<Rightarrow> chat \<Rightarrow> ('a, 's) device \<Rightarrow> chat \<times> ('a, 's) device" where
  "addMessages P now current msgs c d = saveAndSet P (withMessages now current msgs) c d"

definition sendMessage :: "('a, 's) platform \<Rightarrow> int \<Rightarrow> nat \<Rightarrow> chat \<Rightarrow> ('a, 's) device \<Rightarrow> chat \<times> ('a, 's) device" where
  "sendMessage P tz now c d =
    (case ch_order c of None \<Rightarrow> (c, d)
     | Some p \<Rightarrow>
         if trim (ch_inputText c) = [] then (c, d)
         else let from = (if po_myRole p = Seller then Seller else Buyer);
                  (c1, d1) = addMessages P now p
                    [chatMessage (''msg-'' @ toString10 now) from (trim (ch_inputText c)) (nowTime tz now) None None] c d
              in (c1\<lparr>ch_inputText := []\<rparr>, d1))"

definition paidOrder :: "nat \<Rightarrow> P2POrder \<Rightarrow> P2POrder" where
  "paidOrder now p = p\<lparr>po_status := Dibayar, po_paidAt := Some (toISOString now),
    po_autoReleaseAt := Some (toISOString (now + AUTO_RELEASE_MS))\<rparr>"

definition paidMessages :: "int \<Rightarrow> nat \<Rightarrow> P2POrder \<Rightarrow> P2PMessage list" where
  "paidMessages tz now p =
    (let t = nowTime tz now
     in [chatMessage (''paid-confirm-'' @ toString10 now) Buyer
       (''Saya sudah melakukan transfer sesuai jumlah yang tertera. Mohon segera dikonfirmasi. '' @
       pict [0xF0, 0x9F, 0x99, 0x8F]) t None None,
       chatMessage (''sys-paid-'' @ toString10 (now + 1)) System
       (pict [0xF0, 0x9F, 0x93, 0xA2] @ '' SISTEM: Pembeli telah mengkonfirmasi pembayaran '' @
       rupiah (po_idrAmount p) @ ''. Penjual diminta segera memeriksa rekening dan menekan '' @ [CHR 0x22] @
       ''Lepas Aset'' @ [CHR 0x22] @ ''.'') t (Some True) None,
       chatMessage (''sys-timer-'' @ toString10 (now + 2)) System
       (pict [0xE2, 0x8F, 0xB0] @ '' Penjual memiliki waktu 24 jam untuk melepas aset. Jika tidak merespons, sistem akan otomatis melepas aset ke pembeli dan akun penjual ditangguhkan 72 jam.'')
       t None (Some True)])"

definition handleSudahBayar :: "('a, 's) platform \<Rightarrow> int \<Rightarrow> nat \<Rightarrow> chat \<Rightarrow> ('a, 's) device \<Rightarrow> chat \<times> ('a, 's) device" where
  "handleSudahBayar P tz now c d =
    (case ch_order c of None \<Rightarrow> (c, d)
     | Some p \<Rightarrow>
         if po_status p \<noteq> Menunggu then (c, d)
         else let (c1, d1) = addMessages P now (paidOrder now p) (paidMessages tz now p) c d
              in (c1\<lparr>ch_msLeft := int AUTO_RELEASE_MS\<rparr>, d1))"

definition konfirmasiMessages :: "int \<Rightarrow> nat \<Rightarrow> P2POrder \<Rightarrow> P2PMessage list" where
  "konfirmasiMessages tz now p =
    (let t = nowTime tz now
     in [chatMessage (''adm-paid-'' @ toString10 now) Seller
       (''Pembayaran IDR '' @ rupiah (po_idrAmount p) @ '' sudah kami transfer ke rekening kamu via '' @
       po_paymentMethod p @ ''. Silakan cek dan lepas asetmu. '' @ pict [0xF0, 0x9F, 0x99, 0x8F]) t None None,
       chatMessage (''sys-adm-'' @ toString10 (now + 1)) System
       (pict [0xF0, 0x9F, 0x93, 0xA2] @ '' SISTEM: Admin telah mengkonfirmasi pembayaran IDR. Kamu (penjual aset) diminta melepas '' @
       assetText p @ '' dalam 24 jam.'') t (Some True) None,
       chatMessage (''sys-timer2-'' @ toString10 (now + 2)) System
       (pict [0xE2, 0x8F, 0xB0] @ '' Kamu memiliki waktu 24 jam untuk melepas aset. Jika tidak merespons, sistem akan otomatis melepas aset dan akun kamu ditangguhkan 72 jam.'')
       t None (Some True)])"

definition handleKonfirmasiSudahBayarIDR ::
    "('a, 's) platform \<Rightarrow> int \<Rightarrow> nat \<Rightarrow> chat \<Rightarrow> ('a, 's) device \<Rightarrow> chat \<times> ('a, 's) device" where
  "handleKonfirmasiSudahBayarIDR P tz now c d =
    (case ch_order c of None \<Rightarrow> (c, d)
     | Some p \<Rightarrow>
         if po_status p \<noteq> Menunggu then (c, d)
         else let (c1, d1) = addMessages P now (paidOrder now p) (konfirmasiMessages tz now p) c d
              in (c1\<lparr>ch_msLeft := int AUTO_RELEASE_MS\<rparr>, d1))"

definition handleLepasAset :: "chat \<Rightarrow> chat" where
  "handleLepasAset c = (case ch_order c of None \<Rightarrow> c | Some p \<Rightarrow> c\<lparr>ch_dialog := Some (AskLepas p)\<rparr>)"

definition releasedOrder :: "nat \<Rightarrow> P2POrder \<Rightarrow> P2POrder" where
  "releasedOrder now p = p\<lparr>po_status := Selesai, po_releasedAt := Some (toISOString now)\<rparr>"

definition releaseMessages :: "int \<Rightarrow> nat \<Rightarrow> P2POrder \<Rightarrow> P2PMessage list" where
  "releaseMessages tz now p =
    (let t = nowTime tz now
     in [chatMessage (''rel-msg-'' @ toString10 now) (if po_myRole p = Buyer then Seller else Buyer)
       (''Pembayaran sudah saya terima dengan baik. Aset saya lepas sekarang. Terima kasih! '' @ pict [0xF0, 0x9F, 0x8E, 0x89])
       t None None,
       chatMessage (''sys-rel-'' @ toString10 (now + 1)) System
       (pict [0xE2, 0x9C, 0x85] @ '' SISTEM: '' @ assetText p @
       '' berhasil dilepaskan. Transaksi selesai dengan aman. Terima kasih telah bertransaksi di GarudaChain P2P.'')
       t (Some True) None])"

definition releaseAlert :: "P2POrder \<Rightarrow> string \<times> string" where
  "releaseAlert p =
    (''Transaksi Berhasil! '' @ pict [0xF0, 0x9F, 0x8E, 0x89],
     if po_myRole p = Buyer then assetText p @ '' telah masuk ke dompet kamu.''
     else ''Aset '' @ assetText p @ '' berhasil dilepaskan ke pembeli.'')"

text \<open>The button \<open>Ya, Lepas Aset\<close>; its closure has the order of the dialog.\<close>

definition confirmLepas :: "('a, 's) platform \<Rightarrow> int \<Rightarrow> nat \<Rightarrow> P2POrder \<Rightarrow> chat \<Rightarrow> ('a, 's) device \<Rightarrow> chat \<times> ('a, 's) device" where
  "confirmLepas P tz now p c d =
    (let (c1, d1) = addMessages P now (releasedOrder now p) (releaseMessages tz now p) (c\<lparr>ch_dialog := None\<rparr>) d
     in (c1\<lparr>ch_deadline := None, ch_alerts := ch_alerts c1 @ [releaseAlert p]\<rparr>, d1))"

definition handleCancel :: "chat \<Rightarrow> chat" where
  "handleCancel c =
    (case ch_order c of None \<Rightarrow> c
     | Some p \<Rightarrow>
         if po_status p \<noteq> Menunggu then
           c\<lparr>ch_alerts := ch_alerts c @ [(''Tidak Bisa Dibatalkan'',
             ''Order yang sudah dikonfirmasi pembayarannya tidak bisa dibatalkan. Hubungi dukungan jika ada masalah.'')]\<rparr>
         else c\<lparr>ch_dialog := Some (AskBatal p)\<rparr>)"

definition cancelMessages :: "int \<Rightarrow> nat \<Rightarrow> P2PMessage list" where
  "cancelMessages tz now =
    [chatMessage (''cancel-'' @ toString10 now) System
       (pict [0xE2, 0x9D, 0x8C] @ '' Order dibatalkan. Aset dikembalikan ke escrow penjual.'') (nowTime tz now) None (Some True)]"

definition confirmCancel :: "('a, 's) platform \<Rightarrow> int \<Rightarrow> nat \<Rightarrow> P2POrder \<Rightarrow> chat \<Rightarrow> ('a, 's) device \<Rightarrow> chat \<times> ('a, 's) device" where
  "confirmCancel P tz now p c d =
    addMessages P now (p\<lparr>po_status := Dibatalkan\<rparr>)
      (cancelMessages tz now) (c\<lparr>ch_dialog := None\<rparr>) d"

definition isDone :: "P2POrder \<Rightarrow> bool" where
  "isDone p \<longleftrightarrow> po_status p = Selesai \<or> po_status p = AutoLepas \<or> po_status p = Dibatalkan"

definition trackerIdx :: "P2POrder \<Rightarrow> nat" where
  "trackerIdx p = (if po_status p = Menunggu then 0 else if po_status p = Dibayar then 1 else 2)"

definition statusLabel :: "P2POrder \<Rightarrow> string" where
  "statusLabel p =
    (if po_status p = Menunggu then ''Menunggu Pembayaran''
     else if po_status p = Dibayar then ''Menunggu Lepas Aset''
     else if po_status p = Selesai then pict [0xE2, 0x9C, 0x85] @ '' Selesai''
     else if po_status p = AutoLepas then pict [0xE2, 0x9C, 0x85] @ '' Auto-Release''
     else if po_status p = Dibatalkan then ''Dibatalkan'' else ''Sengketa'')"

section \<open>The system\<close>

record ('a, 's) p2p =
  p_dev :: "('a, 's) device"
  p_chat :: "chat option"
  p_now :: nat

text \<open>The clock of the model ends a day before \<open>soon\<close>, so that every deadline can be printed.\<close>

inductive p2p_step :: "('a, 's) platform \<Rightarrow> (rat \<Rightarrow> rat) \<Rightarrow> int \<Rightarrow> ('a, 's) p2p \<Rightarrow> ('a, 's) p2p \<Rightarrow> bool"
  for P :: "('a, 's) platform" and rnd :: "rat \<Rightarrow> rat" and tz :: int where
  passes: "p_now s \<le> t \<Longrightarrow> soon (t + AUTO_RELEASE_MS) \<Longrightarrow> p2p_step P rnd tz s (s\<lparr>p_now := t\<rparr>)"
| market: "p_chat s = None \<Longrightarrow> focusMarket P tz (p_now s) k (p_dev s) = (k', d) \<Longrightarrow> p2p_step P rnd tz s (s\<lparr>p_dev := d\<rparr>)"
| places: "p_chat s = None \<Longrightarrow> selectedPay listing k = Some pay \<Longrightarrow> fitsOrder (newOrder rnd tz (p_now s) listing pay k) \<Longrightarrow>
    po_id (newOrder rnd tz (p_now s) listing pay k) \<notin> po_id ` set (getAllOrders P (p_dev s)) \<Longrightarrow>
    handlePasangOrder P rnd tz (p_now s) listing k (p_dev s) = (ui, d) \<Longrightarrow> p2p_step P rnd tz s (s\<lparr>p_dev := d\<rparr>)"
| opens: "p_chat s = None \<Longrightarrow> loadOrder P tz (p_now s) (openChat i) (p_dev s) = (c', d) \<Longrightarrow>
    p2p_step P rnd tz s (s\<lparr>p_chat := Some c', p_dev := d\<rparr>)"
| ticks: "p_chat s = Some c \<Longrightarrow> countdownTick P tz (p_now s) c (p_dev s) = (c', d) \<Longrightarrow>
    p2p_step P rnd tz s (s\<lparr>p_chat := Some c', p_dev := d\<rparr>)"
| types: "p_chat s = Some c \<Longrightarrow> ch_dialog c = None \<Longrightarrow> p2p_step P rnd tz s (s\<lparr>p_chat := Some (c\<lparr>ch_inputText := x\<rparr>)\<rparr>)"
| sends: "p_chat s = Some c \<Longrightarrow> ch_dialog c = None \<Longrightarrow> ch_order c = Some p \<Longrightarrow> \<not> isDone p \<Longrightarrow>
    sendMessage P tz (p_now s) c (p_dev s) = (c', d) \<Longrightarrow> p2p_step P rnd tz s (s\<lparr>p_chat := Some c', p_dev := d\<rparr>)"
| pays: "p_chat s = Some c \<Longrightarrow> ch_dialog c = None \<Longrightarrow> ch_order c = Some p \<Longrightarrow> po_myRole p = Buyer \<Longrightarrow>
    handleSudahBayar P tz (p_now s) c (p_dev s) = (c', d) \<Longrightarrow> p2p_step P rnd tz s (s\<lparr>p_chat := Some c', p_dev := d\<rparr>)"
| confirms: "p_chat s = Some c \<Longrightarrow> ch_dialog c = None \<Longrightarrow> ch_order c = Some p \<Longrightarrow> po_myRole p \<noteq> Buyer \<Longrightarrow>
    handleKonfirmasiSudahBayarIDR P tz (p_now s) c (p_dev s) = (c', d) \<Longrightarrow>
    p2p_step P rnd tz s (s\<lparr>p_chat := Some c', p_dev := d\<rparr>)"
| asks_release: "p_chat s = Some c \<Longrightarrow> ch_dialog c = None \<Longrightarrow> ch_order c = Some p \<Longrightarrow> po_myRole p \<noteq> Buyer \<Longrightarrow> po_status p = Dibayar \<Longrightarrow>
    p2p_step P rnd tz s (s\<lparr>p_chat := Some (handleLepasAset c)\<rparr>)"
| releases: "p_chat s = Some c \<Longrightarrow> ch_dialog c = Some (AskLepas p) \<Longrightarrow> confirmLepas P tz (p_now s) p c (p_dev s) = (c', d) \<Longrightarrow>
    p2p_step P rnd tz s (s\<lparr>p_chat := Some c', p_dev := d\<rparr>)"
| asks_cancel: "p_chat s = Some c \<Longrightarrow> ch_dialog c = None \<Longrightarrow> p2p_step P rnd tz s (s\<lparr>p_chat := Some (handleCancel c)\<rparr>)"
| cancels: "p_chat s = Some c \<Longrightarrow> ch_dialog c = Some (AskBatal p) \<Longrightarrow> confirmCancel P tz (p_now s) p c (p_dev s) = (c', d) \<Longrightarrow>
    p2p_step P rnd tz s (s\<lparr>p_chat := None, p_dev := d\<rparr>)"
| dismisses: "p_chat s = Some c \<Longrightarrow> p2p_step P rnd tz s (s\<lparr>p_chat := Some (c\<lparr>ch_dialog := None\<rparr>)\<rparr>)"
| leaves: "p_chat s = Some c \<Longrightarrow> ch_dialog c = None \<Longrightarrow> p2p_step P rnd tz s (s\<lparr>p_chat := None\<rparr>)"

inductive p2p_reach :: "('a, 's) platform \<Rightarrow> (rat \<Rightarrow> rat) \<Rightarrow> int \<Rightarrow> ('a, 's) p2p \<Rightarrow> bool"
  for P :: "('a, 's) platform" and rnd :: "rat \<Rightarrow> rat" and tz :: int where
  fresh: "asyncGet P ORDERS_KEY d = None \<Longrightarrow> soon (t + AUTO_RELEASE_MS) \<Longrightarrow>
    p2p_reach P rnd tz \<lparr>p_dev = d, p_chat = None, p_now = t\<rparr>"
| steps: "p2p_reach P rnd tz s \<Longrightarrow> p2p_step P rnd tz s s' \<Longrightarrow> p2p_reach P rnd tz s'"

subsection \<open>What an order says about its history\<close>

definition paid_at :: "nat \<Rightarrow> P2POrder \<Rightarrow> bool" where
  "paid_at t p \<longleftrightarrow> po_paidAt p = Some (toISOString t) \<and> po_autoReleaseAt p = Some (toISOString (t + AUTO_RELEASE_MS))"

definition never_paid :: "P2POrder \<Rightarrow> bool" where
  "never_paid p \<longleftrightarrow> po_paidAt p = None \<and> po_autoReleaseAt p = None \<and> po_releasedAt p = None"

definition order_ok :: "nat \<Rightarrow> P2POrder \<Rightarrow> bool" where
  "order_ok now p \<longleftrightarrow>
    (case po_status p of
       Menunggu \<Rightarrow> never_paid p
     | Dibatalkan \<Rightarrow> never_paid p
     | Dibayar \<Rightarrow> (\<exists>t\<le>now. paid_at t p \<and> po_releasedAt p = None)
     | Selesai \<Rightarrow> (\<exists>t r. t \<le> r \<and> r \<le> now \<and> paid_at t p \<and> po_releasedAt p = Some (toISOString r))
     | AutoLepas \<Rightarrow> (\<exists>t r. t + AUTO_RELEASE_MS \<le> r \<and> r \<le> now \<and> paid_at t p \<and> po_releasedAt p = Some (toISOString r))
     | Sengketa \<Rightarrow> False)"

definition status_move :: "OrderStatus \<Rightarrow> OrderStatus \<Rightarrow> bool" where
  "status_move a b \<longleftrightarrow> a = b \<or> (a, b) \<in> {(Menunggu, Dibayar), (Menunggu, Dibatalkan), (Dibayar, Selesai), (Dibayar, AutoLepas),
    (AutoLepas, Selesai)}"

lemma order_ok_mono: "order_ok now p \<Longrightarrow> now \<le> now' \<Longrightarrow> order_ok now' p"
  by (auto simp: order_ok_def split: OrderStatus.splits intro: order_trans)

lemma expired_paid:
  assumes "order_ok now p" "soon (now + AUTO_RELEASE_MS)" "expired now p"
  shows "po_status p = Dibayar \<and> (\<exists>t. paid_at t p \<and> t + AUTO_RELEASE_MS \<le> now)"
proof -
  have st: "po_status p = Dibayar" using assms(3) by (simp add: expired_def)
  with assms(1) obtain t where t: "t \<le> now" "paid_at t p" by (auto simp: order_ok_def)
  have "getTime (toISOString (u + AUTO_RELEASE_MS)) = Some (u + AUTO_RELEASE_MS)" if "u \<le> now" for u
    using assms(2) that by (intro getTime_ISO) (simp add: soon_def)
  moreover have "toISOString u \<noteq> []" for u by (simp add: toISOString_def Let_def split: prod.split)
  ultimately show ?thesis using st t assms(3) by (auto simp: expired_def paid_at_def)
qed

lemma release_ok:
  assumes "order_ok now p" "soon (now + AUTO_RELEASE_MS)"
  shows "order_ok now (releaseStep tz now p)" "status_move (po_status p) (po_status (releaseStep tz now p))"
proof -
  show "order_ok now (releaseStep tz now p)"
    using assms expired_paid [OF assms]
    by (auto simp: releaseStep_def autoReleased_def Let_def order_ok_def paid_at_def)
  show "status_move (po_status p) (po_status (releaseStep tz now p))"
    by (auto simp: releaseStep_def autoReleased_def Let_def status_move_def expired_def)
qed

lemma withMessages_ok [simp]:
  "order_ok now (withMessages t p ms) = order_ok now p" "po_id (withMessages t p ms) = po_id p"
  "po_status (withMessages t p ms) = po_status p" "fitsOrder (withMessages t p ms) = fitsOrder p"
  by (simp_all add: withMessages_def order_ok_def never_paid_def paid_at_def fitsOrder_def split: OrderStatus.split)

lemma paidOrder_ok: "order_ok now p \<Longrightarrow> po_status p = Menunggu \<Longrightarrow> order_ok now (paidOrder now p)"
  by (auto simp: order_ok_def paidOrder_def paid_at_def never_paid_def)

lemma releasedOrder_ok: "order_ok now p \<Longrightarrow> po_status p = Dibayar \<Longrightarrow> order_ok now (releasedOrder now p)"
  by (auto simp: order_ok_def releasedOrder_def paid_at_def)

lemma cancelled_ok: "order_ok now p \<Longrightarrow> po_status p = Menunggu \<Longrightarrow> order_ok now (p\<lparr>po_status := Dibatalkan\<rparr>)"
  by (auto simp: order_ok_def never_paid_def)

lemma order_updates [simp]:
  "po_id (paidOrder now p) = po_id p" "fitsOrder (paidOrder now p) = fitsOrder p" "po_status (paidOrder now p) = Dibayar"
  "po_id (releasedOrder now p) = po_id p" "fitsOrder (releasedOrder now p) = fitsOrder p" "po_status (releasedOrder now p) = Selesai"
  "fitsOrder (p\<lparr>po_status := st\<rparr>) = fitsOrder p"
  by (simp_all add: paidOrder_def releasedOrder_def fitsOrder_def)

subsection \<open>The invariant\<close>

definition stored_ok :: "('a, 's) platform \<Rightarrow> nat \<Rightarrow> ('a, 's) device \<Rightarrow> bool" where
  "stored_ok P now d \<longleftrightarrow>
    list_all fitsOrder (getAllOrders P d) \<and> list_all (order_ok now) (getAllOrders P d) \<and> distinct (map po_id (getAllOrders P d))"

fun dialog_ok :: "nat \<Rightarrow> P2POrder list \<Rightarrow> dialog \<Rightarrow> bool" where
  "dialog_ok now ps (AskLepas q) \<longleftrightarrow> fitsOrder q \<and> order_ok now q \<and> po_status q = Dibayar \<and>
    (\<exists>p \<in> set ps. po_id p = po_id q \<and> (p = q \<or> po_status p = AutoLepas))"
| "dialog_ok now ps (AskBatal q) \<longleftrightarrow> q \<in> set ps \<and> po_status q = Menunggu"

fun dialogOrder :: "dialog \<Rightarrow> P2POrder" where
  "dialogOrder (AskLepas q) = q"
| "dialogOrder (AskBatal q) = q"

definition chat_ok :: "nat \<Rightarrow> P2POrder list \<Rightarrow> chat \<Rightarrow> bool" where
  "chat_ok now ps c \<longleftrightarrow>
    (\<forall>p. ch_order c = Some p \<longrightarrow> p \<in> set ps \<and> po_id p = ch_orderId c) \<and>
    (\<forall>x. ch_dialog c = Some x \<longrightarrow> dialog_ok now ps x \<and> po_id (dialogOrder x) = ch_orderId c)"

definition p2p_ok :: "('a, 's) platform \<Rightarrow> ('a, 's) p2p \<Rightarrow> bool" where
  "p2p_ok P s \<longleftrightarrow>
    soon (p_now s + AUTO_RELEASE_MS) \<and> stored_ok P (p_now s) (p_dev s) \<and>
    (\<forall>c. p_chat s = Some c \<longrightarrow> chat_ok (p_now s) (getAllOrders P (p_dev s)) c)"

definition moves :: "('a, 's) platform \<Rightarrow> ('a, 's) device \<Rightarrow> ('a, 's) device \<Rightarrow> bool" where
  "moves P d d' \<longleftrightarrow> (\<forall>p \<in> set (getAllOrders P d). \<exists>p' \<in> set (getAllOrders P d').
    po_id p' = po_id p \<and> status_move (po_status p) (po_status p'))"

lemma moves_refl [simp]: "moves P d d"
  by (auto simp: moves_def status_move_def)

lemma release_inv:
  assumes "lawful P" "soon (now + AUTO_RELEASE_MS)" "stored_ok P now d"
  shows "stored_ok P now (snd (processAutoReleases P tz now d))" "moves P d (snd (processAutoReleases P tz now d))"
  using assms getAll_release [of P d tz now] release_ok [of now _ tz]
  by (auto simp: stored_ok_def moves_def list_all_iff comp_def)

lemma update_inv:
  assumes "lawful P" "stored_ok P now d" "p \<in> set (getAllOrders P d)" "po_id p = po_id u" "fitsOrder u" "order_ok now u"
    and "status_move (po_status p) (po_status u)"
  shows "getAllOrders P (updateOrder P u d) = putOrder u (getAllOrders P d)" "u \<in> set (putOrder u (getAllOrders P d))"
    "stored_ok P now (updateOrder P u d)" "moves P d (updateOrder P u d)"
proof -
  have i: "po_id u \<in> po_id ` set (getAllOrders P d)" using assms(3,4) by (metis imageI)
  show g: "getAllOrders P (updateOrder P u d) = putOrder u (getAllOrders P d)"
    using assms i by (intro getAll_update) (simp_all add: stored_ok_def)
  show u: "u \<in> set (putOrder u (getAllOrders P d))" using assms(3,4) by (auto simp: putOrder_def)
  show "stored_ok P now (updateOrder P u d)"
    using assms(2,5,6) unfolding stored_ok_def g putOrder_ids by (auto simp: list_all_iff putOrder_def)
  have "\<exists>q' \<in> set (putOrder u (getAllOrders P d)). po_id q' = po_id q \<and> status_move (po_status q) (po_status q')"
    if q: "q \<in> set (getAllOrders P d)" for q
  proof (cases "po_id q = po_id u")
    case True
    moreover have "inj_on po_id (set (getAllOrders P d))" using assms(2) by (simp add: stored_ok_def distinct_map)
    ultimately have "q = p" using assms(3,4) q by (metis inj_onD)
    with u assms(4,7) show ?thesis by (metis)
  next
    case False
    with q show ?thesis by (auto simp: putOrder_def status_move_def)
  qed
  then show "moves P d (updateOrder P u d)" by (simp add: moves_def g)
qed

lemma setOrder_sel [simp]:
  "ch_order (setOrder p c) = Some p" "ch_orderId (setOrder p c) = ch_orderId c" "ch_dialog (setOrder p c) = ch_dialog c"
  by (auto simp: setOrder_def split: option.split)

lemma dialog_release:
  assumes "soon (now + AUTO_RELEASE_MS)" "dialog_ok now ps x"
  shows "dialog_ok now (map (releaseStep tz now) ps) x"
proof (cases x)
  case (AskLepas q)
  with assms(2) obtain p where "p \<in> set ps" "po_id p = po_id q" "p = q \<or> po_status p = AutoLepas" by auto
  moreover have "releaseStep tz now p = p \<or> po_status (releaseStep tz now p) = AutoLepas" for p
    by (simp add: releaseStep_def autoReleased_def Let_def)
  ultimately show ?thesis using assms(2) AskLepas by (auto simp: image_iff) (metis release_id)+
next
  case (AskBatal q)
  with assms(2) have "releaseStep tz now q = q" by (auto simp: releaseStep_def expired_def)
  with AskBatal assms(2) show ?thesis by (auto simp: image_iff) metis
qed

lemma loadOrder_inv:
  assumes "lawful P" "soon (now + AUTO_RELEASE_MS)" "stored_ok P now d" "chat_ok now (getAllOrders P d) c"
    and "loadOrder P tz now c d = (c', d')"
  shows "stored_ok P now d' \<and> moves P d d' \<and> chat_ok now (getAllOrders P d') c'"
proof (cases "ch_orderId c = []")
  case True
  with assms show ?thesis by (simp add: loadOrder_def)
next
  case False
  let ?d = "snd (processAutoReleases P tz now d)" and ?rs = "map (releaseStep tz now) (getAllOrders P d)"
  have all: "getAllOrders P ?d = ?rs" using assms(1,3) by (intro getAll_release) (simp_all add: stored_ok_def)
  have d': "d' = ?d" using assms(5) False by (auto simp: loadOrder_def Let_def split: option.splits)
  have dia: "dialog_ok now ?rs x \<and> po_id (dialogOrder x) = ch_orderId c" if "ch_dialog c = Some x" for x
    using assms(4) that dialog_release [OF assms(2)] by (simp add: chat_ok_def)
  have "chat_ok now ?rs c'"
  proof (cases "getOrderById P (ch_orderId c) ?d")
    case None
    have "ch_order c = None"
    proof (rule ccontr)
      assume "ch_order c \<noteq> None"
      then obtain p where "p \<in> set (getAllOrders P d)" "po_id p = ch_orderId c" using assms(4) by (auto simp: chat_ok_def)
      with None show False by (auto simp: getOrderById_def all find_None_iff)
    qed
    with None assms(5) False dia show ?thesis by (auto simp: loadOrder_def chat_ok_def)
  next
    case (Some p)
    then have "p \<in> set ?rs" "po_id p = ch_orderId c" by (auto simp: getOrderById_def all find_Some_iff)
    with Some assms(5) False dia show ?thesis
      by (auto simp: loadOrder_def Let_def chat_ok_def split: option.splits if_splits)
  qed
  with release_inv [OF assms(1-3), of tz] show ?thesis unfolding d' all by simp
qed

lemma addMessages_inv:
  assumes "lawful P" "stored_ok P now d" "p \<in> set (getAllOrders P d)" "po_id p = po_id u" "po_id u = ch_orderId c" "fitsOrder u" "order_ok now u"
    and "status_move (po_status p) (po_status u)" "ch_dialog c = None" "addMessages P now u ms c d = (c', d')"
  shows "stored_ok P now d' \<and> moves P d d' \<and> chat_ok now (getAllOrders P d') c' \<and> ch_dialog c' = None"
  using update_inv [of P now d p "withMessages now u ms"] assms
  by (auto simp: addMessages_def saveAndSet_def chat_ok_def)

lemma dialog_mono: "dialog_ok now ps x \<Longrightarrow> now \<le> now' \<Longrightarrow> dialog_ok now' ps x"
  by (cases x) (auto intro: order_ok_mono)

lemma passes_inv: "p2p_ok P s \<Longrightarrow> p_now s \<le> t \<Longrightarrow> soon (t + AUTO_RELEASE_MS) \<Longrightarrow> p2p_ok P (s\<lparr>p_now := t\<rparr>)"
  by (auto simp: p2p_ok_def stored_ok_def chat_ok_def list_all_iff intro: order_ok_mono dialog_mono)

lemma newOrder_ok:
  "order_ok now (newOrder rnd tz t listing pay k)" "po_status (newOrder rnd tz t listing pay k) = Menunggu"
  by (simp_all add: newOrder_def order_ok_def never_paid_def Let_def split: prod.split)

lemma places_inv:
  assumes "lawful P" "stored_ok P now d" "selectedPay listing k = Some pay" "fitsOrder (newOrder rnd tz now listing pay k)"
    and "po_id (newOrder rnd tz now listing pay k) \<notin> po_id ` set (getAllOrders P d)"
    and "handlePasangOrder P rnd tz now listing k d = (ui, d')"
  shows "stored_ok P now d' \<and> moves P d d'"
proof (cases "isValidOrder rnd listing k")
  case True
  then have d': "d' = createOrder P (newOrder rnd tz now listing pay k) d"
    using assms(3,6) by (simp add: handlePasangOrder_def)
  then have "getAllOrders P d' = newOrder rnd tz now listing pay k # getAllOrders P d"
    using assms(1,2,4) by (simp add: createOrder_def getAll_save stored_ok_def)
  then show ?thesis using assms(2,4,5) newOrder_ok
    by (auto simp: stored_ok_def moves_def status_move_def)
qed (use assms in \<open>simp add: handlePasangOrder_def\<close>)

lemma tick_inv:
  assumes "lawful P" "soon (now + AUTO_RELEASE_MS)" "stored_ok P now d" "chat_ok now (getAllOrders P d) c"
    and "countdownTick P tz now c d = (c', d')"
  shows "stored_ok P now d' \<and> moves P d d' \<and> chat_ok now (getAllOrders P d') c'"
proof -
  have "chat_ok now (getAllOrders P d) (c\<lparr>ch_deadline := x, ch_msLeft := y\<rparr>)" for x y
    using assms(4) by (simp add: chat_ok_def)
  from loadOrder_inv [OF assms(1-3) this] assms(3-5) show ?thesis
    by (auto simp: countdownTick_def chat_ok_def split: option.splits if_splits)
qed

lemma dialog_stored:
  assumes "dialog_ok now ps x" "list_all fitsOrder ps" "list_all (order_ok now) ps"
  shows "fitsOrder (dialogOrder x)" "order_ok now (dialogOrder x)" "\<exists>p \<in> set ps. po_id p = po_id (dialogOrder x)"
  using assms by (cases x; auto simp: list_all_iff)+

lemma sends_inv:
  assumes "lawful P" "stored_ok P now d" "chat_ok now (getAllOrders P d) c" "ch_dialog c = None"
    and "sendMessage P tz now c d = (c', d')"
  shows "stored_ok P now d' \<and> moves P d d' \<and> chat_ok now (getAllOrders P d') c'"
proof (cases "ch_order c")
  case (Some p)
  then have p: "p \<in> set (getAllOrders P d)" "po_id p = ch_orderId c" using assms(3) by (auto simp: chat_ok_def)
  then have "fitsOrder p" "order_ok now p" using assms(2) by (auto simp: stored_ok_def list_all_iff)
  with addMessages_inv [OF assms(1,2) p(1) refl p(2)] assms Some show ?thesis
    by (auto simp: sendMessage_def Let_def status_move_def chat_ok_def split: if_splits prod.splits)
qed (use assms in \<open>simp add: sendMessage_def\<close>)

lemma pays_inv:
  assumes "lawful P" "stored_ok P now d" "chat_ok now (getAllOrders P d) c" "ch_dialog c = None"
    and "handleSudahBayar P tz now c d = (c', d') \<or> handleKonfirmasiSudahBayarIDR P tz now c d = (c', d')"
  shows "stored_ok P now d' \<and> moves P d d' \<and> chat_ok now (getAllOrders P d') c'"
proof (cases "ch_order c")
  case (Some p)
  then have p: "p \<in> set (getAllOrders P d)" "po_id p = po_id (paidOrder now p)" "po_id (paidOrder now p) = ch_orderId c"
    using assms(3) by (auto simp: chat_ok_def)
  then have f: "fitsOrder (paidOrder now p)" "order_ok now p" using assms(2) by (auto simp: stored_ok_def list_all_iff)
  show ?thesis
  proof (cases "po_status p = Menunggu")
    case True
    have m: "status_move (po_status p) (po_status (paidOrder now p))" by (simp add: True status_move_def)
    from addMessages_inv [OF assms(1,2) p f(1) paidOrder_ok [OF f(2) True] m assms(4)] assms(5) Some True show ?thesis
      by (auto simp: handleSudahBayar_def handleKonfirmasiSudahBayarIDR_def Let_def chat_ok_def split: prod.splits)
  qed (use assms Some in \<open>auto simp: handleSudahBayar_def handleKonfirmasiSudahBayarIDR_def\<close>)
qed (use assms in \<open>auto simp: handleSudahBayar_def handleKonfirmasiSudahBayarIDR_def\<close>)

lemma releases_inv:
  assumes "lawful P" "stored_ok P now d" "chat_ok now (getAllOrders P d) c" "ch_dialog c = Some (AskLepas q)"
    and "confirmLepas P tz now q c d = (c', d')"
  shows "stored_ok P now d' \<and> moves P d d' \<and> chat_ok now (getAllOrders P d') c'"
proof -
  have q: "fitsOrder (releasedOrder now q)" "order_ok now (releasedOrder now q)" "po_id (releasedOrder now q) = ch_orderId c"
    using assms(3,4) releasedOrder_ok by (auto simp: chat_ok_def)
  obtain p where p: "p \<in> set (getAllOrders P d)" "po_id p = po_id (releasedOrder now q)"
      "status_move (po_status p) (po_status (releasedOrder now q))"
    using assms(3,4) by (auto simp: chat_ok_def status_move_def)
  obtain c1 where a: "addMessages P now (releasedOrder now q) (releaseMessages tz now q) (c\<lparr>ch_dialog := None\<rparr>) d = (c1, d')"
      "c' = c1\<lparr>ch_deadline := None, ch_alerts := ch_alerts c1 @ [releaseAlert q]\<rparr>"
    using assms(5) by (auto simp: confirmLepas_def split: prod.splits)
  from addMessages_inv [OF assms(1,2) p(1,2) _ q(1,2) p(3) _ a(1)] q(3) show ?thesis
    unfolding a(2) by (simp add: chat_ok_def)
qed

lemma cancels_inv:
  assumes "lawful P" "stored_ok P now d" "chat_ok now (getAllOrders P d) c" "ch_dialog c = Some (AskBatal q)"
    and "confirmCancel P tz now q c d = (c', d')"
  shows "stored_ok P now d' \<and> moves P d d'"
proof -
  let ?u = "q\<lparr>po_status := Dibatalkan\<rparr>"
  have q: "q \<in> set (getAllOrders P d)" "po_status q = Menunggu" "po_id q = ch_orderId c"
    using assms(3,4) by (auto simp: chat_ok_def)
  then have f: "fitsOrder q" "order_ok now q" using assms(2) by (auto simp: stored_ok_def list_all_iff)
  have "addMessages P now ?u (cancelMessages tz now) (c\<lparr>ch_dialog := None\<rparr>) d = (c', d')"
    using assms(5) by (simp add: confirmCancel_def)
  from addMessages_inv [OF assms(1,2) q(1) _ _ _ cancelled_ok [OF f(2) q(2)] _ _ this] q f(1) show ?thesis
    by (simp add: status_move_def)
qed

lemma p2p_okI:
  assumes "p2p_ok P s" "stored_ok P (p_now s) d \<and> moves P (p_dev s) d \<and> chat_ok (p_now s) (getAllOrders P d) c"
  shows "p2p_ok P (s\<lparr>p_chat := Some c, p_dev := d\<rparr>) \<and> moves P (p_dev s) (p_dev (s\<lparr>p_chat := Some c, p_dev := d\<rparr>))"
  using assms by (simp add: p2p_ok_def)

lemma chat_asks:
  assumes "chat_ok now (getAllOrders P d) c" "stored_ok P now d"
  shows "ch_order c = Some p \<Longrightarrow> po_status p = Dibayar \<Longrightarrow> chat_ok now (getAllOrders P d) (handleLepasAset c)"
    and "ch_dialog c = None \<Longrightarrow> chat_ok now (getAllOrders P d) (handleCancel c)"
    and "chat_ok now (getAllOrders P d) (c\<lparr>ch_dialog := None\<rparr>)"
proof -
  have p: "p \<in> set (getAllOrders P d) \<and> po_id p = ch_orderId c \<and> fitsOrder p \<and> order_ok now p" if "ch_order c = Some p" for p
    using assms that by (auto simp: chat_ok_def stored_ok_def list_all_iff)
  show "ch_order c = Some p \<Longrightarrow> po_status p = Dibayar \<Longrightarrow> chat_ok now (getAllOrders P d) (handleLepasAset c)"
    using p [of p] by (auto simp: handleLepasAset_def chat_ok_def)
  show "ch_dialog c = None \<Longrightarrow> chat_ok now (getAllOrders P d) (handleCancel c)"
    using p by (auto simp: handleCancel_def chat_ok_def split: option.splits)
  show "chat_ok now (getAllOrders P d) (c\<lparr>ch_dialog := None\<rparr>)"
    using p by (auto simp: chat_ok_def)
qed

lemma step_inv:
  assumes "p2p_step P rnd tz s s'" "lawful P" "p2p_ok P s"
  shows "p2p_ok P s' \<and> moves P (p_dev s) (p_dev s')"
proof -
  have inv: "soon (p_now s + AUTO_RELEASE_MS)" "stored_ok P (p_now s) (p_dev s)"
    and chat: "p_chat s = Some c \<Longrightarrow> chat_ok (p_now s) (getAllOrders P (p_dev s)) c" for c
    using assms(3) by (auto simp: p2p_ok_def)
  show ?thesis using assms(1)
  proof cases
    case (passes t)
    with passes_inv [OF assms(3)] show ?thesis by simp
  next
    case (market k k' d)
    then have "d = snd (processAutoReleases P tz (p_now s) (p_dev s))" by (auto simp: focusMarket_def Let_def)
    with release_inv [OF assms(2) inv, of tz] market inv show ?thesis by (simp add: p2p_ok_def)
  next
    case (places listing k pay ui d)
    from places_inv [OF assms(2) inv(2) places(3-6)] places inv(1) show ?thesis by (simp add: p2p_ok_def)
  next
    case (opens i c' d)
    have "chat_ok (p_now s) (getAllOrders P (p_dev s)) (openChat i)" by (simp add: chat_ok_def openChat_def)
    from loadOrder_inv [OF assms(2) inv this opens(3)] opens(1) assms(3) show ?thesis by (auto dest: p2p_okI)
  next
    case (ticks c c' d)
    from tick_inv [OF assms(2) inv chat [OF ticks(2)] ticks(3)] ticks(1) assms(3) show ?thesis by (auto dest: p2p_okI)
  next
    case (types c x)
    with chat [OF types(2)] inv show ?thesis by (simp add: p2p_ok_def chat_ok_def)
  next
    case (sends c p c' d)
    from sends_inv [OF assms(2) inv(2) chat [OF sends(2)] sends(3,6)] sends(1) assms(3) show ?thesis by (auto dest: p2p_okI)
  next
    case (pays c p c' d)
    from pays_inv [OF assms(2) inv(2) chat [OF pays(2)] pays(3) disjI1 [OF pays(6)]] pays(1) assms(3) show ?thesis
      by (auto dest: p2p_okI)
  next
    case (confirms c p c' d)
    from pays_inv [OF assms(2) inv(2) chat [OF confirms(2)] confirms(3) disjI2 [OF confirms(6)]] confirms(1) assms(3) show ?thesis
      by (auto dest: p2p_okI)
  next
    case (asks_release c p)
    from chat_asks(1) [OF chat [OF asks_release(2)] inv(2) asks_release(4,6)] asks_release(1) inv show ?thesis
      by (simp add: p2p_ok_def)
  next
    case (releases c p c' d)
    from releases_inv [OF assms(2) inv(2) chat [OF releases(2)] releases(3,4)] releases(1) assms(3) show ?thesis
      by (auto dest: p2p_okI)
  next
    case (asks_cancel c)
    from chat_asks(2) [OF chat [OF asks_cancel(2)] inv(2) asks_cancel(3)] asks_cancel(1) inv show ?thesis
      by (simp add: p2p_ok_def)
  next
    case (cancels c p c' d)
    from cancels_inv [OF assms(2) inv(2) chat [OF cancels(2)] cancels(3,4)] cancels(1) inv(1) show ?thesis
      by (simp add: p2p_ok_def)
  next
    case (dismisses c)
    from chat_asks(3) [OF chat [OF dismisses(2)] inv(2)] dismisses(1) inv show ?thesis by (simp add: p2p_ok_def)
  next
    case (leaves c)
    with inv show ?thesis by (simp add: p2p_ok_def)
  qed
qed

lemma reach_ok: "p2p_reach P rnd tz s \<Longrightarrow> lawful P \<Longrightarrow> p2p_ok P s"
  by (induction rule: p2p_reach.induct)
     (auto simp: p2p_ok_def stored_ok_def getAllOrders_def parseStored_def dest: step_inv [unfolded p2p_ok_def stored_ok_def])

section \<open>Properties\<close>


definition sample_listing :: P2PMyListing where
  "sample_listing = \<lparr>ml_id = ''listing_1'', ml_type = Jual, ml_asset = ''USDT'', ml_price = ''Rp16.550'', ml_priceNum = 16550,
    ml_limitMin = 10000, ml_limitMax = 2000000, ml_payment = ''BCA'',
    ml_payments = [\<lparr>py_method = ''BCA'', py_noRek = ''123'', py_nama = ''BUDI''\<rparr>], ml_active = True, ml_orders = 0,
    ml_createdAt = [], ml_requirements = None, ml_timeLimit = None\<rparr>"

definition sample_form :: order_form where
  "sample_form = \<lparr>of_idrMode = True, of_inputValue = ''100.000'', of_selectedPayIdx = 0\<rparr>"

definition sample_market :: "((string \<times> string) list, (string \<times> string) list) p2p" where
  "sample_market = \<lparr>p_dev = snd (handlePasangOrder sample_phone id 420 1000 sample_listing sample_form sample_device),
    p_chat = None, p_now = 1000\<rparr>"

definition sample_pay :: Payment where
  "sample_pay = \<lparr>py_method = ''BCA'', py_noRek = ''123'', py_nama = ''BUDI''\<rparr>"

lemma sample_raw: "rawValue id ''100.000'' = 100000"
  by (simp add: rawValue_def parseFloat_def js_space_def isDigit_def digits_val_def exponentOf_def scale10_def)

lemma sample_amounts: "orderAmounts id sample_listing sample_form = (100000, 100000 / 16550)" "isValidOrder id sample_listing sample_form"
  by (simp_all add: orderAmounts_def isValidOrder_def sample_form_def sample_listing_def perPrice_def sample_raw)

lemma sample_fits: "fitsOrder (newOrder id 420 1000 sample_listing sample_pay sample_form)"
proof -
  have "\<lfloor>(100000 :: rat) / 16550 * 10 ^ 4 + 1 / 2\<rfloor> = 60423" by (simp add: floor_eq_iff)
  then have "fixedDec 4 (100000 / 16550) = (60423, 4)" by (simp add: fixedDec_def eval_nat_numeral)
  moreover have "math_round 100000 = 100000" by (simp add: math_round_def floor_eq_iff)
  moreover have "ml_priceNum sample_listing = 16550" by (simp add: sample_listing_def)
  ultimately show ?thesis using sample_amounts by (simp add: newOrder_def fitsOrder_def Let_def)
qed

lemma sample_now: "p_now sample_market = 1000"
  by (simp add: sample_market_def)

lemma sample_pays: "selectedPay sample_listing sample_form = Some sample_pay"
  by (simp add: selectedPay_def sample_listing_def sample_form_def sample_pay_def)

lemma sample_orders:
  "getAllOrders sample_phone sample_device = []"
  "getAllOrders sample_phone (p_dev sample_market) = [newOrder id 420 1000 sample_listing sample_pay sample_form]"
proof -
  show e: "getAllOrders sample_phone sample_device = []"
    by (simp add: getAllOrders_def parseStored_def asyncGet_def sample_phone_def sample_kvs_def sample_device_def)
  show "getAllOrders sample_phone (p_dev sample_market) = [newOrder id 420 1000 sample_listing sample_pay sample_form]"
    using sample_fits
    by (simp add: sample_market_def handlePasangOrder_def sample_amounts(2) sample_pays createOrder_def e getAll_save lawful_phone)
qed

lemma sample_market_reach: "p2p_reach sample_phone id 420 sample_market"
proof -
  let ?s = "\<lparr>p_dev = sample_device, p_chat = None, p_now = 1000\<rparr>" and ?d = "p_dev sample_market"
  have none: "asyncGet sample_phone ORDERS_KEY sample_device = None"
    by (simp add: asyncGet_def sample_phone_def sample_kvs_def sample_device_def)
  obtain ui where "handlePasangOrder sample_phone id 420 1000 sample_listing sample_form sample_device = (ui, ?d)"
    by (simp add: sample_market_def) (metis surjective_pairing)
  then have "p2p_step sample_phone id 420 ?s (?s\<lparr>p_dev := ?d\<rparr>)"
    using sample_pays sample_fits by (intro p2p_step.places [where ui = ui and listing = sample_listing and k = sample_form]) (simp_all add: sample_orders)
  moreover have "p2p_reach sample_phone id 420 ?s"
    using none by (intro p2p_reach.fresh) (simp_all add: soon_def AUTO_RELEASE_MS_def)
  ultimately have "p2p_reach sample_phone id 420 (?s\<lparr>p_dev := ?d\<rparr>)" by (rule p2p_reach.steps [rotated])
  then show ?thesis by (simp add: sample_market_def)
qed


text \<open>A dialog that was opened before the deadline and is confirmed after the automatic release
  overwrites it: the order then counts as released by the user, and the messages about the
  automatic release and the penalty are gone.\<close>

theorem stale_release:
  assumes "lawful P" "soon (now + AUTO_RELEASE_MS)" "stored_ok P now d" "q \<in> set (getAllOrders P d)" "expired now q"
    and "d1 = snd (processAutoReleases P tz now d)" "confirmLepas P tz now q c d1 = (c2, d2)"
  shows "autoReleased tz now q \<in> set (getAllOrders P d1)"
    and "withMessages now (releasedOrder now q) (releaseMessages tz now q) \<in> set (getAllOrders P d2)"
    and "autoReleased tz now q \<notin> set (getAllOrders P d2)"
proof -
  let ?u = "withMessages now (releasedOrder now q) (releaseMessages tz now q)"
  have all: "getAllOrders P d1 = map (releaseStep tz now) (getAllOrders P d)"
    using assms(1,3) unfolding assms(6) by (intro getAll_release) (simp_all add: stored_ok_def)
  have "releaseStep tz now q = autoReleased tz now q" using assms(5) by (simp add: releaseStep_def)
  then show ar: "autoReleased tz now q \<in> set (getAllOrders P d1)" using assms(4) by (auto simp: all image_iff) metis
  have st: "stored_ok P now d1" unfolding assms(6) using release_inv(1) [OF assms(1-3)] .
  have q: "fitsOrder q" "order_ok now q" "po_status q = Dibayar"
    using assms(3-5) by (auto simp: stored_ok_def list_all_iff expired_def)
  have d2: "d2 = updateOrder P ?u d1"
    using assms(7) by (auto simp: confirmLepas_def addMessages_def saveAndSet_def)
  have pa: "po_id (autoReleased tz now q) = po_id ?u" "po_status (autoReleased tz now q) = AutoLepas"
    by (simp_all add: autoReleased_def Let_def)
  note up = update_inv [OF assms(1) st ar, of ?u, OF pa(1)]
  have u: "getAllOrders P d2 = putOrder ?u (getAllOrders P d1)" "?u \<in> set (putOrder ?u (getAllOrders P d1))"
    using up(1,2) q releasedOrder_ok [OF q(2,3)] pa(2) unfolding d2 by (simp_all add: status_move_def)
  then show "?u \<in> set (getAllOrders P d2)" by simp
  have "po_status ?u = Selesai" by simp
  with pa show "autoReleased tz now q \<notin> set (getAllOrders P d2)"
    unfolding u(1) by (auto simp: putOrder_def split: if_splits)
qed

end
