(* ===== verification/GarudaApi.thy ===== *)
theory GarudaApi
  imports Background Numbers
begin

text \<open>
  The API client of the mobile wallet: \<open>mobile/utils/garuda-api.ts\<close>. \<open>fetch\<close> is an argument: it maps
  a request to a reply or to a network error. Replies are JSON values of any shape, since the
  casts of the source do not check them; reading a property of \<open>null\<close> throws, as in the source.
\<close>

section \<open>Requests and replies\<close>

record http_request =
  hq_url :: string
  hq_method :: string
  hq_headers :: "(string \<times> string) list"
  hq_body :: "string option"

record http_reply =
  hr_ok :: bool
  hr_status :: nat
  hr_statusText :: string
  hr_text :: "string result"        \<comment> \<open>\<open>res.text()\<close>\<close>

type_synonym fetch = "http_request \<Rightarrow> http_reply result"

record api =
  api_OS :: string
  api_fetch :: fetch

definition BASE :: "api \<Rightarrow> string" where
  "BASE A = (if api_OS A = ''web'' then ''http://localhost:5000'' else ''http://192.168.20.155:5000'')"

definition apiRequest :: "api \<Rightarrow> string \<Rightarrow> (string \<times> json) option \<Rightarrow> http_request" where
  "apiRequest A path init =
    \<lparr>hq_url = BASE A @ path, hq_method = (case init of None \<Rightarrow> ''GET'' | Some (meth, _) \<Rightarrow> meth),
     hq_headers = [(''Content-Type'', ''application/json'')], hq_body = map_option (\<lambda>(_, body). stringify body) init\<rparr>"

definition apiError :: "string \<Rightarrow> http_reply \<Rightarrow> js_error" where
  "apiError path res =
    (let txt = (case hr_text res of Inr t \<Rightarrow> t | Inl _ \<Rightarrow> hr_statusText res)
     in Error (''API '' @ path @ '' '' @ pict [0xE2, 0x86, 0x92] @ '' '' @ toString10 (hr_status res) @ '': '' @ txt))"

definition apiFetch :: "api \<Rightarrow> string \<Rightarrow> (string \<times> json) option \<Rightarrow> json result" where
  "apiFetch A path init =
    rbind (api_fetch A (apiRequest A path init)) (\<lambda>res.
      if \<not> hr_ok res then Inl (apiError path res) else rbind (hr_text res) jsonParse)"

abbreviation apiGet :: "api \<Rightarrow> string \<Rightarrow> json result" where
  "apiGet A path \<equiv> apiFetch A path None"

abbreviation apiPost :: "api \<Rightarrow> string \<Rightarrow> json \<Rightarrow> json result" where
  "apiPost A path body \<equiv> apiFetch A path (Some (''POST'', body))"

text \<open>\<open>try { ... } catch { return v }\<close>.\<close>

definition orCatch :: "'v \<Rightarrow> 'v result \<Rightarrow> 'v" where
  "orCatch v r = (case r of Inl _ \<Rightarrow> v | Inr x \<Rightarrow> x)"

text \<open>\<open>a ?? b\<close> and \<open>o?.k\<close>.\<close>

definition nullish :: "json option \<Rightarrow> json \<Rightarrow> json" where
  "nullish a b = (case a of None \<Rightarrow> b | Some v \<Rightarrow> if v = JNull then b else v)"

definition optProp :: "json \<Rightarrow> string \<Rightarrow> json option" where
  "optProp j k = (case getProp j k of Inl _ \<Rightarrow> None | Inr v \<Rightarrow> v)"

fun isArray :: "json \<Rightarrow> bool" where
  "isArray (JArr _) \<longleftrightarrow> True"
| "isArray _ \<longleftrightarrow> False"

text \<open>\<open>Array.isArray(data) ? data : data.k ?? []\<close>.\<close>

definition arrayOrMember :: "string \<Rightarrow> json \<Rightarrow> json result" where
  "arrayOrMember k data =
    (if isArray data then Inr data else rbind (getProp data k) (\<lambda>v. Inr (nullish v (JArr []))))"

definition arrayOrEmpty :: "json \<Rightarrow> json" where
  "arrayOrEmpty data = (if isArray data then data else JArr [])"

section \<open>Helpers\<close>

definition satoshiToGRD :: "(rat \<Rightarrow> rat) \<Rightarrow> rat \<Rightarrow> rat" where
  "satoshiToGRD rnd sat = rnd (sat / 100000000)"

definition formatGRD :: "(rat \<Rightarrow> rat) \<Rightarrow> rat \<Rightarrow> string" where
  "formatGRD rnd sat =
    (let grd = satoshiToGRD rnd sat
     in if grd = 0 then ''0 GRD''
        else if grd < rnd (1 / 1000) then toFixed 8 grd @ '' GRD''
        else if grd < 1 then toFixed 6 grd @ '' GRD''
        else localeId 0 4 grd @ '' GRD'')"

definition shortAddr :: "string \<Rightarrow> string" where
  "shortAddr addr =
    (if addr = [] \<or> length addr < 12 then addr else take 10 addr @ ''...'' @ drop (length addr - 6) addr)"

section \<open>Chain data\<close>

definition getBlockchainStats :: "api \<Rightarrow> json result" where
  "getBlockchainStats A = apiGet A ''/api/blockchain/stats''"

definition toSat :: "(rat \<Rightarrow> rat) \<Rightarrow> json option \<Rightarrow> json" where
  "toSat rnd v =
    (case v of Some (JNum n k) \<Rightarrow> JNum n k
     | _ \<Rightarrow> (case parseFloat rnd (case v of None \<Rightarrow> ''undefined'' | Some w \<Rightarrow> jsText w) of
               None \<Rightarrow> JNum 0 0
             | Some f \<Rightarrow> JNum (math_round (rnd (f * 100000000))) 0))"

text \<open>\<open>{...raw}\<close>.\<close>

fun spread :: "json \<Rightarrow> (string \<times> json) list" where
  "spread (JObj kvs) = kvs"
| "spread (JArr vs) = zip (map toString10 [0..<length vs]) vs"
| "spread (JStr s) = zip (map toString10 [0..<length s]) (map (\<lambda>c. JStr [c]) s)"
| "spread _ = []"

definition addressInfoOf :: "(rat \<Rightarrow> rat) \<Rightarrow> json \<Rightarrow> json result" where
  "addressInfoOf rnd raw =
    rbind (getProp raw ''balance'') (\<lambda>balance.
    rbind (getProp raw ''received'') (\<lambda>received.
    rbind (getProp raw ''sent'') (\<lambda>sent.
    rbind (getProp raw ''transactions'') (\<lambda>transactions.
      Inr (JObj (mput ''transactions'' (case transactions of None \<Rightarrow> JArr [] | Some t \<Rightarrow> arrayOrEmpty t)
                (mput ''sent'' (toSat rnd sent)
                (mput ''received'' (toSat rnd received)
                (mput ''balance'' (toSat rnd balance) (spread raw))))))))))"

definition getAddressInfo :: "api \<Rightarrow> (rat \<Rightarrow> rat) \<Rightarrow> string \<Rightarrow> json result" where
  "getAddressInfo A rnd address =
    rbind (apiGet A (''/api/blockchain/address/'' @ address)) (addressInfoOf rnd)"

definition getUTXOs :: "api \<Rightarrow> string \<Rightarrow> json result" where
  "getUTXOs A address = rbind (apiGet A (''/api/wallet/utxos?address='' @ address)) (arrayOrMember ''utxos'')"

definition api_broadcastTx :: "api \<Rightarrow> string \<Rightarrow> json result" where
  "api_broadcastTx A hex = apiPost A ''/api/broadcast'' (JObj [(''hex'', JStr hex)])"

definition getLatestBlocks :: "api \<Rightarrow> nat \<Rightarrow> json result" where
  "getLatestBlocks A limit =
    rbind (apiGet A (''/api/blockchain/blocks?limit='' @ toString10 limit)) (arrayOrMember ''blocks'')"

definition getLatestTransactions :: "api \<Rightarrow> nat \<Rightarrow> json result" where
  "getLatestTransactions A limit =
    rbind (apiGet A (''/api/blockchain/transactions?limit='' @ toString10 limit)) (arrayOrMember ''transactions'')"

text \<open>\<open>encodeURIComponent\<close> of the language.\<close>

definition unreserved :: "char \<Rightarrow> bool" where
  "unreserved c \<longleftrightarrow>
    (let n = of_char c :: nat
     in (65 \<le> n \<and> n \<le> 90) \<or> (97 \<le> n \<and> n \<le> 122) \<or> (48 \<le> n \<and> n \<le> 57) \<or> c \<in> set ''-_.!~*()'' \<or> n = 39)"

definition upperHex :: "byte \<Rightarrow> string" where
  "upperHex b = map (\<lambda>c. if 97 \<le> (of_char c :: nat) then char_of (of_char c - 32 :: nat) else c) (byteHex b)"

definition encodeURIComponent :: "string \<Rightarrow> string" where
  "encodeURIComponent s =
    concat (map (\<lambda>c. if unreserved c then [c] else concat (map (\<lambda>b. CHR ''%'' # upperHex b) (utf8_char c))) s)"

definition searchChain :: "api \<Rightarrow> string \<Rightarrow> json result" where
  "searchChain A q = apiGet A (''/api/blockchain/search?q='' @ encodeURIComponent q)"

definition getAssets :: "api \<Rightarrow> json result" where
  "getAssets A = rbind (apiGet A ''/api/blockchain/stocks'') (arrayOrMember ''assets'')"

definition getAssetDetail :: "api \<Rightarrow> string \<Rightarrow> json" where
  "getAssetDetail A i = orCatch JNull (apiGet A (''/api/blockchain/stock/'' @ i))"

definition getAssetOrderbook :: "api \<Rightarrow> string \<Rightarrow> json result" where
  "getAssetOrderbook A i = apiGet A (''/api/blockchain/orderbook/'' @ i)"

definition placeDEXOrder :: "api \<Rightarrow> json \<Rightarrow> json result" where
  "placeDEXOrder A params = apiPost A ''/api/dex/order'' params"

definition cbdcTransfer :: "api \<Rightarrow> json \<Rightarrow> json result" where
  "cbdcTransfer A params = apiPost A ''/api/cbdc/transfer'' params"

definition getStablecoins :: "api \<Rightarrow> json result" where
  "getStablecoins A = apiGet A ''/api/blockchain/stablecoins''"

definition getMiningInfo :: "api \<Rightarrow> json result" where
  "getMiningInfo A = apiGet A ''/api/blockchain/mining''"

section \<open>Exchange\<close>

record StablecoinEntry =
  se_assetId :: json
  se_symbol :: json
  se_name :: json

text \<open>\<open>s.a ?? s.b ?? ""\<close>; a property of \<open>null\<close> throws.\<close>

fun firstProp :: "string list \<Rightarrow> json \<Rightarrow> json result" where
  "firstProp [] j = Inr (JStr [])"
| "firstProp (k # ks) j =
    rbind (getProp j k) (\<lambda>v. case v of None \<Rightarrow> firstProp ks j | Some w \<Rightarrow> if w = JNull then firstProp ks j else Inr w)"

definition entryOf :: "string list \<Rightarrow> string list \<Rightarrow> json \<Rightarrow> StablecoinEntry result" where
  "entryOf symbolKeys nameKeys s =
    rbind (firstProp [''assetId'', ''asset_id''] s) (\<lambda>a.
    rbind (firstProp symbolKeys s) (\<lambda>sym.
    rbind (firstProp nameKeys s) (\<lambda>n.
      Inr \<lparr>se_assetId = a, se_symbol = sym, se_name = n\<rparr>)))"

fun mapEntries :: "(json \<Rightarrow> 'x result) \<Rightarrow> json \<Rightarrow> 'x list result" where
  "mapEntries f (JArr vs) = rmap f vs"
| "mapEntries f _ = Inl TypeError"

definition getStablecoinList :: "api \<Rightarrow> StablecoinEntry list result" where
  "getStablecoinList A =
    rbind (apiGet A ''/api/blockchain/stablecoins'') (\<lambda>data.
      let lst = (if isArray data then data else nullish (optProp data ''stablecoins'') (JArr []))
      in mapEntries (entryOf [''symbol'', ''kode''] [''name'', ''nama'']) lst)"

fun positive :: "json option \<Rightarrow> bool" where
  "positive (Some (JNum n k)) \<longleftrightarrow> n > 0"
| "positive _ \<longleftrightarrow> False"

definition oracleRate :: "json \<Rightarrow> json option" where
  "oracleRate data =
    (case data of JArr (x # _) \<Rightarrow> if positive (optProp x ''grd_per_unit'') then optProp x ''grd_per_unit'' else None | _ \<Rightarrow> None)"

definition pegRate :: "json \<Rightarrow> json" where
  "pegRate data =
    (if positive (optProp data ''peg_rate_grd'') then nullish (optProp data ''peg_rate_grd'') JNull
     else if positive (optProp data ''peg_rate'') then nullish (optProp data ''peg_rate'') JNull
     else JNum 1 3)"

definition getStablecoinPegRate :: "api \<Rightarrow> string \<Rightarrow> string \<Rightarrow> json" where
  "getStablecoinPegRate A assetId symbol =
    (case (if symbol = [] then None
           else orCatch None (rbind (apiGet A (''/api/oracle/rates?symbol='' @ symbol)) (\<lambda>data. Inr (oracleRate data)))) of
       Some r \<Rightarrow> r
     | None \<Rightarrow> orCatch (JNum 1 3) (rbind (apiGet A (''/api/blockchain/peg/'' @ assetId)) (\<lambda>data. Inr (pegRate data))))"

definition keepType :: "string \<Rightarrow> json \<Rightarrow> json list result" where
  "keepType t data =
    (case data of JArr vs \<Rightarrow>
       rbind (rmap (\<lambda>v. rbind (getProp v ''type'') (\<lambda>w. Inr (w = Some (JStr t), v))) vs) (\<lambda>tagged. Inr (map snd (filter fst tagged)))
     | _ \<Rightarrow> Inr [])"

definition getPeggedStablecoinList :: "api \<Rightarrow> StablecoinEntry list result" where
  "getPeggedStablecoinList A =
    rbind (apiGet A ''/api/blockchain/tokens'') (\<lambda>data.
    rbind (keepType ''STABLECOIN_PEGGED'' data) (rmap (entryOf [''symbol''] [''name''])))"

definition getStockList :: "api \<Rightarrow> StablecoinEntry list result" where
  "getStockList A =
    rbind (apiGet A ''/api/blockchain/stocks'') (\<lambda>data.
      let lst = (if isArray data then data else nullish (optProp data ''assets'') (nullish (optProp data ''stocks'') (JArr [])))
      in mapEntries (entryOf [''kode'', ''symbol''] [''nama'', ''name'']) lst)"

definition prepareTokenTransfer :: "api \<Rightarrow> json \<Rightarrow> json result" where
  "prepareTokenTransfer A params = apiPost A ''/api/dex/prepare-transfer'' params"

definition receiveGRD :: "api \<Rightarrow> json \<Rightarrow> json result" where
  "receiveGRD A params = apiPost A ''/api/dex/receive-grd'' params"

definition crossSwap :: "api \<Rightarrow> json \<Rightarrow> json result" where
  "crossSwap A params = apiPost A ''/api/dex/cross-swap'' params"

definition dexSwap :: "api \<Rightarrow> json \<Rightarrow> json result" where
  "dexSwap A params = apiPost A ''/api/dex/swap'' params"

definition dexPlaceOrder :: "api \<Rightarrow> json \<Rightarrow> json result" where
  "dexPlaceOrder A params = apiPost A ''/api/dex/order'' params"

definition getMyDexOrders :: "api \<Rightarrow> string \<Rightarrow> json result" where
  "getMyDexOrders A address =
    rbind (apiGet A (''/api/dex/my-orders/'' @ address @ ''?status=open'')) (arrayOrMember ''orders'')"

definition cancelDexOrder :: "api \<Rightarrow> string \<Rightarrow> string \<Rightarrow> json result" where
  "cancelDexOrder A orderId address =
    apiPost A ''/api/dex/order/cancel'' (JObj [(''order_id'', JStr orderId), (''address'', JStr address)])"

definition getDexWalletInfo :: "api \<Rightarrow> string \<Rightarrow> json" where
  "getDexWalletInfo A address =
    orCatch (JObj [(''connected'', JBool False), (''address'', JStr address), (''balance_grd'', JNum 0 0), (''assets'', JArr [])])
      (apiGet A (''/api/dex/wallet/connect?address='' @ address))"

definition bestPrice :: "json \<Rightarrow> string \<Rightarrow> rat" where
  "bestPrice ob side =
    (case optProp ob side of
       Some (JArr (x # _)) \<Rightarrow> (case optProp x ''price'' of Some (JNum n k) \<Rightarrow> dec_value (n, k) | _ \<Rightarrow> 0)
     | _ \<Rightarrow> 0)"

definition midPrice :: "(rat \<Rightarrow> rat) \<Rightarrow> json \<Rightarrow> rat" where
  "midPrice rnd ob =
    (let toGrd = (\<lambda>p. if p > 1000 then rnd (p / 100000000) else p);
         bestAsk = toGrd (bestPrice ob ''asks''); bestBid = toGrd (bestPrice ob ''bids'')
     in if bestAsk > 0 \<and> bestBid > 0 then rnd (rnd (bestAsk + bestBid) / 2) else if bestAsk \<noteq> 0 then bestAsk else bestBid)"

definition getAssetPrice :: "api \<Rightarrow> (rat \<Rightarrow> rat) \<Rightarrow> string \<Rightarrow> rat" where
  "getAssetPrice A rnd assetId =
    orCatch 0 (rbind (apiGet A (''/api/blockchain/orderbook/'' @ assetId)) (\<lambda>ob. Inr (midPrice rnd ob)))"

definition arrayApi :: "api \<Rightarrow> string \<Rightarrow> json" where
  "arrayApi A path = orCatch (JArr []) (rbind (apiGet A path) (\<lambda>data. Inr (arrayOrEmpty data)))"

definition getTradeHistory :: "api \<Rightarrow> string \<Rightarrow> json" where
  "getTradeHistory A assetId = arrayApi A (''/api/dex/trades/'' @ assetId)"

definition getPriceHistory :: "api \<Rightarrow> string \<Rightarrow> string \<Rightarrow> nat \<Rightarrow> json" where
  "getPriceHistory A assetId timeframe limit =
    arrayApi A (''/api/dex/price-history/'' @ assetId @ ''?timeframe='' @ timeframe @ ''&limit='' @ toString10 limit)"

definition getOracleRates :: "api \<Rightarrow> string \<Rightarrow> json" where
  "getOracleRates A symbol =
    orCatch (JArr []) (apiGet A (if symbol \<noteq> [] then ''/api/oracle/rates?symbol='' @ symbol else ''/api/oracle/rates''))"

definition getPresales :: "api \<Rightarrow> json" where
  "getPresales A = arrayApi A ''/api/blockchain/presales''"

definition getPresaleDetail :: "api \<Rightarrow> string \<Rightarrow> json" where
  "getPresaleDetail A assetId = orCatch JNull (apiGet A (''/api/blockchain/presale/'' @ assetId))"

definition buyPresale :: "api \<Rightarrow> json \<Rightarrow> json result" where
  "buyPresale A params = apiPost A ''/api/dex/presale/buy'' params"

definition getDividendHistory :: "api \<Rightarrow> string \<Rightarrow> json" where
  "getDividendHistory A assetId = arrayApi A (''/api/dividend/history/'' @ assetId)"

section \<open>What the client returns\<close>

text \<open>The functions that catch every error return an array, whatever the network and the server do.\<close>

lemma arrayApi_array: "isArray (arrayApi A path)"
  by (auto simp: arrayApi_def orCatch_def arrayOrEmpty_def split: sum.split)

lemmas histories_are_arrays = arrayApi_array [of A "''/api/blockchain/presales''" for A, folded getPresales_def]
  arrayApi_array [of A "''/api/dex/trades/'' @ assetId" for A assetId, folded getTradeHistory_def]
  arrayApi_array [of A "''/api/dividend/history/'' @ assetId" for A assetId, folded getDividendHistory_def]

text \<open>A status that is not a success becomes an error that names the path and the status.\<close>

lemma apiFetch_failure:
  assumes "api_fetch A (apiRequest A path init) = Inr res" "\<not> hr_ok res"
  shows "apiFetch A path init = Inl (apiError path res)"
  using assms by (simp add: apiFetch_def)

text \<open>The server reads back the parameters of a request.\<close>

lemma request_body: "wf_json body \<Longrightarrow> map_option jsonParse (hq_body (apiRequest A path (Some (meth, body)))) = Some (Inr body)"
  by (simp add: apiRequest_def json_roundtrip)

section \<open>Satoshi of a decimal text\<close>

text \<open>Rounding to a double with 53 significant bits.\<close>

definition rounds :: "(rat \<Rightarrow> rat) \<Rightarrow> bool" where
  "rounds rnd \<longleftrightarrow> (\<forall>x. \<bar>rnd x - x\<bar> \<le> \<bar>x\<bar> / 2 ^ 53)"

lemma twice_rounded:
  assumes "rounds rnd" "0 \<le> s" "s < 2 ^ 51"
  shows "\<bar>rnd (rnd (of_int s / 100000000) * 100000000) - of_int s\<bar> < 1 / 2"
proof -
  define x where "x = (of_int s :: rat)"
  define f where "f = rnd (x / 100000000) * 100000000"
  have x: "0 \<le> x" "x \<le> 2 ^ 51 - 1" using assms(2,3) by (simp_all add: x_def)
  have "\<bar>rnd (x / 100000000) - x / 100000000\<bar> \<le> \<bar>x / 100000000\<bar> / 2 ^ 53"
    using assms(1) unfolding rounds_def by blast
  then have f: "\<bar>f - x\<bar> \<le> x / 2 ^ 53" using x(1) by (simp add: f_def abs_le_iff field_simps)
  have "\<bar>rnd f - f\<bar> \<le> \<bar>f\<bar> / 2 ^ 53" using assms(1) unfolding rounds_def by blast
  with f x have "\<bar>rnd f - x\<bar> < 1 / 2" by (simp add: abs_le_iff abs_less_iff abs_if split: if_splits)
  then show ?thesis by (simp add: f_def x_def)
qed

lemma toSat_text:
  assumes "rounds rnd" "0 \<le> s" "s < 2 ^ 51"
  shows "toSat rnd (Some (JStr (printNum s 8))) = JNum s 0"
proof -
  define g where "g = rnd (rnd (of_int s / 100000000) * 100000000)"
  have "g - of_int s < 1 / 2" "of_int s - g < 1 / 2" using twice_rounded [OF assms] unfolding g_def abs_less_iff by simp_all
  then have "math_round g = s"
    unfolding math_round_def by (intro floor_unique) linarith+
  then show ?thesis using parse_printNum [OF assms(2), of rnd 8] by (simp add: toSat_def g_def)
qed

section \<open>Properties\<close>


definition sample_api :: "string \<Rightarrow> api" where
  "sample_api body = \<lparr>api_OS = ''web'', api_fetch = \<lambda>req. Inr \<lparr>hr_ok = True, hr_status = 200, hr_statusText = ''OK'',
     hr_text = Inr body\<rparr>\<rparr>"


end
