(* ===== verification/MobileSend.thy ===== *)
theory MobileSend
  imports GarudaApi Worker Accounts P2P
begin

text \<open>
  Sending from the mobile wallet (\<open>mobile/app/kirim.tsx\<close>): the amount and its check, the choice of
  outputs to spend, the signed transaction and its broadcast, over the device storage, the key
  derivation, the transaction builder and the API client.

  The handlers of the form are functions on the state of the screen. The clipboard and the image
  recognition of the browser are their arguments. While \<open>handleSend\<close> waits, \<open>sending\<close> disables its
  button; here it runs in one step.
\<close>

section \<open>The screen\<close>

datatype tipe = NATIVE | STABLECOIN | STABLECOIN_PEGGED | SAHAM

record SendAsset =
  sa_assetId :: json
  sa_symbol :: json
  sa_name :: json
  sa_tipe :: tipe

definition FEE_SATOSHI :: int where "FEE_SATOSHI = 1000"

definition GRD_ASSET :: SendAsset where
  "GRD_ASSET = \<lparr>sa_assetId = JStr ''native-grd'', sa_symbol = JStr ''GRD'', sa_name = JStr ''GarudaChain'', sa_tipe = NATIVE\<rparr>"

record kirim =
  kr_address :: string
  kr_amount :: string
  kr_showConfirm :: bool
  kr_sending :: bool
  kr_balanceSatoshi :: rat
  kr_myAddress :: string
  kr_txid :: "json option"
  kr_selectedAsset :: SendAsset
  kr_assetList :: "SendAsset list"
  kr_showPicker :: bool
  kr_pickerSearch :: string

definition KirimScreen :: kirim where
  "KirimScreen = \<lparr>kr_address = [], kr_amount = [], kr_showConfirm = False, kr_sending = False, kr_balanceSatoshi = 0,
    kr_myAddress = [], kr_txid = Some (JStr []), kr_selectedAsset = GRD_ASSET, kr_assetList = [GRD_ASSET],
    kr_showPicker = False, kr_pickerSearch = []\<rparr>"

definition loadBalance :: "('a, 's) platform \<Rightarrow> api \<Rightarrow> (rat \<Rightarrow> rat) \<Rightarrow> ('a, 's) device \<Rightarrow> kirim \<Rightarrow> kirim" where
  "loadBalance P A rnd d k =
    (case getActiveAccount P d of None \<Rightarrow> k
     | Some account \<Rightarrow>
         let k1 = k\<lparr>kr_myAddress := wa_address account\<rparr>
         in case getAddressInfo A rnd (wa_address account) of
              Inl _ \<Rightarrow> k1
            | Inr info \<Rightarrow> (case optProp info ''balance'' of
                             Some (JNum n j) \<Rightarrow> k1\<lparr>kr_balanceSatoshi := dec_value (n, j)\<rparr>
                           | _ \<Rightarrow> k1\<lparr>kr_balanceSatoshi := 0\<rparr>))"

definition sendAsset :: "tipe \<Rightarrow> StablecoinEntry \<Rightarrow> SendAsset" where
  "sendAsset t e = \<lparr>sa_assetId = se_assetId e, sa_symbol = se_symbol e, sa_name = se_name e, sa_tipe = t\<rparr>"

definition loadAssets :: "api \<Rightarrow> kirim \<Rightarrow> kirim" where
  "loadAssets A k =
    (let sc = orCatch [] (getStablecoinList A); pegged = orCatch [] (getPeggedStablecoinList A); st = orCatch [] (getStockList A)
     in k\<lparr>kr_assetList := [GRD_ASSET] @ map (sendAsset STABLECOIN) sc @ map (sendAsset STABLECOIN_PEGGED) pegged @
          map (sendAsset SAHAM) st\<rparr>)"

definition amountNum :: "(rat \<Rightarrow> rat) \<Rightarrow> kirim \<Rightarrow> rat option" where
  "amountNum rnd k = parseFloat rnd (if kr_amount k = [] then ''0'' else kr_amount k)"

definition amountSatoshi :: "(rat \<Rightarrow> rat) \<Rightarrow> kirim \<Rightarrow> int option" where
  "amountSatoshi rnd k = map_option (\<lambda>a. \<lfloor>rnd (a * 100000000)\<rfloor>) (amountNum rnd k)"

text \<open>A comparison with \<open>NaN\<close> is false.\<close>

definition canSend :: "(rat \<Rightarrow> rat) \<Rightarrow> kirim \<Rightarrow> bool" where
  "canSend rnd k \<longleftrightarrow>
    (if take 4 (kr_address k) \<noteq> ''grd1'' \<or> (case amountNum rnd k of Some a \<Rightarrow> a \<le> 0 | None \<Rightarrow> False) then False
     else if sa_tipe (kr_selectedAsset k) = NATIVE then
       (case amountSatoshi rnd k of Some s \<Rightarrow> of_int (s + FEE_SATOSHI) \<le> kr_balanceSatoshi k | None \<Rightarrow> False)
     else True)"

definition handlePaste :: "string \<Rightarrow> kirim \<Rightarrow> kirim" where
  "handlePaste text k = (if text \<noteq> [] then k\<lparr>kr_address := trim text\<rparr> else k)"

text \<open>What the platform offers to scan with: \<open>Detector\<close> carries the texts of the codes in the chosen
  image, \<open>None\<close> where the recognition throws. The second component is the alert.\<close>

datatype scanner = Detector "string list option" | Clipboard string

definition handleScanQR :: "bool \<Rightarrow> scanner \<Rightarrow> kirim \<Rightarrow> kirim \<times> string option" where
  "handleScanQR web scan k =
    (case scan of
       Clipboard text \<Rightarrow>
         if take 4 text = ''grd1'' then (k\<lparr>kr_address := trim text\<rparr>, None)
         else (k, Some (if web then ''Salin alamat dari aplikasi lain lalu tekan ikon clipboard.''
                        else ''Scan QR dengan kamera sistem, salin alamat, lalu tekan ini lagi.''))
     | Detector None \<Rightarrow> (k, Some ''Gagal decode QR.'')
     | Detector (Some []) \<Rightarrow> (k, Some ''QR code tidak ditemukan dalam gambar.'')
     | Detector (Some (rawValue # _)) \<Rightarrow> (k\<lparr>kr_address := trim rawValue\<rparr>, None))"

definition pressMax :: "(rat \<Rightarrow> rat) \<Rightarrow> kirim \<Rightarrow> kirim" where
  "pressMax rnd k = k\<lparr>kr_amount := toFixed 8 (rnd (max 0 (kr_balanceSatoshi k - of_int FEE_SATOSHI) / 100000000))\<rparr>"

definition openConfirm :: "(rat \<Rightarrow> rat) \<Rightarrow> kirim \<Rightarrow> kirim" where
  "openConfirm rnd k = (if canSend rnd k then k\<lparr>kr_showConfirm := True\<rparr> else k)"

definition openPicker :: "kirim \<Rightarrow> kirim" where
  "openPicker k = k\<lparr>kr_showPicker := True, kr_pickerSearch := []\<rparr>"

definition pickAsset :: "SendAsset \<Rightarrow> kirim \<Rightarrow> kirim" where
  "pickAsset asset k = k\<lparr>kr_selectedAsset := asset, kr_amount := [], kr_showPicker := False\<rparr>"

text \<open>The fields of an asset come from the API; \<open>toLowerCase\<close> throws on anything but a text.\<close>

fun lowerJson :: "json \<Rightarrow> string result" where
  "lowerJson (JStr s) = Inr (toLowerCase s)"
| "lowerJson v = Inl TypeError"

definition matchesSearch :: "string \<Rightarrow> SendAsset \<Rightarrow> bool result" where
  "matchesSearch pickerSearch a =
    rbind (lowerJson (sa_symbol a)) (\<lambda>sym.
      if isInfix (toLowerCase pickerSearch) sym then Inr True
      else rbind (lowerJson (sa_name a)) (\<lambda>nm. Inr (isInfix (toLowerCase pickerSearch) nm)))"

fun filterAssets :: "string \<Rightarrow> SendAsset list \<Rightarrow> SendAsset list result" where
  "filterAssets pickerSearch [] = Inr []"
| "filterAssets pickerSearch (a # as) =
    rbind (if pickerSearch = [] then Inr True else matchesSearch pickerSearch a) (\<lambda>keep.
    rbind (filterAssets pickerSearch as) (\<lambda>rest. Inr (if keep then a # rest else rest)))"

definition filteredAssets :: "kirim \<Rightarrow> SendAsset list result" where
  "filteredAssets k = filterAssets (kr_pickerSearch k) (kr_assetList k)"

section \<open>Payments\<close>

abbreviation pays :: "string \<Rightarrow> int \<Rightarrow> TxOutput" where
  "pays a v \<equiv> \<lparr>out_address = Some a, out_opreturn = None, out_value = v\<rparr>"

definition grdPayment :: "int \<Rightarrow> string \<Rightarrow> string \<Rightarrow> UTXO list \<Rightarrow> (UTXO list \<times> TxOutput list) result" where
  "grdPayment amount address myAddress utxos =
    (if utxos = [] then Inl (Error ''Tidak ada UTXO tersedia'')
     else let needed = amount + FEE_SATOSHI;
              (selectedUtxos, collected) = collectUtxos (of_int needed) utxos [] 0;
              change = collected - needed
          in Inr (selectedUtxos, [pays address amount] @ (if change > 546 then [pays myAddress change] else [])))"

definition assetPayment :: "string \<Rightarrow> string \<Rightarrow> UTXO list \<Rightarrow> (UTXO list \<times> TxOutput list) result" where
  "assetPayment opreturn_data myAddress utxos =
    (if utxos = [] then Inl (Error ''Tidak ada UTXO (butuh sedikit GRD untuk fee)'')
     else let (feeUtxos, feeCollected) = collectUtxos (of_int (FEE_SATOSHI + 546)) utxos [] 0
          in if feeCollected < FEE_SATOSHI then Inl (Error ''Saldo GRD tidak cukup untuk fee'')
             else let change = feeCollected - FEE_SATOSHI
                  in Inr (feeUtxos, [\<lparr>out_address = None, out_opreturn = Some opreturn_data, out_value = 0\<rparr>] @
                       (if change > 546 then [pays myAddress change] else [])))"

definition signedWith :: "crypto \<Rightarrow> DerivedKey \<Rightarrow> UTXO list \<times> TxOutput list \<Rightarrow> string result" where
  "signedWith C key tx = buildAndSignTx C (fst tx) (snd tx) (dk_privateKey key) (dk_publicKey key)"

text \<open>A number prints with the fewest decimals that read back as the same double (below
  \<open>2 ^ 53\<close>, where doubles hold every integer), and \<open>NaN\<close> as null.\<close>

definition numJson :: "(rat \<Rightarrow> rat) \<Rightarrow> rat \<Rightarrow> json" where
  "numJson rnd x =
    (case find (\<lambda>j. rnd (of_int (math_round (x * 10 ^ j)) / 10 ^ j) = x) [0..<325] of
       Some j \<Rightarrow> JNum (math_round (x * 10 ^ j)) j
     | None \<Rightarrow> JNum 0 0)"

definition amountJson :: "(rat \<Rightarrow> rat) \<Rightarrow> kirim \<Rightarrow> json" where
  "amountJson rnd k = (case amountNum rnd k of Some x \<Rightarrow> numJson rnd x | None \<Rightarrow> JNull)"

definition transferParams :: "(rat \<Rightarrow> rat) \<Rightarrow> kirim \<Rightarrow> json" where
  "transferParams rnd k = JObj [(''asset_id'', sa_assetId (kr_selectedAsset k)), (''amount'', amountJson rnd k),
    (''from'', JStr (kr_myAddress k)), (''to'', JStr (kr_address k))]"

definition opreturnData :: "json \<Rightarrow> string result" where
  "opreturnData prep =
    rbind (getProp prep ''error'') (\<lambda>e.
    rbind (getProp prep ''opreturn_data'') (\<lambda>v.
      let failed = Inl (Error (jsText (nullish e (JStr ''Gagal prepare transfer''))))
      in case (orElse e None, orElse v None) of
           (None, Some (JStr opreturn_data)) \<Rightarrow> Inr opreturn_data
         | _ \<Rightarrow> failed))"

definition utxosFor :: "api \<Rightarrow> string \<Rightarrow> UTXO list result" where
  "utxosFor A address = rbind (getUTXOs A address) (\<lambda>v. utxoArray (Some v))"

definition sendKey :: "('a, 's) platform \<Rightarrow> crypto \<Rightarrow> ('a, 's) device \<Rightarrow> DerivedKey result" where
  "sendKey P C d =
    (case loadWallet P d of None \<Rightarrow> Inl (Error ''Wallet tidak ditemukan'') | Some wallet \<Rightarrow> deriveKey C (sw_mnemonic wallet) 0)"

definition signedPayment ::
    "('a, 's) platform \<Rightarrow> api \<Rightarrow> crypto \<Rightarrow> (rat \<Rightarrow> rat) \<Rightarrow> ('a, 's) device \<Rightarrow> kirim \<Rightarrow> string result" where
  "signedPayment P A C rnd d k =
    rbind (sendKey P C d) (\<lambda>key.
    rbind (if sa_tipe (kr_selectedAsset k) = NATIVE
           then rbind (utxosFor A (kr_myAddress k)) (\<lambda>utxos.
                  case amountSatoshi rnd k of None \<Rightarrow> Inl RangeError
                  | Some amount \<Rightarrow> grdPayment amount (kr_address k) (kr_myAddress k) utxos)
           else rbind (prepareTokenTransfer A (transferParams rnd k)) (\<lambda>prep.
                rbind (opreturnData prep) (\<lambda>data.
                rbind (utxosFor A (kr_myAddress k)) (assetPayment data (kr_myAddress k)))))
      (signedWith C key))"

text \<open>The new state, the transaction handed to the API, and the error of the alert.\<close>

definition handleSend ::
    "('a, 's) platform \<Rightarrow> api \<Rightarrow> crypto \<Rightarrow> (rat \<Rightarrow> rat) \<Rightarrow> ('a, 's) device \<Rightarrow> kirim \<Rightarrow>
      kirim \<times> string option \<times> js_error option" where
  "handleSend P A C rnd d k =
    (if \<not> canSend rnd k \<or> kr_sending k then (k, None, None)
     else case signedPayment P A C rnd d k of
            Inl e \<Rightarrow> (k\<lparr>kr_sending := False\<rparr>, None, Some e)
          | Inr rawHex \<Rightarrow>
              (case rbind (api_broadcastTx A rawHex) (\<lambda>result. getProp result ''txid'') of
                 Inl e \<Rightarrow> (k\<lparr>kr_sending := False\<rparr>, Some rawHex, Some e)
               | Inr t \<Rightarrow> (k\<lparr>kr_txid := t, kr_showConfirm := False, kr_sending := False\<rparr>, Some rawHex, None)))"

section \<open>The typed amount\<close>

text \<open>\<open>Math.floor\<close> of the rounded product may be one satoshi below the typed amount, never above it.\<close>

lemma typed_amount:
  assumes "rounds rnd" "0 \<le> s" "s < 2 ^ 51" "kr_amount k = printNum s 8"
  shows "amountSatoshi rnd k = Some s \<or> amountSatoshi rnd k = Some (s - 1)"
proof -
  define g where "g = rnd (rnd (of_int s / 100000000) * 100000000)"
  have g: "g - of_int s < 1 / 2" "of_int s - g < 1 / 2" using twice_rounded [OF assms(1-3)] unfolding g_def abs_less_iff by simp_all
  have "printNum s 8 \<noteq> []" using toString10_facts by (simp add: printNum_def)
  then have a: "amountSatoshi rnd k = Some \<lfloor>g\<rfloor>"
    using parse_printNum [OF assms(2), of rnd 8] by (simp add: amountSatoshi_def amountNum_def assms(4) g_def)
  show ?thesis
  proof (cases "of_int s \<le> g")
    case True
    with g have "\<lfloor>g\<rfloor> = s" by (intro floor_unique) linarith+
    with a show ?thesis by simp
  next
    case False
    with g have "\<lfloor>g\<rfloor> = s - 1" by (intro floor_unique) (unfold of_int_diff of_int_1, linarith+)
    with a show ?thesis by simp
  qed
qed

text \<open>With an amount that is not a number, the native coin cannot be sent, but every other asset can.\<close>

lemma canSend_NaN:
  assumes "amountNum rnd k = None"
  shows "canSend rnd k \<longleftrightarrow> take 4 (kr_address k) = ''grd1'' \<and> sa_tipe (kr_selectedAsset k) \<noteq> NATIVE"
  using assms by (simp add: canSend_def amountSatoshi_def)

lemma rounded_satoshi:
  assumes "rounds rnd" "0 \<le> s"
  shows "rnd (of_int s / 100000000) * 100000000 - of_int s \<le> of_int s / 2 ^ 53"
    "of_int s - rnd (of_int s / 100000000) * 100000000 \<le> of_int s / 2 ^ 53"
proof -
  have "\<bar>rnd (of_int s / 100000000) - of_int s / 100000000\<bar> \<le> \<bar>of_int s / 100000000\<bar> / 2 ^ 53"
    using assms(1) unfolding rounds_def by blast
  then show "rnd (of_int s / 100000000) * 100000000 - of_int s \<le> of_int s / 2 ^ 53"
    "of_int s - rnd (of_int s / 100000000) * 100000000 \<le> of_int s / 2 ^ 53"
    unfolding abs_le_iff using assms(2) by simp_all
qed

text \<open>The button for the whole balance fills in an amount that can be sent.\<close>

lemma pressMax_amount:
  assumes "rounds rnd" "0 \<le> s" "s < 2 ^ 51" "kr_balanceSatoshi k = of_int (s + FEE_SATOSHI)"
  shows "kr_amount (pressMax rnd k) = printNum s 8"
proof -
  define x where "x = (of_int s :: rat)"
  define f where "f = rnd (x / 100000000)"
  have x: "0 \<le> x" "x \<le> 2 ^ 51 - 1" using assms(2,3) by (simp_all add: x_def)
  have f: "f * 100000000 - x \<le> x / 2 ^ 53" "x - f * 100000000 \<le> x / 2 ^ 53"
    using rounded_satoshi [OF assms(1,2)] by (simp_all add: f_def x_def)
  with x have p: "0 \<le> f" by simp
  have "\<lfloor>f * 100000000 + 1 / 2\<rfloor> = s" using f x unfolding x_def by (intro floor_unique) (simp_all add: field_simps)
  with p show ?thesis using assms(2,4) by (simp add: pressMax_def toFixed_def f_def x_def FEE_SATOSHI_def max_def)
qed

lemma pressMax_sendable:
  assumes "rounds rnd" "0 < s" "s < 2 ^ 51" "kr_balanceSatoshi k = of_int (s + FEE_SATOSHI)" "take 4 (kr_address k) = ''grd1''"
  shows "canSend rnd (pressMax rnd k)"
proof -
  let ?k = "pressMax rnd k"
  have a: "kr_amount ?k = printNum s 8" using pressMax_amount assms by simp
  have o: "kr_balanceSatoshi ?k = of_int (s + FEE_SATOSHI)" "kr_address ?k = kr_address k" using assms(4) by (simp_all add: pressMax_def)
  have "printNum s 8 \<noteq> []" using toString10_facts by (simp add: printNum_def)
  then have n: "amountNum rnd ?k = Some (rnd (of_int s / 100000000))"
    using parse_printNum [of s rnd 8] assms(2) a by (simp add: amountNum_def)
  have "(0 :: rat) < of_int s" using assms(2) by simp
  then have "\<not> rnd (of_int s / 100000000) \<le> 0" using rounded_satoshi(2) [OF assms(1), of s] assms(2) by simp
  moreover have "amountSatoshi rnd ?k = Some s \<or> amountSatoshi rnd ?k = Some (s - 1)" using typed_amount [OF assms(1) _ assms(3) a] assms(2) by simp
  ultimately show ?thesis using n o assms(5) by (auto simp: canSend_def)
qed

text \<open>The number in a request reads back as the number of the form.\<close>

lemma numJson_read: "rnd y = x \<Longrightarrow> y = of_int m / 10 ^ j \<Longrightarrow> j < 325 \<Longrightarrow> x * 10 ^ j - of_int m < 1 / 2 \<Longrightarrow> of_int m - x * 10 ^ j < 1 / 2 \<Longrightarrow>
  \<exists>n i. numJson rnd x = JNum n i \<and> rnd (dec_value (n, i)) = x \<and> i \<le> j"
proof -
  assume a: "rnd y = x" "y = of_int m / 10 ^ j" "j < 325" "x * 10 ^ j - of_int m < 1 / 2" "of_int m - x * 10 ^ j < 1 / 2"
  have "math_round (x * 10 ^ j) = m" unfolding math_round_def using a(4,5) by (intro floor_unique) linarith+
  with a(1,2) have q: "rnd (of_int (math_round (x * 10 ^ j)) / 10 ^ j) = x" by simp
  show ?thesis
  proof (cases "find (\<lambda>j. rnd (of_int (math_round (x * 10 ^ j)) / 10 ^ j) = x) [0..<325]")
    case None
    with q a(3) show ?thesis by (auto simp: find_None_iff simp del: upt_rec_numeral)
  next
    case (Some i)
    then obtain p where p: "p < 325" "i = [0..<325] ! p" "rnd (of_int (math_round (x * 10 ^ i)) / 10 ^ i) = x"
        "\<forall>l<p. rnd (of_int (math_round (x * 10 ^ ([0..<325] ! l))) / 10 ^ ([0..<325] ! l)) \<noteq> x"
      by (auto simp: find_Some_iff simp del: upt_rec_numeral)
    then have "i \<le> j" using q by (cases "i \<le> j") (auto simp: nth_upt simp del: upt_rec_numeral)
    with Some p(3) show ?thesis by (simp add: numJson_def)
  qed
qed

section \<open>Payments\<close>

definition outputTotal :: "TxOutput list \<Rightarrow> int" where
  "outputTotal outs = sum_list (map out_value outs)"

lemma grdPayment_ok:
  assumes "utxos \<noteq> []" "\<forall>u \<in> set utxos. 0 \<le> utxo_value u"
  shows "\<exists>n outs. grdPayment amount address me utxos = Inr (take n utxos, outs) \<and> hd outs = pays address amount \<and>
    list_all (\<lambda>out. out_address out = Some me) (tl outs) \<and>
    (if amount + 1000 \<le> inputSum utxos
     then 1000 \<le> inputSum (take n utxos) - outputTotal outs \<and> inputSum (take n utxos) - outputTotal outs \<le> 1546
     else take n utxos = utxos \<and> outs = [pays address amount])"
proof -
  obtain sel c where c: "collectUtxos (of_int (amount + 1000)) utxos [] 0 = (sel, c)" by fastforce
  from collectUtxos_prefix [OF c] obtain n where n: "sel = take n utxos" "c = inputSum sel" "amount + 1000 \<le> c \<or> n = length utxos"
    by (auto simp: inputSum_def simp del: of_int_add)
  have "inputSum utxos = c + inputSum (drop n utxos)"
    unfolding n(2) n(1) inputSum_def by (metis append_take_drop_id map_append sum_list_append)
  moreover have "0 \<le> inputSum (drop n utxos)"
    unfolding inputSum_def using assms(2) by (intro sum_list_nonneg) (auto dest: in_set_dropD)
  ultimately have f: "amount + 1000 \<le> inputSum utxos \<longleftrightarrow> amount + 1000 \<le> c" using n(3) by (auto simp: inputSum_def)
  define outs where "outs = [pays address amount] @ (if c - (amount + 1000) > 546 then [pays me (c - (amount + 1000))] else [])"
  have "grdPayment amount address me utxos = Inr (take n utxos, outs)"
    using assms(1) c n(1) by (simp add: grdPayment_def FEE_SATOSHI_def outs_def)
  then show ?thesis using n f by (intro exI [of _ n] exI [of _ outs]) (auto simp: outs_def outputTotal_def)
qed

section \<open>Properties\<close>

text \<open>C39. Sending the native coin signs and broadcasts one transaction: it spends the first outputs of
  the sender, pays exactly the amount in satoshi to the recipient, returns the change to the
  sender and leaves a fee of 1000 to 1546 satoshi. If the outputs do not cover the amount and
  the fee, nothing stops it: all of them are spent and the payment is signed all the same. The key
  is always that of account 0.\<close>

theorem kirim_payment:
  assumes "canSend rnd k" "\<not> kr_sending k" "sa_tipe (kr_selectedAsset k) = NATIVE" "amountSatoshi rnd k = Some amount"
    and "loadWallet P d = Some wallet" "deriveKey C (sw_mnemonic wallet) 0 = Inr key"
    and "utxosFor A (kr_myAddress k) = Inr utxos" "utxos \<noteq> []" "\<forall>u \<in> set utxos. 0 \<le> utxo_value u"
  shows "\<exists>n outs. fst (snd (handleSend P A C rnd d k)) =
      (case buildAndSignTx C (take n utxos) outs (dk_privateKey key) (dk_publicKey key) of Inl _ \<Rightarrow> None | Inr rawHex \<Rightarrow> Some rawHex) \<and>
    hd outs = pays (kr_address k) amount \<and> list_all (\<lambda>out. out_address out = Some (kr_myAddress k)) (tl outs) \<and>
    (if amount + 1000 \<le> inputSum utxos
     then 1000 \<le> inputSum (take n utxos) - outputTotal outs \<and> inputSum (take n utxos) - outputTotal outs \<le> 1546
     else take n utxos = utxos \<and> outs = [pays (kr_address k) amount])"
proof -
  from grdPayment_ok [OF assms(8,9), of amount "kr_address k" "kr_myAddress k"] obtain n outs where
    g: "grdPayment amount (kr_address k) (kr_myAddress k) utxos = Inr (take n utxos, outs)" and
    rest: "hd outs = pays (kr_address k) amount" "list_all (\<lambda>out. out_address out = Some (kr_myAddress k)) (tl outs)"
      "if amount + 1000 \<le> inputSum utxos
       then 1000 \<le> inputSum (take n utxos) - outputTotal outs \<and> inputSum (take n utxos) - outputTotal outs \<le> 1546
       else take n utxos = utxos \<and> outs = [pays (kr_address k) amount]"
    by blast
  have "signedPayment P A C rnd d k = buildAndSignTx C (take n utxos) outs (dk_privateKey key) (dk_publicKey key)"
    using assms g by (simp add: signedPayment_def sendKey_def signedWith_def)
  then have "fst (snd (handleSend P A C rnd d k)) =
      (case buildAndSignTx C (take n utxos) outs (dk_privateKey key) (dk_publicKey key) of Inl _ \<Rightarrow> None | Inr rawHex \<Rightarrow> Some rawHex)"
    using assms(1,2) by (simp add: handleSend_def split: sum.split)
  with rest show ?thesis by (intro exI [of _ n] exI [of _ outs] conjI)
qed

definition sample_kirim :: kirim where
  "sample_kirim = KirimScreen\<lparr>kr_address := ''grd1q'', kr_amount := ''2'', kr_balanceSatoshi := 300000000, kr_myAddress := ''grd1p''\<rparr>"

definition sample_utxo :: json where
  "sample_utxo = JArr [JObj [(''txid'', JStr ''ab''), (''vout'', JNum 0 0), (''value'', JNum 250000000 0)]]"

definition sample_sendKey :: DerivedKey where
  "sample_sendKey = (case deriveKey sample_crypto ''frasa'' 0 of Inr key \<Rightarrow> key)"

lemma sample_wallet:
  "loadWallet sample_phone (saveWallet sample_phone ''frasa'' (sample_walletAccount ''a'') sample_device) =
   Some \<lparr>sw_mnemonic = ''frasa'', sw_accounts = [sample_walletAccount ''a''], sw_activeAccountId = ''a''\<rparr>"
  using keeps_load [OF keeps_save [OF lawful_phone], of "sample_walletAccount ''a''" "''frasa''" sample_device]
  by (simp add: fitsAccount_def sample_walletAccount_def shown_def)

lemma sample_send_ok:
  "amountSatoshi id sample_kirim = Some 200000000" "canSend id sample_kirim"
  "deriveKey sample_crypto ''frasa'' 0 = Inr sample_sendKey"
  "utxosFor (sample_api (stringify sample_utxo)) ''grd1p'' = Inr [\<lparr>txid = ''ab'', vout = 0, utxo_value = 250000000\<rparr>]"
proof -
  have n: "amountNum id sample_kirim = Some 2"
    by (simp add: amountNum_def sample_kirim_def KirimScreen_def parseFloat_def js_space_def isDigit_def digits_val_def exponentOf_def scale10_def)
  then show a: "amountSatoshi id sample_kirim = Some 200000000" by (simp add: amountSatoshi_def)
  from n a show "canSend id sample_kirim" by (simp add: canSend_def sample_kirim_def KirimScreen_def GRD_ASSET_def FEE_SATOSHI_def)
  show "deriveKey sample_crypto ''frasa'' 0 = Inr sample_sendKey"
    by (simp add: sample_sendKey_def deriveKey_def sample_crypto_def Let_def)
  have "wf_json sample_utxo" by (simp add: sample_utxo_def)
  then show "utxosFor (sample_api (stringify sample_utxo)) ''grd1p'' = Inr [\<lparr>txid = ''ab'', vout = 0, utxo_value = 250000000\<rparr>]"
    by (simp add: utxosFor_def getUTXOs_def apiFetch_def sample_api_def json_roundtrip) (simp add: sample_utxo_def arrayOrMember_def asUtxo_def)
qed

theorem kirim_payment_witness:
  "\<exists>n outs. fst (snd (handleSend sample_phone (sample_api (stringify sample_utxo)) sample_crypto id
      (saveWallet sample_phone ''frasa'' (sample_walletAccount ''a'') sample_device) sample_kirim)) =
    (case buildAndSignTx sample_crypto (take n [\<lparr>txid = ''ab'', vout = 0, utxo_value = 250000000\<rparr>]) outs
        (dk_privateKey sample_sendKey) (dk_publicKey sample_sendKey) of Inl _ \<Rightarrow> None | Inr rawHex \<Rightarrow> Some rawHex) \<and>
    hd outs = pays ''grd1q'' 200000000 \<and>
    1000 \<le> inputSum (take n [\<lparr>txid = ''ab'', vout = 0, utxo_value = 250000000\<rparr>]) - outputTotal outs"
proof -
  have my: "kr_myAddress sample_kirim = ''grd1p''" "kr_address sample_kirim = ''grd1q''" "sa_tipe (kr_selectedAsset sample_kirim) = NATIVE"
    "\<not> kr_sending sample_kirim"
    by (simp_all add: sample_kirim_def KirimScreen_def GRD_ASSET_def)
  have "200000000 + 1000 \<le> inputSum [\<lparr>txid = ''ab'', vout = 0, utxo_value = 250000000\<rparr>]" by (simp add: inputSum_def)
  with kirim_payment [OF sample_send_ok(2) my(4,3) sample_send_ok(1) sample_wallet, of sample_crypto sample_sendKey
      "sample_api (stringify sample_utxo)" "[\<lparr>txid = ''ab'', vout = 0, utxo_value = 250000000\<rparr>]"] sample_send_ok(3,4) my
  show ?thesis by simp blast
qed

end
