(* ===== verification/Progress.thy ===== *)
theory Progress
  imports Worker
begin

text \<open>
  Termination of the handlers of the background worker. A handler is a tree of awaits, so it is
  well-founded by construction; here the number of awaits on every path of every handler is
  bounded, segment by segment.
\<close>

section \<open>Awaits of a handler\<close>

text \<open>\<open>advance\<close> continues a handler once per element of its first argument: with a reply, if it waits
  for one, and in a state that the other handlers have left. \<open>ends n p\<close> says that \<open>p\<close> has
  answered after at most \<open>n\<close> continuations, whatever the replies and the states are.\<close>

fun advance :: "(reply \<times> bg) list \<Rightarrow> proc \<Rightarrow> proc" where
  "advance [] p = p"
| "advance ((r, s) # xs) (Finish a) = Finish a"
| "advance ((r, s) # xs) (Resume f) = advance xs (snd (f s))"
| "advance ((r, s) # xs) (Fetch q k) = advance xs (snd (k r s))"

fun ends :: "nat \<Rightarrow> proc \<Rightarrow> bool" where
  "ends n (Finish a) \<longleftrightarrow> True"
| "ends 0 p \<longleftrightarrow> False"
| "ends (Suc n) (Resume f) \<longleftrightarrow> (\<forall>s. ends n (snd (f s)))"
| "ends (Suc n) (Fetch q k) \<longleftrightarrow> (\<forall>r s. ends n (snd (k r s)))"

lemma ends_advance: "ends n p \<Longrightarrow> length xs = n \<Longrightarrow> \<exists>a. advance xs p = Finish a"
proof (induction xs arbitrary: n p)
  case Nil
  then show ?case by (cases p) auto
next
  case (Cons x xs)
  then show ?case by (cases x; cases p) (auto intro!: Cons.IH [OF _ refl])
qed

lemma ends_Suc: "ends n p \<Longrightarrow> ends (Suc n) p"
  by (induction n p rule: ends.induct) auto

lemma ends_mono: "ends n p \<Longrightarrow> n \<le> m \<Longrightarrow> ends m p"
  by (induction m) (auto simp: le_Suc_eq intro: ends_Suc)

definition inTime :: "nat \<Rightarrow> segment \<Rightarrow> bool" where
  "inTime n k \<longleftrightarrow> (\<forall>s. ends n (snd (k s)))"

lemma inTime_mono: "inTime m k \<Longrightarrow> m \<le> n \<Longrightarrow> inTime n k"
  by (auto simp: inTime_def intro: ends_mono)

lemma inTime_end [simp]: "inTime n (fail e)" "inTime n (answer v)" "inTime n (tell p v)" "inTime n (tellError p e)"
  "inTime n (addPending E params origin t i)"
  by (simp_all add: inTime_def fail_def answer_def tell_def tellError_def addPending_def Let_def)

lemma inTime_session: "(\<And>v. inTime n (k v)) \<Longrightarrow> inTime n (withSession k)"
  by (auto simp: inTime_def withSession_def fail_def split: option.split)

lemma inTime_connected: "inTime n k \<Longrightarrow> inTime n (whenConnected origin k)"
  by (simp add: inTime_def whenConnected_def fail_def)

lemma inTime_saving: "inTime n k \<Longrightarrow> inTime (Suc (Suc n)) (saving E data password k)"
  by (simp add: inTime_def saving_def split: prod.split)

lemma inTime_loading: "(\<And>x. inTime n (k x)) \<Longrightarrow> inTime (Suc (Suc n)) (loading E password k)"
  by (simp add: inTime_def loading_def)

lemma inTime_fetching: "(\<And>j. inTime n (k j)) \<Longrightarrow> (\<And>e. inTime n (failed e)) \<Longrightarrow> inTime (Suc n) (fetching q k failed)"
  by (auto simp: inTime_def fetching_def split: reply.split)

lemma inTime_key: "(\<And>e. inTime n (failed e)) \<Longrightarrow> (\<And>a key. inTime n (k a key)) \<Longrightarrow> inTime n (withKey E failed mnemonic account k)"
  by (auto simp: withKey_def split: option.split sum.split)

lemma inTime_sign:
  "(\<And>e. inTime n (failed e)) \<Longrightarrow> (\<And>j. inTime n (k j)) \<Longrightarrow> inTime (Suc (Suc n)) (signAndBroadcast E key failed k payment)"
  using inTime_fetching [of n k failed] inTime_mono [of n "failed _" "Suc (Suc n)"]
  by (auto simp: signAndBroadcast_def inTime_def split: sum.split)

lemma inTime_assets: "(\<And>r. inTime n (k r)) \<Longrightarrow> inTime (Suc n) (assetsFrom q tipe results k)"
  unfolding assetsFrom_def Let_def by (intro inTime_fetching) (auto split: option.split prod.split bool.split)

lemma inTime_transfer:
  assumes "\<And>e. inTime n (failed e)" "\<And>j. inTime n (k j)"
  shows "inTime (Suc (Suc (Suc (Suc n)))) (tokenTransfer E failed k account key assetId amt to)"
proof -
  have f: "inTime m (failed e)" if "n \<le> m" for m e using inTime_mono [OF assms(1) that] .
  show ?thesis unfolding tokenTransfer_def
    by (intro inTime_fetching) (auto intro!: inTime_fetching inTime_sign f assms split: sum.split)
qed

lemma inTime_apply: "(\<And>s. inTime n (k s)) \<Longrightarrow> inTime n (\<lambda>s. k s s)"
  by (simp add: inTime_def)

lemma inTime_state: "(\<And>s. ends n (snd (k s))) \<Longrightarrow> inTime n k"
  by (simp add: inTime_def)

lemma inTime_at: "inTime n k \<Longrightarrow> ends n (snd (k s))"
  by (simp add: inTime_def)

section \<open>Every handler\<close>

lemma inTime_wallet:
  "inTime 4 wallet_hasVault" "inTime 4 (wallet_create E mnemonic password name)" "inTime 4 (wallet_unlock E password)"
  "inTime 4 wallet_lock" "inTime 4 wallet_getAccounts" "inTime 4 (wallet_addAccount E)" "inTime 4 (wallet_exportMnemonic E password)"
  "inTime 4 (wallet_getBalance a)" "inTime 4 (wallet_getAddressInfo a)" "inTime 4 wallet_getAssetList"
proof -
  have two: "inTime 2 k \<Longrightarrow> inTime 4 k" and one: "inTime 1 k \<Longrightarrow> inTime 4 k" and three: "inTime 3 k \<Longrightarrow> inTime 4 k" for k
    by (auto intro: inTime_mono)
  note nums = numeral_2_eq_2 numeral_3_eq_3 One_nat_def
  show "inTime 4 wallet_hasVault" by (intro one) (simp add: inTime_def wallet_hasVault_def answer_def)
  show "inTime 4 wallet_lock" by (simp add: inTime_def wallet_lock_def answer_def)
  show "inTime 4 (wallet_create E mnemonic password name)"
    using inTime_saving [of 0 "\<lambda>s. answer (RAddress x) (setSession password v s)" for x v]
    by (intro two) (auto simp: inTime_def wallet_create_def fail_def answer_def Let_def alloc_def nums split: sum.split)
  show "inTime 4 (wallet_unlock E password)" unfolding wallet_unlock_def
    by (intro two, unfold nums, intro inTime_loading)
       (auto simp: inTime_def fail_def answer_def split: option.split prod.split)
  show "inTime 4 wallet_getAccounts" unfolding wallet_getAccounts_def
    by (intro inTime_session) (simp add: inTime_def answer_def)
  show "inTime 4 (wallet_addAccount E)" unfolding wallet_addAccount_def
    using inTime_saving [of 0 "answer x" for x]
    by (intro two inTime_session) (auto simp: inTime_def fail_def answer_def Let_def nums split: sum.split prod.split option.split)
  show "inTime 4 (wallet_exportMnemonic E password)" unfolding wallet_exportMnemonic_def
    by (intro two inTime_session, unfold nums, intro inTime_loading) (auto simp: inTime_def fail_def answer_def split: option.split)
  show "inTime 4 (wallet_getBalance a)" "inTime 4 (wallet_getAddressInfo a)"
    unfolding wallet_getBalance_def wallet_getAddressInfo_def
    by (intro one inTime_session; simp add: inTime_def fetching_def answer_def fail_def split: reply.split)+
  show "inTime 4 wallet_getAssetList" unfolding wallet_getAssetList_def
    by (intro three, unfold nums, intro inTime_assets) simp
qed

lemma inTime_send: "inTime 4 (wallet_sendNative E to amt)" "inTime 4 (wallet_sendToken E to amt' asset)"
proof -
  have n: "(4 :: nat) = Suc (Suc (Suc (Suc 0)))" by simp
  have "inTime 4 (withKey E fail mnemonic acc (\<lambda>account key. fetching (Utxos (am_address account)) (\<lambda>utxoRes.
      signAndBroadcast E key fail (\<lambda>res. answer (RServer res)) (f account utxoRes)) fail))" for mnemonic acc f
    by (intro inTime_key) (simp, rule inTime_mono [of "Suc (Suc (Suc 0))"], auto intro!: inTime_fetching inTime_sign)
  then show "inTime 4 (wallet_sendNative E to amt)"
    unfolding wallet_sendNative_def Let_def by (intro inTime_session) (simp add: inTime_def)
  have "inTime 4 (withKey E fail mnemonic acc (\<lambda>account key. tokenTransfer E fail (\<lambda>res. answer (RServer res)) account key asset amt' to))" for mnemonic acc
    unfolding n by (intro inTime_key inTime_transfer) simp_all
  then show "inTime 4 (wallet_sendToken E to amt' asset)"
    unfolding wallet_sendToken_def Let_def by (intro inTime_session) (simp add: inTime_def)
qed

lemma inTime_garuda:
  "inTime 4 (garuda_requestAccounts E origin tabId i)" "inTime 4 (garuda_getAccounts origin)"
  "inTime 4 (garuda_placeOrder E op origin tabId i)" "inTime 4 (garuda_signMessage E msg a origin tabId i)"
  "inTime 4 (garuda_sendTransaction E sp origin tabId i)" "inTime 4 (garuda_sendToken E tp origin tabId i)"
  unfolding garuda_placeOrder_def garuda_signMessage_def garuda_sendTransaction_def garuda_sendToken_def
  by (auto intro!: inTime_session inTime_connected)
     (auto simp: inTime_def garuda_requestAccounts_def garuda_getAccounts_def answer_def addPending_def Let_def split: option.split)

lemma inTime_broadcast [simp]: "inTime n (broadcastTx p res)"
  by (simp add: broadcastTx_def split: sum.split)

lemma inTime_payments: "inTime 4 (approvedSend E p sp v)" "inTime 4 (approvedToken E p tp v)" "inTime 4 (approvedSign E p msg a v)"
proof -
  have n: "(4 :: nat) = Suc (Suc (Suc (Suc 0)))" by simp
  have "inTime 4 (withKey E (tellError p) mnemonic acc (\<lambda>account key. fetching (Utxos (am_address account)) (\<lambda>utxoRes.
      signAndBroadcast E key (tellError p) (broadcastTx p) (f account utxoRes)) (tellError p)))" for mnemonic acc f
    by (intro inTime_key) (simp, rule inTime_mono [of "Suc (Suc (Suc 0))"], auto intro!: inTime_fetching inTime_sign)
  then show "inTime 4 (approvedSend E p sp v)" by (simp add: inTime_def approvedSend_def Let_def)
  have "inTime 4 (withKey E (tellError p) mnemonic acc (\<lambda>account key.
      tokenTransfer E (tellError p) (broadcastTx p) account key asset amt to))" for mnemonic acc asset amt to
    unfolding n by (intro inTime_key inTime_transfer) simp_all
  then show "inTime 4 (approvedToken E p tp v)" by (simp add: inTime_def approvedToken_def Let_def)
  show "inTime 4 (approvedSign E p msg a v)" unfolding n
    by (auto simp: inTime_def approvedSign_def Let_def withKey_def tell_def tellError_def answer_def split: option.split sum.split)
qed

lemma inTime_order: "inTime 4 (approvedOrder E p op v)"
proof -
  have n: "(4 :: nat) = Suc 3" "(3 :: nat) = Suc (Suc 1)" by simp_all
  have "inTime 3 (withKey E (tellError p) mnemonic acc (\<lambda>account key. signAndBroadcast E key (tellError p) (\<lambda>res. tell p (RServer res)) tx))"
    for mnemonic acc tx unfolding n(2) by (intro inTime_key inTime_sign) simp_all
  then have w: "inTime 3 (\<lambda>s. withKey E (tellError p) (vd_mnemonic (vs_heap s ! v)) (accountFor (op_address op) (vs_heap s ! v))
      (\<lambda>account key. signAndBroadcast E key (tellError p) (\<lambda>res. tell p (RServer res)) tx) s)" for tx
    by (simp add: inTime_def)
  show ?thesis unfolding approvedOrder_def n(1) Let_def
    by (intro inTime_fetching) (auto simp: w split: sum.split option.split)
qed

lemma inTime_approved: "inTime 4 (handleApproved E p)"
proof -
  have "inTime (Suc (Suc 0)) (approvedAccounts E p v)" for v
    using inTime_saving [of 0 "\<lambda>s3. tell p (RStrs (map am_address (vd_accounts (vs_heap s3 ! v)))) s3"]
    by (auto simp: inTime_def approvedAccounts_def Let_def tell_def answer_def split: prod.split option.split)
  then have "inTime 4 (approvedAccounts E p v)" for v by (rule inTime_mono) simp
  with inTime_payments inTime_order show ?thesis
    by (auto simp: inTime_def handleApproved_def tellError_def answer_def split: option.split pending_params.split)
qed

lemma inTime_response: "inTime 4 (approval_response E i ok)"
  using inTime_approved by (auto simp: inTime_def approval_response_def answer_def tellError_def Let_def split: option.split)

lemma inTime_onMessage: "inTime 4 (onMessage E m sd)"
proof -
  have "inTime 4 (handleMessage E m sd)"
    unfolding handleMessage_def Let_def
    by (cases "m_call m") (simp_all add: inTime_wallet inTime_send inTime_garuda inTime_response,
        simp add: inTime_def answer_def)
  then show ?thesis
    by (auto simp: inTime_def onMessage_def answer_def Let_def split: call.split option.split list.split prod.split)
qed

section \<open>Properties\<close>


end
