(* ===== verification/Screens.thy ===== *)
theory Screens
  imports GarudaApi P2P "HOL-Library.Multiset"
begin

text \<open>
  Smaller screens of the mobile wallet that keep state: the quiz on the recovery phrase
  (\<open>mobile/app/verifikasi-frasa.tsx\<close>), the address book (\<open>buku-alamat.tsx\<close>), the watched addresses
  (\<open>pantau-alamat.tsx\<close>) and the security settings (\<open>keamanan.tsx\<close>).

  The random orders of the quiz are arguments. The lists are JSON in AsyncStorage, over the
  interfaces of the theory \<open>Storage\<close>; a stored text that does not parse leaves the screen as it is.
\<close>

section \<open>The quiz on the recovery phrase\<close>

record quiz =
  qz_words :: "string list"
  qz_quizIndices :: "nat list"
  qz_answers :: "(nat \<times> string) list"
  qz_wrongFlash :: "string option"
  qz_showSuccess :: bool
  qz_modalDismissed :: bool

definition pickQuizIndices :: "nat list \<Rightarrow> nat list" where
  "pickQuizIndices shuffled = sort (take 6 shuffled)"

definition getChoices :: "(string list \<Rightarrow> string list) \<Rightarrow> (string list \<Rightarrow> string list) \<Rightarrow> string \<Rightarrow> string list \<Rightarrow> string list" where
  "getChoices shuffle1 shuffle2 correctWord allWords =
    shuffle2 (correctWord # take 2 (shuffle1 (filter (\<lambda>w. w \<noteq> correctWord) allWords)))"

definition splitBlank :: "string \<Rightarrow> string list" where
  "splitBlank s = (if s = [] then [] else rev (map rev (fold (\<lambda>c ps. if c = CHR '' '' then [] # ps else (c # hd ps) # tl ps) s [[]])))"

definition VerifikasiFrasaScreen :: "string \<Rightarrow> nat list \<Rightarrow> quiz" where
  "VerifikasiFrasaScreen mnemonic shuffled =
    \<lparr>qz_words = splitBlank mnemonic, qz_quizIndices = pickQuizIndices shuffled, qz_answers = [], qz_wrongFlash = None,
     qz_showSuccess = False, qz_modalDismissed = False\<rparr>"

definition activeQuizIndex :: "quiz \<Rightarrow> nat option" where
  "activeQuizIndex q = find (\<lambda>idx. map_of (qz_answers q) idx = None) (qz_quizIndices q)"

definition wordAt :: "quiz \<Rightarrow> nat \<Rightarrow> string option" where
  "wordAt q i = (if i < length (qz_words q) then Some (qz_words q ! i) else None)"

definition currentChoices :: "(string list \<Rightarrow> string list) \<Rightarrow> (string list \<Rightarrow> string list) \<Rightarrow> quiz \<Rightarrow> string list" where
  "currentChoices shuffle1 shuffle2 q =
    (case activeQuizIndex q of None \<Rightarrow> []
     | Some i \<Rightarrow> (case wordAt q i of None \<Rightarrow> [] | Some w \<Rightarrow> getChoices shuffle1 shuffle2 w (qz_words q)))"

definition allAnswered :: "quiz \<Rightarrow> bool" where
  "allAnswered q \<longleftrightarrow> list_all (\<lambda>idx. map_of (qz_answers q) idx \<noteq> None) (qz_quizIndices q)"

definition handleChoice :: "string \<Rightarrow> quiz \<Rightarrow> quiz" where
  "handleChoice word q =
    (case activeQuizIndex q of
       None \<Rightarrow> q
     | Some i \<Rightarrow>
         if wordAt q i = Some word then
           let q1 = q\<lparr>qz_answers := mput i word (qz_answers q)\<rparr>
           in if allAnswered q1 then q1\<lparr>qz_showSuccess := True\<rparr> else q1
         else q\<lparr>qz_wrongFlash := Some word\<rparr>)"

definition handleDismissModal :: "quiz \<Rightarrow> quiz" where
  "handleDismissModal q = q\<lparr>qz_showSuccess := False, qz_modalDismissed := True\<rparr>"

text \<open>The modal can be dismissed while it is shown; the flash ends after 600 ms.\<close>

inductive quiz_reach :: "string \<Rightarrow> nat list \<Rightarrow> quiz \<Rightarrow> bool" for mnemonic shuffled where
  asked: "quiz_reach mnemonic shuffled (VerifikasiFrasaScreen mnemonic shuffled)"
| chosen: "quiz_reach mnemonic shuffled q \<Longrightarrow> quiz_reach mnemonic shuffled (handleChoice word q)"
| flashed: "quiz_reach mnemonic shuffled q \<Longrightarrow> quiz_reach mnemonic shuffled (q\<lparr>qz_wrongFlash := None\<rparr>)"
| dismissed: "quiz_reach mnemonic shuffled q \<Longrightarrow> qz_showSuccess q \<Longrightarrow> quiz_reach mnemonic shuffled (handleDismissModal q)"

text \<open>The user leaves the quiz only after giving the word of the phrase at every asked position.\<close>

definition quiz_ok :: "string \<Rightarrow> nat list \<Rightarrow> quiz \<Rightarrow> bool" where
  "quiz_ok mnemonic shuffled q \<longleftrightarrow> qz_words q = splitBlank mnemonic \<and> qz_quizIndices q = pickQuizIndices shuffled \<and>
    (\<forall>i w. map_of (qz_answers q) i = Some w \<longrightarrow> wordAt q i = Some w) \<and>
    (qz_showSuccess q \<or> qz_modalDismissed q \<longrightarrow> allAnswered q)"

lemma allAnswered_mput: "allAnswered q \<Longrightarrow> allAnswered (q\<lparr>qz_answers := mput i w (qz_answers q)\<rparr>)"
  by (auto simp: allAnswered_def list_all_iff)

lemma quiz_fields [simp]:
  "wordAt (q\<lparr>qz_answers := a\<rparr>) = wordAt q" "wordAt (q\<lparr>qz_wrongFlash := f\<rparr>) = wordAt q" "wordAt (q\<lparr>qz_showSuccess := b\<rparr>) = wordAt q"
  "allAnswered (q\<lparr>qz_wrongFlash := f\<rparr>) = allAnswered q" "allAnswered (q\<lparr>qz_showSuccess := b\<rparr>) = allAnswered q"
  "wordAt (q\<lparr>qz_modalDismissed := c\<rparr>) = wordAt q" "allAnswered (q\<lparr>qz_modalDismissed := c\<rparr>) = allAnswered q"
  by (auto simp: wordAt_def allAnswered_def)

lemma quiz_ok_choice: "quiz_ok mnemonic shuffled q \<Longrightarrow> quiz_ok mnemonic shuffled (handleChoice word q)"
  using allAnswered_mput [of q _ word]
  by (auto simp: quiz_ok_def handleChoice_def Let_def split: option.split)

theorem quiz_reach_ok: "quiz_reach mnemonic shuffled q \<Longrightarrow> quiz_ok mnemonic shuffled q"
proof (induction rule: quiz_reach.induct)
  case asked
  show ?case by (simp add: quiz_ok_def VerifikasiFrasaScreen_def)
next
  case (chosen q word)
  then show ?case by (simp add: quiz_ok_choice)
qed (auto simp: quiz_ok_def handleDismissModal_def)

text \<open>It asks for six different positions of the phrase.\<close>

lemma pickQuizIndices_ok:
  assumes "mset shuffled = mset [0..<24]"
  shows "length (pickQuizIndices shuffled) = 6 \<and> distinct (pickQuizIndices shuffled) \<and> sorted (pickQuizIndices shuffled) \<and>
    set (pickQuizIndices shuffled) \<subseteq> {0..<24}"
proof -
  have "distinct shuffled" "length shuffled = 24" "set shuffled = {0..<24}"
    using mset_eq_imp_distinct_iff [OF assms] mset_eq_length [OF assms] mset_eq_setD [OF assms] by auto
  then show ?thesis using set_take_subset [of 6 shuffled] by (auto simp: pickQuizIndices_def)
qed

section \<open>The address book\<close>

record Address =
  ad_id :: string
  ad_name :: string
  ad_address :: string
  ad_network :: string
  ad_networkColor :: string

definition BOOK_KEY :: string where "BOOK_KEY = ''garuda_address_book''"

definition addressJson :: "Address \<Rightarrow> json" where
  "addressJson a = JObj [(''id'', JStr (ad_id a)), (''name'', JStr (ad_name a)), (''address'', JStr (ad_address a)),
    (''network'', JStr (ad_network a)), (''networkColor'', JStr (ad_networkColor a))]"

definition jsonAddress :: "json \<Rightarrow> Address option" where
  "jsonAddress j =
    (case (Option.bind (field j ''id'') asStr, Option.bind (field j ''name'') asStr, Option.bind (field j ''address'') asStr,
           Option.bind (field j ''network'') asStr, Option.bind (field j ''networkColor'') asStr) of
       (Some i, Some n, Some a, Some w, Some c) \<Rightarrow>
         Some \<lparr>ad_id = i, ad_name = n, ad_address = a, ad_network = w, ad_networkColor = c\<rparr>
     | _ \<Rightarrow> None)"

interpretation book: json_codec addressJson jsonAddress "\<lambda>a. True"
  by unfold_locales (simp_all add: addressJson_def jsonAddress_def)

record addressBook =
  ab_addresses :: "Address list"
  ab_search :: string
  ab_showAddModal :: bool
  ab_newName :: string
  ab_newAddress :: string

text \<open>Every list of these screens is read when it opens, and written as a whole.\<close>

definition loadList :: "('a, 's) platform \<Rightarrow> string \<Rightarrow> (json \<Rightarrow> 'x option) \<Rightarrow> ('a, 's) device \<Rightarrow> 'x list \<Rightarrow> 'x list" where
  "loadList P key dec d now =
    (case presentStr (asyncGet P key d) of None \<Rightarrow> now
     | Some t \<Rightarrow> (case parseAs (asArr dec) t of Inl _ \<Rightarrow> now | Inr xs \<Rightarrow> xs))"

definition persistList :: "('a, 's) platform \<Rightarrow> string \<Rightarrow> ('x \<Rightarrow> json) \<Rightarrow> 'x list \<Rightarrow> ('a, 's) device \<Rightarrow> ('a, 's) device" where
  "persistList P key enc xs d = asyncSet P key (printList enc xs) d"

definition loadBook :: "('a, 's) platform \<Rightarrow> ('a, 's) device \<Rightarrow> addressBook \<Rightarrow> addressBook" where
  "loadBook P d b = b\<lparr>ab_addresses := loadList P BOOK_KEY jsonAddress d (ab_addresses b)\<rparr>"

definition filteredBook :: "addressBook \<Rightarrow> Address list" where
  "filteredBook b = filter (\<lambda>a. isInfix (toLowerCase (ab_search b)) (toLowerCase (ad_name a)) \<or>
    isInfix (toLowerCase (ab_search b)) (toLowerCase (ad_address a)) \<or>
    isInfix (toLowerCase (ab_search b)) (toLowerCase (ad_network a))) (ab_addresses b)"

definition deleteAddress :: "('a, 's) platform \<Rightarrow> string \<Rightarrow> addressBook \<times> ('a, 's) device \<Rightarrow> addressBook \<times> ('a, 's) device" where
  "deleteAddress P i s =
    (let updated = filter (\<lambda>a. ad_id a \<noteq> i) (ab_addresses (fst s))
     in ((fst s)\<lparr>ab_addresses := updated\<rparr>, persistList P BOOK_KEY addressJson updated (snd s)))"

definition addAddress :: "('a, 's) platform \<Rightarrow> nat \<Rightarrow> addressBook \<times> ('a, 's) device \<Rightarrow> addressBook \<times> ('a, 's) device" where
  "addAddress P now s =
    (let b = fst s
     in if trim (ab_newName b) = [] \<or> trim (ab_newAddress b) = [] then s
        else let updated = ab_addresses b @ [\<lparr>ad_id = CHR ''a'' # toString10 now, ad_name = trim (ab_newName b),
                   ad_address = trim (ab_newAddress b), ad_network = ''GarudaChain'', ad_networkColor = ''#C8922A''\<rparr>]
             in (b\<lparr>ab_addresses := updated, ab_newName := [], ab_newAddress := [], ab_showAddModal := False\<rparr>,
                 persistList P BOOK_KEY addressJson updated (snd s)))"

context json_codec
begin

lemma load_persisted:
  assumes "lawful P" "list_all fits xs"
  shows "loadList P key dec (persistList P key enc xs d) now = xs"
proof -
  have "printList enc xs \<noteq> []" using stringify_hd [of "JArr (map enc xs)"] by (auto simp: printList_def)
  then show ?thesis
    using parse_printed [OF assms(2)] assms(1)
    by (simp add: loadList_def persistList_def asyncKV.get_put parseStored_def split: sum.splits)
qed

end

text \<open>What the screen shows is what it shows after it is opened again.\<close>

theorem book_kept:
  assumes "lawful P" "s' = deleteAddress P i s \<or> s' = addAddress P now s \<and> trim (ab_newName (fst s)) \<noteq> [] \<and> trim (ab_newAddress (fst s)) \<noteq> []"
  shows "ab_addresses (loadBook P (snd s') b) = ab_addresses (fst s')"
  using assms book.load_persisted [OF assms(1)]
  by (auto simp: deleteAddress_def addAddress_def loadBook_def Let_def list_all_iff)

section \<open>Watched addresses\<close>

record WatchAddress =
  wt_id :: string
  wt_name :: string
  wt_address :: string
  wt_balance :: json
  wt_txCount :: json

definition WATCH_KEY :: string where "WATCH_KEY = ''garuda_watch_addresses''"

definition watchJson :: "WatchAddress \<Rightarrow> json" where
  "watchJson w = JObj [(''id'', JStr (wt_id w)), (''name'', JStr (wt_name w)), (''address'', JStr (wt_address w)),
    (''balance'', wt_balance w), (''txCount'', wt_txCount w)]"

definition jsonWatch :: "json \<Rightarrow> WatchAddress option" where
  "jsonWatch j =
    (case (Option.bind (field j ''id'') asStr, Option.bind (field j ''name'') asStr, Option.bind (field j ''address'') asStr,
           field j ''balance'', field j ''txCount'') of
       (Some i, Some n, Some a, Some b, Some t) \<Rightarrow>
         Some \<lparr>wt_id = i, wt_name = n, wt_address = a, wt_balance = b, wt_txCount = t\<rparr>
     | _ \<Rightarrow> None)"

interpretation watched: json_codec watchJson jsonWatch "\<lambda>w. wf_json (wt_balance w) \<and> wf_json (wt_txCount w)"
  by unfold_locales (simp_all add: watchJson_def jsonWatch_def)

record watchScreen =
  ws_name :: string
  ws_address :: string
  ws_watchList :: "WatchAddress list"

definition loadWatch :: "('a, 's) platform \<Rightarrow> ('a, 's) device \<Rightarrow> watchScreen \<Rightarrow> watchScreen" where
  "loadWatch P d w = w\<lparr>ws_watchList := loadList P WATCH_KEY jsonWatch d (ws_watchList w)\<rparr>"

definition canImport :: "watchScreen \<Rightarrow> bool" where
  "canImport w \<longleftrightarrow> 10 < length (trim (ws_address w))"

definition watchEntry :: "nat \<Rightarrow> watchScreen \<Rightarrow> json \<Rightarrow> WatchAddress" where
  "watchEntry now w info =
    \<lparr>wt_id = CHR ''w'' # toString10 now,
     wt_name = (if trim (ws_name w) \<noteq> [] then trim (ws_name w) else ''Pantau '' @ take 8 (trim (ws_address w)) @ ''...''),
     wt_address = trim (ws_address w), wt_balance = nullish (optProp info ''balance'') (JNum 0 0),
     wt_txCount = nullish (optProp info ''txCount'') (JNum 0 0)\<rparr>"

text \<open>The last component is the alert.\<close>

definition importWatch ::
    "('a, 's) platform \<Rightarrow> api \<Rightarrow> (rat \<Rightarrow> rat) \<Rightarrow> nat \<Rightarrow> watchScreen \<times> ('a, 's) device \<Rightarrow> watchScreen \<times> ('a, 's) device \<times> string option" where
  "importWatch P A rnd now s =
    (let w = fst s
     in if \<not> canImport w then (w, snd s, None)
        else case getAddressInfo A rnd (trim (ws_address w)) of
               Inl _ \<Rightarrow> (w, snd s, Some ''Alamat tidak ditemukan di jaringan GarudaChain. Pastikan alamat benar.'')
             | Inr info \<Rightarrow>
                 let entry = watchEntry now w info; updated = entry # ws_watchList w
                 in (w\<lparr>ws_watchList := updated, ws_name := [], ws_address := []\<rparr>, persistList P WATCH_KEY watchJson updated (snd s),
                     Some (''Alamat '' @ wt_name entry @ '' berhasil ditambahkan ke daftar pantau.'')))"

definition deleteWatch :: "('a, 's) platform \<Rightarrow> string \<Rightarrow> watchScreen \<times> ('a, 's) device \<Rightarrow> watchScreen \<times> ('a, 's) device" where
  "deleteWatch P i s =
    (let updated = filter (\<lambda>w. wt_id w \<noteq> i) (ws_watchList (fst s))
     in ((fst s)\<lparr>ws_watchList := updated\<rparr>, persistList P WATCH_KEY watchJson updated (snd s)))"

text \<open>A failed import changes neither the screen nor the device.\<close>

lemma importWatch_failed:
  "getAddressInfo A rnd (trim (ws_address w)) = Inl e \<Longrightarrow> \<exists>a. importWatch P A rnd now (w, d) = (w, d, a)"
  by (simp add: importWatch_def Let_def)

theorem watch_kept:
  assumes "lawful P" "list_all (\<lambda>w. wf_json (wt_balance w) \<and> wf_json (wt_txCount w)) (ws_watchList (fst s))"
  shows "ws_watchList (loadWatch P (snd (deleteWatch P i s)) w) = ws_watchList (fst (deleteWatch P i s))"
  using assms watched.load_persisted [OF assms(1)]
  by (auto simp: deleteWatch_def loadWatch_def Let_def list_all_iff)

section \<open>Security settings\<close>

record securitySettings =
  sc_biometric :: json
  sc_autoLock :: json
  sc_hideBalance :: json
  sc_antiPhishing :: json
  sc_txConfirm :: json
  sc_selectedSession :: json

definition SETTINGS_KEY :: string where "SETTINGS_KEY = ''garuda_security_settings''"

definition initialSettings :: securitySettings where
  "initialSettings = \<lparr>sc_biometric = JBool False, sc_autoLock = JBool True, sc_hideBalance = JBool False,
    sc_antiPhishing = JBool True, sc_txConfirm = JBool True, sc_selectedSession = JStr ''5m''\<rparr>"

definition settingsOf :: "json \<Rightarrow> securitySettings" where
  "settingsOf s =
    \<lparr>sc_biometric = nullish (optProp s ''biometric'') (JBool False), sc_autoLock = nullish (optProp s ''autoLock'') (JBool True),
     sc_hideBalance = nullish (optProp s ''hideBalance'') (JBool False), sc_antiPhishing = nullish (optProp s ''antiPhishing'') (JBool True),
     sc_txConfirm = nullish (optProp s ''txConfirm'') (JBool True), sc_selectedSession = nullish (optProp s ''selectedSession'') (JStr ''5m'')\<rparr>"

text \<open>\<open>null\<close> has no properties: reading it throws and leaves the screen unchanged.\<close>

definition loadSettings :: "('a, 's) platform \<Rightarrow> ('a, 's) device \<Rightarrow> securitySettings \<Rightarrow> securitySettings" where
  "loadSettings P d c =
    (case presentStr (asyncGet P SETTINGS_KEY d) of None \<Rightarrow> c
     | Some t \<Rightarrow> (case jsonParse t of Inl _ \<Rightarrow> c | Inr s \<Rightarrow> if s = JNull then c else settingsOf s))"

definition saveSettings :: "('a, 's) platform \<Rightarrow> (string \<times> json) list \<Rightarrow> ('a, 's) device \<Rightarrow> unit result \<times> ('a, 's) device" where
  "saveSettings P patch d =
    (case (case presentStr (asyncGet P SETTINGS_KEY d) of None \<Rightarrow> Inr (JObj []) | Some t \<Rightarrow> jsonParse t) of
       Inl e \<Rightarrow> (Inl e, d)
     | Inr prev \<Rightarrow> (Inr (), asyncSet P SETTINGS_KEY (stringify (JObj (fold (\<lambda>(k, v). mput k v) patch (spread prev)))) d))"

definition stored :: "('a, 's) platform \<Rightarrow> ('a, 's) device \<Rightarrow> (string \<times> json) list \<Rightarrow> bool" where
  "stored P d kvs \<longleftrightarrow> asyncGet P SETTINGS_KEY d = Some (stringify (JObj kvs)) \<and> wf_json (JObj kvs)"

lemma load_stored: "stored P d kvs \<Longrightarrow> loadSettings P d c = settingsOf (JObj kvs)"
  using stringify_hd [of "JObj kvs"] json_roundtrip [of "JObj kvs"]
  by (auto simp: stored_def loadSettings_def simp del: stringify.simps wf_json.simps)

lemma wf_mput: "wf_json (JObj kvs) \<Longrightarrow> wf_json v \<Longrightarrow> wf_json (JObj (mput k v kvs))"
  using set_mput [of k v kvs] by (auto simp: distinct_mput)

text \<open>A switch is kept: after it is set and the screen opened again it has its value, and no other
  setting has changed.\<close>

theorem setting_kept:
  assumes "lawful P" "stored P d kvs" "wf_json v"
  shows "stored P (snd (saveSettings P [(k, v)] d)) (mput k v kvs)"
  using assms stringify_hd [of "JObj kvs"] json_roundtrip [of "JObj kvs"] wf_mput [of kvs v k]
  by (auto simp: stored_def saveSettings_def asyncKV.get_put simp del: stringify.simps wf_json.simps)

corollary setting_reload:
  assumes "lawful P" "stored P d kvs"
  shows "loadSettings P (snd (saveSettings P [(''autoLock'', JBool b)] d)) c = (settingsOf (JObj kvs))\<lparr>sc_autoLock := JBool b\<rparr>"
  using load_stored [OF setting_kept [OF assms, of "JBool b" "''autoLock''"]]
  by (simp add: settingsOf_def optProp_def nullish_def)

end
