(* ===== verification/Tickets.thy ===== *)
theory Tickets
  imports Keys Dates
begin

text \<open>
  The desk of the administrator (\<open>mobile/app/admin-obrolan.tsx\<close>): the tickets of customers, their
  messages and status, and the handlers that reply, close and escalate. The sample tickets the
  screen starts with are an argument.
\<close>

section \<open>The screen\<close>

datatype TicketStatus = TAktif | TSelesai | TEskalasi
datatype FilterTab = SemuaTab | AktifTab | SelesaiTab
datatype msgSender = Customer | Admin | System

record AdminMessage =
  am_id :: string
  am_from :: msgSender
  am_text :: string
  am_time :: string
  am_senderName :: "string option"

record CustomerTicket =
  ct_id :: string
  ct_customer :: string
  ct_avatar :: string
  ct_asset :: string
  ct_amount :: string
  ct_idr :: string
  ct_beli :: bool
  ct_status :: TicketStatus
  ct_lastMsg :: string
  ct_time :: string
  ct_unread :: nat
  ct_messages :: "AdminMessage list"

record desk =
  ds_adminName :: string
  ds_tickets :: "CustomerTicket list"
  ds_filter :: FilterTab
  ds_activeTicket :: "CustomerTicket option"
  ds_reply :: string

definition AdminObrolanScreen :: "string option \<Rightarrow> CustomerTicket list \<Rightarrow> desk" where
  "AdminObrolanScreen adminName tickets =
    \<lparr>ds_adminName = (case adminName of None \<Rightarrow> ''Admin GarudaChain'' | Some n \<Rightarrow> n), ds_tickets = tickets,
     ds_filter = SemuaTab, ds_activeTicket = None, ds_reply = []\<rparr>"

definition filteredTickets :: "desk \<Rightarrow> CustomerTicket list" where
  "filteredTickets s = filter (\<lambda>t. case ds_filter s of
      SemuaTab \<Rightarrow> True
    | AktifTab \<Rightarrow> ct_status t = TAktif \<or> ct_status t = TEskalasi
    | SelesaiTab \<Rightarrow> ct_status t = TSelesai) (ds_tickets s)"

definition totalUnread :: "desk \<Rightarrow> nat" where
  "totalUnread s = sum_list (map ct_unread (ds_tickets s))"

section \<open>Handlers\<close>

definition openTicket :: "CustomerTicket \<Rightarrow> desk \<Rightarrow> desk" where
  "openTicket ticket s = s\<lparr>ds_activeTicket := Some ticket,
    ds_tickets := map (\<lambda>t. if ct_id t = ct_id ticket then t\<lparr>ct_unread := 0\<rparr> else t) (ds_tickets s)\<rparr>"

definition closeTicket :: "desk \<Rightarrow> desk" where
  "closeTicket s = s\<lparr>ds_activeTicket := None\<rparr>"

definition replaceTicket :: "CustomerTicket \<Rightarrow> CustomerTicket \<Rightarrow> desk \<Rightarrow> desk" where
  "replaceTicket active updated s =
    s\<lparr>ds_tickets := map (\<lambda>t. if ct_id t = ct_id active then updated else t) (ds_tickets s), ds_activeTicket := Some updated\<rparr>"

text \<open>\<open>now\<close> is the time in milliseconds and \<open>tz\<close> the time zone of the device.\<close>

definition sendReply :: "int \<Rightarrow> nat \<Rightarrow> desk \<Rightarrow> desk" where
  "sendReply tz now s =
    (case ds_activeTicket s of
       None \<Rightarrow> s
     | Some active \<Rightarrow>
         if trim (ds_reply s) = [] then s
         else let newMsg = \<lparr>am_id = ''msg-'' @ toString10 now, am_from = Admin, am_text = trim (ds_reply s),
                            am_time = clockTime tz now, am_senderName = Some (ds_adminName s)\<rparr>;
                  updatedTicket = active\<lparr>ct_messages := ct_messages active @ [newMsg], ct_lastMsg := trim (ds_reply s),
                                         ct_time := clockTime tz now\<rparr>
              in (replaceTicket active updatedTicket s)\<lparr>ds_reply := []\<rparr>)"

definition systemMsg :: "string \<Rightarrow> string \<Rightarrow> int \<Rightarrow> nat \<Rightarrow> AdminMessage" where
  "systemMsg prefix text tz now =
    \<lparr>am_id = prefix @ toString10 now, am_from = System, am_text = text, am_time = clockTime tz now, am_senderName = Some ''Sistem''\<rparr>"

definition doneText :: string where
  "doneText = pict [0xE2, 0x9C, 0x85] @ '' Tiket ditandai selesai oleh admin.''"

definition escalateText :: string where
  "escalateText = pict [0xF0, 0x9F, 0x9A, 0xA8] @ '' Tiket dieskalasi ke tim senior. Mohon tunggu penanganan lebih lanjut.''"

text \<open>The confirmed dialog works on the ticket that was shown when it was opened.\<close>

definition confirmDone :: "int \<Rightarrow> nat \<Rightarrow> CustomerTicket \<Rightarrow> desk \<Rightarrow> desk" where
  "confirmDone tz now active s =
    replaceTicket active (active\<lparr>ct_status := TSelesai,
      ct_messages := ct_messages active @ [systemMsg ''sys-'' doneText tz now]\<rparr>) s"

definition markDone :: "bool \<Rightarrow> int \<Rightarrow> nat \<Rightarrow> desk \<Rightarrow> desk" where
  "markDone confirmed tz now s =
    (case ds_activeTicket s of None \<Rightarrow> s | Some active \<Rightarrow> if confirmed then confirmDone tz now active s else s)"

definition escalate :: "int \<Rightarrow> nat \<Rightarrow> desk \<Rightarrow> desk" where
  "escalate tz now s =
    (case ds_activeTicket s of
       None \<Rightarrow> s
     | Some active \<Rightarrow>
         replaceTicket active (active\<lparr>ct_status := TEskalasi,
           ct_messages := ct_messages active @ [systemMsg ''esc-'' escalateText tz now]\<rparr>) s)"

section \<open>Runs\<close>

text \<open>The buttons of a conversation are shown until it is done.\<close>

definition ongoing :: "desk \<Rightarrow> bool" where
  "ongoing s \<longleftrightarrow> (case ds_activeTicket s of None \<Rightarrow> False | Some t \<Rightarrow> ct_status t \<noteq> TSelesai)"

inductive desk_step :: "desk \<Rightarrow> desk \<Rightarrow> bool" where
  opens: "desk_step s (openTicket t s)" if "ds_activeTicket s = None" "t \<in> set (filteredTickets s)"
| leaves: "desk_step s (closeTicket s)"
| filters: "desk_step s (s\<lparr>ds_filter := f\<rparr>)"
| types: "desk_step s (s\<lparr>ds_reply := r\<rparr>)" if "length r \<le> 500"
| replies: "desk_step s (sendReply tz now s)" if "ongoing s"
| finishes: "desk_step s (markDone c tz now s)" if "ongoing s"
| escalates: "desk_step s (escalate tz now s)" if "ongoing s"

text \<open>What a step keeps of a ticket: the order it is about, its earlier messages, and that it is done.\<close>

definition continues :: "CustomerTicket \<Rightarrow> CustomerTicket \<Rightarrow> bool" where
  "continues t u \<longleftrightarrow> ct_id u = ct_id t \<and> ct_customer u = ct_customer t \<and> ct_asset u = ct_asset t \<and> ct_amount u = ct_amount t \<and>
    ct_idr u = ct_idr t \<and> ct_beli u = ct_beli t \<and> take (length (ct_messages t)) (ct_messages u) = ct_messages t \<and>
    (ct_status t = TSelesai \<longrightarrow> ct_status u = TSelesai \<and> ct_messages u = ct_messages t)"

text \<open>The open ticket is the stored one, up to the count of unread messages.\<close>

definition desk_ok :: "desk \<Rightarrow> bool" where
  "desk_ok s \<longleftrightarrow> distinct (map ct_id (ds_tickets s)) \<and>
    (\<forall>a. ds_activeTicket s = Some a \<longrightarrow> (\<exists>t \<in> set (ds_tickets s). a\<lparr>ct_unread := 0\<rparr> = t\<lparr>ct_unread := 0\<rparr>))"

lemma continues_refl: "continues t t"
  by (simp add: continues_def)

lemma continues_unread: "continues t (t\<lparr>ct_unread := n\<rparr>)"
  by (simp add: continues_def)

lemma ids_replace:
  "ct_id updated = ct_id active \<Longrightarrow> map ct_id (ds_tickets (replaceTicket active updated s)) = map ct_id (ds_tickets s)"
  by (induction "ds_tickets s" arbitrary: s) (auto simp: replaceTicket_def)

lemma same_fields:
  assumes "a\<lparr>ct_unread := 0\<rparr> = t\<lparr>ct_unread := 0\<rparr>"
  shows "ct_id a = ct_id t" "continues a u \<longleftrightarrow> continues t u"
  using assms by (cases a; cases t; simp add: continues_def)+

lemma replace_ok:
  assumes "desk_ok s" "ds_activeTicket s = Some a" "continues a u"
  shows "desk_ok (replaceTicket a u s) \<and> list_all2 continues (ds_tickets s) (ds_tickets (replaceTicket a u s))"
proof -
  from assms(1,2) obtain t where t: "t \<in> set (ds_tickets s)" "a\<lparr>ct_unread := 0\<rparr> = t\<lparr>ct_unread := 0\<rparr>" by (auto simp: desk_ok_def)
  have i: "ct_id u = ct_id a" using assms(3) by (simp add: continues_def)
  have "desk_ok (replaceTicket a u s)"
    unfolding desk_ok_def ids_replace [OF i]
    using assms(1) t(1) same_fields(1) [OF t(2)] by (auto simp: desk_ok_def replaceTicket_def intro!: bexI [of _ u] image_eqI [of _ _ t])
  moreover have "continues x (if ct_id x = ct_id a then u else x)" if "x \<in> set (ds_tickets s)" for x
  proof (cases "ct_id x = ct_id a")
    case True
    then have "x = t" using assms(1) that t same_fields(1) [OF t(2)] by (auto simp: desk_ok_def distinct_map dest: inj_onD)
    then show ?thesis using True assms(3) same_fields(2) [OF t(2)] by simp
  qed (simp add: continues_refl)
  ultimately show ?thesis by (simp add: replaceTicket_def list_all2_map2 list_all2_same)
qed

lemma replaced_reply [simp]:
  "desk_ok (s\<lparr>ds_reply := r\<rparr>) = desk_ok s" "desk_ok (s\<lparr>ds_filter := f\<rparr>) = desk_ok s"
  by (simp_all add: desk_ok_def)

theorem desk_step_ok:
  assumes "desk_step s s'" "desk_ok s"
  shows "desk_ok s' \<and> list_all2 continues (ds_tickets s) (ds_tickets s')"
  using assms(1)
proof cases
  case (opens t)
  have m: "map (ct_id \<circ> (\<lambda>x. if ct_id x = ct_id t then x\<lparr>ct_unread := 0\<rparr> else x)) ts = map ct_id ts" for ts
    by simp
  have "t \<in> set (ds_tickets s)" using opens by (simp add: filteredTickets_def)
  then have "desk_ok s'" using assms(2)
    by (auto simp: m desk_ok_def opens(1) openTicket_def intro!: bexI [of _ "t\<lparr>ct_unread := 0\<rparr>"] image_eqI [of _ _ t])
  then show ?thesis by (simp add: opens(1) openTicket_def list_all2_map2 list_all2_same continues_refl continues_unread)
next
  case (replies tz now)
  then obtain a where a: "ds_activeTicket s = Some a" "ct_status a \<noteq> TSelesai" by (auto simp: ongoing_def split: option.splits)
  show ?thesis
    using replace_ok [OF assms(2) a(1)] a assms(2)
    by (auto simp: replies(1) sendReply_def Let_def continues_def [of a] continues_refl list_all2_same)
next
  case (finishes c tz now)
  then obtain a where a: "ds_activeTicket s = Some a" "ct_status a \<noteq> TSelesai" by (auto simp: ongoing_def split: option.splits)
  show ?thesis
    using replace_ok [OF assms(2) a(1)] a assms(2)
    by (auto simp: finishes(1) markDone_def confirmDone_def continues_def [of a] continues_refl list_all2_same)
next
  case (escalates tz now)
  then obtain a where a: "ds_activeTicket s = Some a" "ct_status a \<noteq> TSelesai" by (auto simp: ongoing_def split: option.splits)
  show ?thesis
    using replace_ok [OF assms(2) a(1)] a assms(2)
    by (auto simp: escalates(1) escalate_def continues_def [of a])
qed (use assms(2) in \<open>auto simp: list_all2_same continues_refl closeTicket_def desk_ok_def\<close>)

text \<open>The open ticket keeps the count of unread messages from before it was opened, so that a reply
  brings the count back.\<close>

theorem reply_restores_unread:
  assumes "t \<in> set (ds_tickets s)" "distinct (map ct_id (ds_tickets s))" "trim r \<noteq> []"
  shows "totalUnread (sendReply tz now ((openTicket t s)\<lparr>ds_reply := r\<rparr>)) = totalUnread s"
proof -
  have "x = t" if "x \<in> set (ds_tickets s)" "ct_id x = ct_id t" for x
    using assms(1,2) that by (auto simp: distinct_map dest: inj_onD)
  then have "map ct_unread (ds_tickets (sendReply tz now ((openTicket t s)\<lparr>ds_reply := r\<rparr>))) = map ct_unread (ds_tickets s)"
    using assms(3) by (auto simp: sendReply_def openTicket_def replaceTicket_def Let_def)
  then show ?thesis by (simp add: totalUnread_def)
qed

end
