(* ===== verification/WebFetch.thy ===== *)
theory WebFetch
  imports Keys Numbers
begin

text \<open>
  The HTTP client of the website (\<open>website/src/lib/api-client/custom-fetch.ts\<close>): the request it
  sends, what it makes of the response, and its errors. \<open>fetch\<close> is an argument. Headers are
  an association list over lower-case names; the order of their entries is not observable.
\<close>

section \<open>Headers\<close>

type_synonym headers = "(string \<times> string) list"

text \<open>\<open>new Headers(source)\<close> joins the values of one name with a comma; \<open>mergeHeaders\<close> lets later
  sources replace them.\<close>

fun headersAppend :: "string \<times> string \<Rightarrow> headers \<Rightarrow> headers" where
  "headersAppend (name, v) h =
    mput (toLowerCase name) (case map_of h (toLowerCase name) of None \<Rightarrow> trim v | Some old \<Rightarrow> old @ '', '' @ trim v) h"

definition newHeaders :: "(string \<times> string) list \<Rightarrow> headers" where
  "newHeaders source = fold headersAppend source []"

definition mergeHeaders :: "(string \<times> string) list option list \<Rightarrow> headers" where
  "mergeHeaders sources =
    fold (\<lambda>source h. case source of None \<Rightarrow> h | Some s \<Rightarrow> fold (\<lambda>(k, v) h. mput k v h) (newHeaders s) h) sources []"

section \<open>Requests\<close>

record web_request =
  wq_url :: string
  wq_method :: string
  wq_headers :: "(string \<times> string) list"

datatype web_input = Path string | Url string | Request web_request

datatype web_body = Text string | Blob string

datatype responseType = ResJson | ResText | ResBlob | ResAuto

record CustomFetchOptions =
  co_responseType :: "responseType option"
  co_method :: "string option"
  co_headers :: "(string \<times> string) list option"
  co_body :: "web_body option"

definition resolveMethod :: "web_input \<Rightarrow> string option \<Rightarrow> string" where
  "resolveMethod input explicitMethod =
    (case explicitMethod of
       Some (c # s) \<Rightarrow> toUpperCase (c # s)
     | _ \<Rightarrow> (case input of Request r \<Rightarrow> toUpperCase (wq_method r) | _ \<Rightarrow> ''GET''))"

fun resolveUrl :: "web_input \<Rightarrow> string" where
  "resolveUrl (Path s) = s"
| "resolveUrl (Url s) = s"
| "resolveUrl (Request r) = wq_url r"

section \<open>Responses\<close>

text \<open>\<open>rs_noBody\<close> is \<open>body === null\<close>; \<open>rs_blob\<close> is \<open>None\<close> where the runtime has no \<open>blob\<close>.\<close>

record web_response =
  rs_status :: nat
  rs_statusText :: string
  rs_ok :: bool
  rs_url :: string
  rs_headers :: headers
  rs_noBody :: bool
  rs_text :: "string result"
  rs_blob :: "string result option"

definition NO_BODY_STATUS :: "nat set" where
  "NO_BODY_STATUS = {204, 205, 304}"

definition DEFAULT_JSON_ACCEPT :: string where
  "DEFAULT_JSON_ACCEPT = ''application/json, application/problem+json''"

definition endsWith :: "string \<Rightarrow> string \<Rightarrow> bool" where
  "endsWith suffix s \<longleftrightarrow> length suffix \<le> length s \<and> drop (length s - length suffix) s = suffix"

definition startsWith :: "string \<Rightarrow> string \<Rightarrow> bool" where
  "startsWith p s \<longleftrightarrow> take (length p) s = p"

definition getMediaType :: "headers \<Rightarrow> string option" where
  "getMediaType h =
    (case map_of h ''content-type'' of
       Some (c # s) \<Rightarrow> Some (toLowerCase (trim (takeWhile (\<lambda>c. c \<noteq> CHR '';'') (c # s))))
     | _ \<Rightarrow> None)"

definition isJsonMediaType :: "string option \<Rightarrow> bool" where
  "isJsonMediaType mt \<longleftrightarrow> (case mt of None \<Rightarrow> False | Some t \<Rightarrow> t = ''application/json'' \<or> endsWith ''+json'' t)"

definition isTextMediaType :: "string option \<Rightarrow> bool" where
  "isTextMediaType mt \<longleftrightarrow>
    (case mt of None \<Rightarrow> False
     | Some t \<Rightarrow> t \<noteq> [] \<and> (startsWith ''text/'' t \<or> t = ''application/xml'' \<or> t = ''text/xml'' \<or> endsWith ''+xml'' t \<or>
                  t = ''application/x-www-form-urlencoded''))"

definition hasNoBody :: "web_response \<Rightarrow> string \<Rightarrow> bool" where
  "hasNoBody res method \<longleftrightarrow>
    method = ''HEAD'' \<or> rs_status res \<in> NO_BODY_STATUS \<or> map_of (rs_headers res) ''content-length'' = Some ''0'' \<or> rs_noBody res"

text \<open>The byte order mark is U+FEFF, as everywhere outside Latin-1 by its UTF-8 bytes.\<close>

definition stripBom :: "string \<Rightarrow> string" where
  "stripBom text = (if startsWith (pict [0xEF, 0xBB, 0xBF]) text then drop 3 text else text)"

definition looksLikeJson :: "string \<Rightarrow> bool" where
  "looksLikeJson text \<longleftrightarrow>
    (case dropWhile js_space text of [] \<Rightarrow> False | c # _ \<Rightarrow> c = CHR ''{'' \<or> c = CHR ''['')"

text \<open>The value a call returns, or the data of an error. \<open>Value JNull\<close> is null.\<close>

datatype web_data = Value json | TextData string | BlobData string

section \<open>Errors\<close>

definition getStringField :: "web_data \<Rightarrow> string \<Rightarrow> string option" where
  "getStringField v key =
    (case v of
       Value (JObj kvs) \<Rightarrow> (case map_of kvs key of Some (JStr s) \<Rightarrow> if trim s = [] then None else Some (trim s) | _ \<Rightarrow> None)
     | _ \<Rightarrow> None)"

definition truncate :: "string \<Rightarrow> nat \<Rightarrow> string" where
  "truncate text maxLength = (if maxLength < length text then take (maxLength - 1) text @ pict [0xE2, 0x80, 0xA6] else text)"

definition firstField :: "web_data \<Rightarrow> string list \<Rightarrow> string option" where
  "firstField v keys = (case List.map_filter (getStringField v) keys of [] \<Rightarrow> None | s # _ \<Rightarrow> Some s)"

definition errorPrefix :: "web_response \<Rightarrow> string" where
  "errorPrefix res = ''HTTP '' @ toString10 (rs_status res) @ '' '' @ rs_statusText res"

definition errorDetail :: "web_data \<Rightarrow> string option" where
  "errorDetail v =
    (case v of
       TextData t \<Rightarrow> if trim t \<noteq> [] then Some (truncate (trim t) 300) else None
     | Value (JStr t) \<Rightarrow> if trim t \<noteq> [] then Some (truncate (trim t) 300) else None
     | _ \<Rightarrow>
        let title = getStringField v ''title''; detail = getStringField v ''detail'';
            message = firstField v [''message'', ''error_description'', ''error'']
        in case (title, detail) of
             (Some t, Some d) \<Rightarrow> Some (t @ '' '' @ pict [0xE2, 0x80, 0x94] @ '' '' @ d)
           | (None, Some d) \<Rightarrow> Some d
           | _ \<Rightarrow> (case message of Some m \<Rightarrow> Some m | None \<Rightarrow> title))"

definition buildErrorMessage :: "web_response \<Rightarrow> web_data \<Rightarrow> string" where
  "buildErrorMessage res v = (case errorDetail v of None \<Rightarrow> errorPrefix res | Some d \<Rightarrow> errorPrefix res @ '': '' @ d)"

record ApiError =
  ae_message :: string
  ae_status :: nat
  ae_data :: web_data
  ae_method :: string
  ae_url :: string

record ResponseParseError =
  pe_message :: string
  pe_status :: nat
  pe_method :: string
  pe_url :: string
  pe_rawBody :: string

datatype web_error = IsApiError ApiError | IsParseError ResponseParseError | Thrown js_error

definition newApiError :: "web_response \<Rightarrow> web_data \<Rightarrow> string \<times> string \<Rightarrow> ApiError" where
  "newApiError res v requestInfo =
    \<lparr>ae_message = buildErrorMessage res v, ae_status = rs_status res, ae_data = v, ae_method = fst requestInfo,
     ae_url = (if rs_url res \<noteq> [] then rs_url res else snd requestInfo)\<rparr>"

definition newParseError :: "web_response \<Rightarrow> string \<Rightarrow> string \<times> string \<Rightarrow> ResponseParseError" where
  "newParseError res rawBody requestInfo =
    (let url = (if rs_url res \<noteq> [] then rs_url res else snd requestInfo)
     in \<lparr>pe_message = ''Failed to parse response from '' @ fst requestInfo @ '' '' @ url @ '' ('' @ toString10 (rs_status res) @
           '' '' @ rs_statusText res @ '') as JSON'',
         pe_status = rs_status res, pe_method = fst requestInfo, pe_url = url, pe_rawBody = rawBody\<rparr>)"

section \<open>Bodies\<close>

definition thrown :: "'a result \<Rightarrow> web_error + 'a" where
  "thrown r = (case r of Inl e \<Rightarrow> Inl (Thrown e) | Inr x \<Rightarrow> Inr x)"

definition parseJsonBody :: "web_response \<Rightarrow> string \<times> string \<Rightarrow> web_error + web_data" where
  "parseJsonBody res requestInfo =
    (case rs_text res of
       Inl e \<Rightarrow> Inl (Thrown e)
     | Inr raw \<Rightarrow>
         if trim (stripBom raw) = [] then Inr (Value JNull)
         else (case jsonParse (stripBom raw) of
                 Inl _ \<Rightarrow> Inl (IsParseError (newParseError res raw requestInfo))
               | Inr v \<Rightarrow> Inr (Value v)))"

definition textAs :: "(string \<Rightarrow> web_data) \<Rightarrow> web_response \<Rightarrow> js_error + web_data" where
  "textAs f res = map_sum id f (rs_text res)"

definition parseErrorBody :: "web_response \<Rightarrow> string \<Rightarrow> js_error + web_data" where
  "parseErrorBody res method =
    (let mediaType = getMediaType (rs_headers res)
     in if hasNoBody res method then Inr (Value JNull)
        else if mediaType \<noteq> None \<and> mediaType \<noteq> Some [] \<and> \<not> isJsonMediaType mediaType \<and> \<not> isTextMediaType mediaType
        then (case rs_blob res of Some b \<Rightarrow> map_sum id BlobData b | None \<Rightarrow> textAs TextData res)
        else textAs (\<lambda>raw.
               if trim (stripBom raw) = [] then Value JNull
               else if isJsonMediaType mediaType \<or> looksLikeJson (stripBom raw)
               then (case jsonParse (stripBom raw) of Inl _ \<Rightarrow> TextData raw | Inr v \<Rightarrow> Value v)
               else TextData raw) res)"

definition inferResponseType :: "web_response \<Rightarrow> responseType" where
  "inferResponseType res =
    (let mediaType = getMediaType (rs_headers res)
     in if isJsonMediaType mediaType then ResJson
        else if isTextMediaType mediaType \<or> mediaType = None then ResText else ResBlob)"

definition parseSuccessBody :: "web_response \<Rightarrow> responseType \<Rightarrow> string \<times> string \<Rightarrow> web_error + web_data" where
  "parseSuccessBody res responseType requestInfo =
    (if hasNoBody res (fst requestInfo) then Inr (Value JNull)
     else case (if responseType = ResAuto then inferResponseType res else responseType) of
            ResJson \<Rightarrow> parseJsonBody res requestInfo
          | ResText \<Rightarrow> thrown (textAs (\<lambda>text. if text = [] then Value JNull else TextData text) res)
          | _ \<Rightarrow> (case rs_blob res of None \<Rightarrow> Inl (Thrown TypeError) | Some b \<Rightarrow> thrown (map_sum id BlobData b)))"

section \<open>The call\<close>

record web_call =
  wc_url :: string
  wc_method :: string
  wc_headers :: headers
  wc_body :: "web_body option"

definition baseInput :: "string \<Rightarrow> web_input \<Rightarrow> web_input" where
  "baseInput API_BASE input =
    (case input of Path s \<Rightarrow> if API_BASE \<noteq> [] \<and> startsWith ''/api/'' s then Path (API_BASE @ s) else input | _ \<Rightarrow> input)"

definition callHeaders :: "web_input \<Rightarrow> CustomFetchOptions \<Rightarrow> headers" where
  "callHeaders input options =
    (let h = mergeHeaders [case input of Request r \<Rightarrow> Some (wq_headers r) | _ \<Rightarrow> None, co_headers options];
         h1 = (case co_body options of
                 Some (Text body) \<Rightarrow>
                   if map_of h ''content-type'' = None \<and> looksLikeJson body then mput ''content-type'' ''application/json'' h else h
               | _ \<Rightarrow> h)
     in if co_responseType options = Some ResJson \<and> map_of h1 ''accept'' = None then mput ''accept'' DEFAULT_JSON_ACCEPT h1 else h1)"

text \<open>The request, or the error of a body that the method does not allow.\<close>

definition prepareCall :: "string \<Rightarrow> web_input \<Rightarrow> CustomFetchOptions \<Rightarrow> web_error + web_call" where
  "prepareCall API_BASE input0 options =
    (let input = baseInput API_BASE input0; method = resolveMethod input (co_method options)
     in if co_body options \<noteq> None \<and> (method = ''GET'' \<or> method = ''HEAD'') then Inl (Thrown TypeError)
        else Inr \<lparr>wc_url = resolveUrl input, wc_method = method, wc_headers = callHeaders input options, wc_body = co_body options\<rparr>)"

definition customFetch ::
    "(web_call \<Rightarrow> web_response result) \<Rightarrow> string \<Rightarrow> web_input \<Rightarrow> CustomFetchOptions \<Rightarrow> web_error + web_data" where
  "customFetch fetch API_BASE input options =
    (case prepareCall API_BASE input options of
       Inl e \<Rightarrow> Inl e
     | Inr call \<Rightarrow>
         (case fetch call of
            Inl e \<Rightarrow> Inl (Thrown e)
          | Inr res \<Rightarrow>
              if \<not> rs_ok res then
                (case parseErrorBody res (wc_method call) of
                   Inl e \<Rightarrow> Inl (Thrown e)
                 | Inr errorData \<Rightarrow> Inl (IsApiError (newApiError res errorData (wc_method call, wc_url call))))
              else parseSuccessBody res (case co_responseType options of None \<Rightarrow> ResAuto | Some t \<Rightarrow> t) (wc_method call, wc_url call)))"

section \<open>What is sent\<close>

lemma map_of_puts: "map_of (fold (\<lambda>(k, v) h. mput k v h) ps h) k = (case map_of (rev ps) k of None \<Rightarrow> map_of h k | Some v \<Rightarrow> Some v)"
  by (induction ps arbitrary: h) (auto simp: map_add_def map_of_append split: option.split)

text \<open>The headers of the call replace those of the request object, name by name.\<close>

lemma distinct_newHeaders: "distinct (map fst (newHeaders s))"
proof -
  have "distinct (map fst h) \<Longrightarrow> distinct (map fst (fold headersAppend s h))" for h
    by (induction s arbitrary: h) (auto simp: distinct_mput)
  from this [of "[]"] show ?thesis by (simp add: newHeaders_def)
qed

lemma map_of_rev_distinct:
  assumes "distinct (map fst ps)"
  shows "map_of (rev ps) = map_of ps"
proof
  fix k
  show "map_of (rev ps) k = map_of ps k"
  proof (cases "map_of ps k")
    case None
    then have "map_of (rev ps) k = None" by (simp add: map_of_eq_None_iff)
    with None show ?thesis by simp
  next
    case (Some v)
    then have "(k, v) \<in> set (rev ps)" by (simp add: map_of_SomeD)
    moreover have "distinct (map fst (rev ps))" using assms by (simp flip: rev_map)
    ultimately show ?thesis using Some by (simp add: map_of_is_SomeI)
  qed
qed

lemma mergeHeaders_get:
  "map_of (mergeHeaders [Some a, Some b]) k = (case map_of (newHeaders b) k of None \<Rightarrow> map_of (newHeaders a) k | Some v \<Rightarrow> Some v)"
  using distinct_newHeaders by (simp add: mergeHeaders_def map_of_puts map_of_rev_distinct split: option.split)

text \<open>A body is never sent with \<open>GET\<close> or \<open>HEAD\<close>, and a body of JSON is labelled as such.\<close>

lemma prepareCall_body:
  assumes "prepareCall base input options = Inr call" "wc_method call = ''GET'' \<or> wc_method call = ''HEAD''"
  shows "wc_body call = None"
  using assms by (auto simp: prepareCall_def Let_def split: if_splits)

lemma looksLikeJson_stringify:
  "(\<exists>kvs. v = JObj kvs) \<or> (\<exists>vs. v = JArr vs) \<Longrightarrow> looksLikeJson (stringify v)"
  by (auto simp: looksLikeJson_def js_space_def)

lemma json_labelled:
  assumes "prepareCall base input options = Inr call" "co_body options = Some (Text (stringify v))"
    and "(\<exists>kvs. v = JObj kvs) \<or> (\<exists>vs. v = JArr vs)"
  shows "map_of (wc_headers call) ''content-type'' \<noteq> None"
  using assms looksLikeJson_stringify [OF assms(3)]
  by (auto simp: prepareCall_def callHeaders_def Let_def split: if_splits)

section \<open>What comes back\<close>

lemma stringify_start: "\<exists>c t. stringify v = c # t \<and> \<not> js_space c \<and> of_char c < (128 :: nat)"
proof (cases v)
  case (JNum n k)
  then show ?thesis using printNum_hd [of n k] by (auto simp: js_space_def isDigit_def)
qed (auto simp: js_space_def quote_def)

lemma trim_nonempty: "\<not> js_space c \<Longrightarrow> trim (c # t) \<noteq> []"
  by (simp add: trim_def dropWhile_eq_Nil_conv)

lemma trim_stringify: "trim (stringify v) \<noteq> [] \<and> stripBom (stringify v) = stringify v"
proof -
  obtain c t where c: "stringify v = c # t" "\<not> js_space c" "of_char c < (128 :: nat)" using stringify_start by blast
  then have "c \<noteq> char_of (0xEF :: nat)" by auto
  then show ?thesis using c trim_nonempty [of c t] by (simp add: stripBom_def startsWith_def pict_def)
qed

text \<open>A successful reply of JSON is returned as the value that the server printed.\<close>

lemma customFetch_json:
  assumes "prepareCall base input options = Inr call" "fetch call = Inr res" "rs_ok res" "\<not> hasNoBody res (wc_method call)"
    and "co_responseType options = Some ResJson \<or> co_responseType options = None \<and> isJsonMediaType (getMediaType (rs_headers res))"
    and "rs_text res = Inr (stringify v)" "wf_json v"
  shows "customFetch fetch base input options = Inr (Value v)"
  using assms trim_stringify [of v]
  by (auto simp: customFetch_def parseSuccessBody_def inferResponseType_def parseJsonBody_def json_roundtrip)

text \<open>A reply that is not a success never returns a value; its error names the status.\<close>

lemma customFetch_error:
  assumes "prepareCall base input options = Inr call" "fetch call = Inr res" "\<not> rs_ok res"
  shows "(\<exists>e. customFetch fetch base input options = Inl (Thrown e)) \<or>
    (\<exists>a rest. customFetch fetch base input options = Inl (IsApiError a) \<and> ae_status a = rs_status res \<and>
       ae_message a = errorPrefix res @ rest)"
  using assms by (auto simp: customFetch_def newApiError_def buildErrorMessage_def split: sum.split option.split)

text \<open>Reading the body of an error fails only if the transport does; a body that is not JSON stays a text.\<close>

lemma parseErrorBody_total:
  "rs_text res = Inr t \<Longrightarrow> (\<And>b. rs_blob res = Some b \<Longrightarrow> \<exists>x. b = Inr x) \<Longrightarrow> \<exists>v. parseErrorBody res method = Inr v"
  by (auto simp: parseErrorBody_def Let_def textAs_def split: option.split)

end
