(* ===== verification/Toasts.thy ===== *)
theory Toasts
  imports Keys Json
begin

text \<open>
  The notifications of the website (\<open>website/src/hooks/use-toast.ts\<close>): the reducer with its side
  effect on the timers, the store that dispatches to it and the functions a page calls. The
  contents of a toast are of any type \<open>'a\<close>; a timer is kept with the time it fires at.
\<close>

section \<open>The store\<close>

definition TOAST_LIMIT :: nat where "TOAST_LIMIT = 1"
definition TOAST_REMOVE_DELAY :: nat where "TOAST_REMOVE_DELAY = 1000000"

record 'a ToasterToast =
  tt_id :: string
  tt_open :: bool
  tt_props :: 'a

datatype 'a Action =
    ADD_TOAST "'a ToasterToast"
  | UPDATE_TOAST string "bool option" "'a \<Rightarrow> 'a"   \<comment> \<open>the id, a new \<open>open\<close>, the properties that are given\<close>
  | DISMISS_TOAST "string option"
  | REMOVE_TOAST "string option"

record 'a toaster =
  ts_count :: nat
  ts_toasts :: "'a ToasterToast list"
  ts_timeouts :: "(string \<times> nat) list"

definition MAX_SAFE_INTEGER :: nat where "MAX_SAFE_INTEGER = 9007199254740991"

definition genId :: "'a toaster \<Rightarrow> string \<times> 'a toaster" where
  "genId s = (let n = (ts_count s + 1) mod MAX_SAFE_INTEGER in (toString10 n, s\<lparr>ts_count := n\<rparr>))"

definition addToRemoveQueue :: "nat \<Rightarrow> string \<Rightarrow> (string \<times> nat) list \<Rightarrow> (string \<times> nat) list" where
  "addToRemoveQueue now toastId q = (if map_of q toastId \<noteq> None then q else mput toastId (now + TOAST_REMOVE_DELAY) q)"

text \<open>An empty id is falsy: it queues every toast, but closes only those with that id.\<close>

fun reducer :: "nat \<Rightarrow> 'a Action \<Rightarrow> 'a toaster \<Rightarrow> 'a toaster" where
  "reducer now (ADD_TOAST t) s = s\<lparr>ts_toasts := take TOAST_LIMIT (t # ts_toasts s)\<rparr>"
| "reducer now (UPDATE_TOAST i o' f) s =
    s\<lparr>ts_toasts := map (\<lambda>t. if tt_id t = i
        then t\<lparr>tt_open := (case o' of None \<Rightarrow> tt_open t | Some b \<Rightarrow> b), tt_props := f (tt_props t)\<rparr> else t) (ts_toasts s)\<rparr>"
| "reducer now (DISMISS_TOAST i) s =
    s\<lparr>ts_timeouts := (if i \<noteq> None \<and> i \<noteq> Some [] then addToRemoveQueue now (the i) (ts_timeouts s)
                      else fold (\<lambda>t. addToRemoveQueue now (tt_id t)) (ts_toasts s) (ts_timeouts s)),
      ts_toasts := map (\<lambda>t. if Some (tt_id t) = i \<or> i = None then t\<lparr>tt_open := False\<rparr> else t) (ts_toasts s)\<rparr>"
| "reducer now (REMOVE_TOAST i) s =
    s\<lparr>ts_toasts := (case i of None \<Rightarrow> [] | Some j \<Rightarrow> filter (\<lambda>t. tt_id t \<noteq> j) (ts_toasts s))\<rparr>"

definition memoryState :: "'a toaster" where
  "memoryState = \<lparr>ts_count = 0, ts_toasts = [], ts_timeouts = []\<rparr>"

definition toast :: "nat \<Rightarrow> 'a \<Rightarrow> 'a toaster \<Rightarrow> string \<times> 'a toaster" where
  "toast now p s = (let (i, s1) = genId s in (i, reducer now (ADD_TOAST \<lparr>tt_id = i, tt_open = True, tt_props = p\<rparr>) s1))"

text \<open>The functions that \<open>toast\<close> and \<open>useToast\<close> return, and the timer.\<close>

definition toast_update :: "nat \<Rightarrow> string \<Rightarrow> bool option \<Rightarrow> ('a \<Rightarrow> 'a) \<Rightarrow> 'a toaster \<Rightarrow> 'a toaster" where
  "toast_update now i b f s = reducer now (UPDATE_TOAST i b f) s"

definition toast_dismiss :: "nat \<Rightarrow> string option \<Rightarrow> 'a toaster \<Rightarrow> 'a toaster" where
  "toast_dismiss now i s = reducer now (DISMISS_TOAST i) s"

definition onOpenChange :: "nat \<Rightarrow> string \<Rightarrow> bool \<Rightarrow> 'a toaster \<Rightarrow> 'a toaster" where
  "onOpenChange now i isOpen s = (if \<not> isOpen then toast_dismiss now (Some i) s else s)"

definition fireRemove :: "nat \<Rightarrow> string \<Rightarrow> 'a toaster \<Rightarrow> 'a toaster" where
  "fireRemove now i s = reducer now (REMOVE_TOAST (Some i)) (s\<lparr>ts_timeouts := mdelete i (ts_timeouts s)\<rparr>)"

section \<open>Runs\<close>

inductive toast_step :: "nat \<Rightarrow> 'a toaster \<Rightarrow> nat \<Rightarrow> 'a toaster \<Rightarrow> bool" where
  shows_one: "toast_step now s now (snd (toast now p s))"
| updates: "toast_step now s now (toast_update now i None f s)"
| dismisses: "toast_step now s now (toast_dismiss now i s)"
| closes: "toast_step now s now (onOpenChange now i isOpen s)"
| removes: "toast_step now s now (fireRemove now i s)" if "map_of (ts_timeouts s) i = Some due" "due \<le> now"
| ticks: "toast_step now s later s" if "now < later" "\<forall>(i, due) \<in> set (ts_timeouts s). later \<le> due"

inductive toast_reach :: "nat \<Rightarrow> 'a toaster \<Rightarrow> bool" where
  start: "toast_reach now memoryState"
| stepped: "toast_reach now s \<Longrightarrow> toast_step now s now' s' \<Longrightarrow> toast_reach now' s'"

section \<open>Invariant\<close>

text \<open>At most one toast is shown; a toast that was closed has a timer that removes it, at most
  1000 seconds ahead; no timer is overdue.\<close>

definition toasts_ok :: "nat \<Rightarrow> 'a toaster \<Rightarrow> bool" where
  "toasts_ok now s \<longleftrightarrow> length (ts_toasts s) \<le> 1 \<and>
    (\<forall>t \<in> set (ts_toasts s). tt_open t \<or> tt_id t \<in> fst ` set (ts_timeouts s)) \<and>
    distinct (map fst (ts_timeouts s)) \<and>
    (\<forall>(i, due) \<in> set (ts_timeouts s). now \<le> due \<and> due \<le> now + TOAST_REMOVE_DELAY)"

definition queue_ok :: "nat \<Rightarrow> (string \<times> nat) list \<Rightarrow> bool" where
  "queue_ok now q \<longleftrightarrow> distinct (map fst q) \<and> (\<forall>(i, due) \<in> set q. now \<le> due \<and> due \<le> now + TOAST_REMOVE_DELAY)"

lemma queue_add:
  assumes "queue_ok now q"
  shows "queue_ok now (addToRemoveQueue now i q)" "fst ` set (addToRemoveQueue now i q) = insert i (fst ` set q)"
proof -
  show "queue_ok now (addToRemoveQueue now i q)"
    using assms set_mput [of i "now + TOAST_REMOVE_DELAY" q] by (auto simp: queue_ok_def addToRemoveQueue_def distinct_mput)
  have "map_of q i \<noteq> None \<Longrightarrow> i \<in> fst ` set q" by (simp add: map_of_eq_None_iff)
  then show "fst ` set (addToRemoveQueue now i q) = insert i (fst ` set q)"
    by (auto simp: addToRemoveQueue_def keys_mput insert_absorb)
qed

lemma queue_adds:
  assumes "queue_ok now q"
  shows "queue_ok now (fold (\<lambda>t. addToRemoveQueue now (tt_id t)) ts q) \<and>
    fst ` set (fold (\<lambda>t. addToRemoveQueue now (tt_id t)) ts q) = tt_id ` set ts \<union> fst ` set q"
  using assms by (induction ts arbitrary: q) (auto simp: queue_add)

lemma toasts_ok_alt:
  "toasts_ok now s \<longleftrightarrow> length (ts_toasts s) \<le> 1 \<and>
    (\<forall>t \<in> set (ts_toasts s). tt_open t \<or> tt_id t \<in> fst ` set (ts_timeouts s)) \<and> queue_ok now (ts_timeouts s)"
  by (auto simp: toasts_ok_def queue_ok_def)

lemma toasts_ok_dismiss:
  assumes "toasts_ok now s"
  shows "toasts_ok now (toast_dismiss now i s)"
proof -
  have q: "queue_ok now (ts_timeouts s)" using assms(1) by (simp add: toasts_ok_alt)
  have k: "\<forall>t \<in> set (ts_toasts s). tt_open t \<or> tt_id t \<in> fst ` set (ts_timeouts s)" using assms(1) by (simp add: toasts_ok_alt)
  have a: "queue_ok now (ts_timeouts (toast_dismiss now i s))"
    "fst ` set (ts_timeouts s) \<subseteq> fst ` set (ts_timeouts (toast_dismiss now i s))"
    "\<And>t. t \<in> set (ts_toasts s) \<Longrightarrow> Some (tt_id t) = i \<or> i = None \<Longrightarrow> tt_id t \<in> fst ` set (ts_timeouts (toast_dismiss now i s))"
    using queue_add [OF q] queue_adds [OF q, of "ts_toasts s"] by (auto simp: toast_dismiss_def)
  have m: "ts_toasts (toast_dismiss now i s) = map (\<lambda>u. if Some (tt_id u) = i \<or> i = None then u\<lparr>tt_open := False\<rparr> else u) (ts_toasts s)"
    by (simp add: toast_dismiss_def)
  have "tt_open t \<or> tt_id t \<in> fst ` set (ts_timeouts (toast_dismiss now i s))" if t: "t \<in> set (ts_toasts (toast_dismiss now i s))" for t
  proof -
    from t obtain u where u: "u \<in> set (ts_toasts s)" "t = (if Some (tt_id u) = i \<or> i = None then u\<lparr>tt_open := False\<rparr> else u)"
      unfolding m set_map by blast
    then show ?thesis using k a(2) a(3) [OF u(1)] by (cases "Some (tt_id u) = i \<or> i = None") auto
  qed
  then show ?thesis using assms(1) a(1) m by (simp add: toasts_ok_alt)
qed

lemma toasts_ok_step:
  assumes "toast_step now s now' s'" "toasts_ok now s"
  shows "toasts_ok now' s'"
  using assms
proof cases
  case (removes i due)
  then show ?thesis
    using assms(2) by (auto simp: toasts_ok_def fireRemove_def set_mdelete distinct_mdelete
        intro: order.trans [OF length_filter_le])
next
  case (ticks)
  then show ?thesis using assms(2) by (fastforce simp: toasts_ok_def)
next
  case (updates i f)
  then show ?thesis using assms(2) by (auto simp: toasts_ok_def toast_update_def split: if_splits)
next
  case (shows_one p)
  then show ?thesis using assms(2) by (auto simp: toasts_ok_def toast_def genId_def TOAST_LIMIT_def Let_def)
next
  case (closes i isOpen)
  then show ?thesis using assms(2) by (auto simp: onOpenChange_def intro!: toasts_ok_dismiss)
qed (use assms(2) in \<open>simp add: toasts_ok_dismiss\<close>)

theorem toast_reach_ok: "toast_reach now s \<Longrightarrow> toasts_ok now s"
proof (induction rule: toast_reach.induct)
  case (start now)
  show ?case by (simp add: toasts_ok_def memoryState_def)
qed (rule toasts_ok_step)

text \<open>The ids repeat only after \<open>2 ^ 53 - 1\<close> toasts.\<close>

lemma genId_distinct:
  assumes "i < j" "j < MAX_SAFE_INTEGER"
  shows "toString10 ((n + i) mod MAX_SAFE_INTEGER) \<noteq> toString10 ((n + j) mod MAX_SAFE_INTEGER)"
proof
  assume "toString10 ((n + i) mod MAX_SAFE_INTEGER) = toString10 ((n + j) mod MAX_SAFE_INTEGER)"
  then have "(n + i) mod MAX_SAFE_INTEGER = (n + j) mod MAX_SAFE_INTEGER" by (simp add: toString10_inject)
  then have "MAX_SAFE_INTEGER dvd (n + j) - (n + i)" by (metis mod_eq_dvd_iff_nat add_le_cancel_left assms(1) less_imp_le)
  then have "MAX_SAFE_INTEGER dvd j - i" by simp
  then show False using assms by (auto dest!: dvd_imp_le)
qed

end
